(* ===== verification/CR_Prelude.thy ===== *)
theory CR_Prelude
  imports Main "HOL-Library.Word"
begin

text \<open>
  Shared vocabulary of the development: the collections of rewrite rules the component
  proofs use, the errno and wait-status conventions of the C library as the sources use
  them, the C integer operations that differ from those of HOL, decimal printing and
  scanning (the %d conversions of sprintf and sscanf), and generic list lemmas.
\<close>

unbundle bit_operations_syntax

named_theorems prog_simps \<open>symbolic execution of programs\<close>
named_theorems errno_defs \<open>numeric values of errno constants\<close>

section \<open>Machine integers\<close>

type_synonym u64 = "64 word"
type_synonym u32 = "32 word"
type_synonym byte = "8 word"

lemma unat_u64_add: "unat x + unat y < 2 ^ 64 \<Longrightarrow> unat (x + y) = unat x + unat (y :: u64)"
  using unat_add_lem [of x y] by simp

text \<open>C's int as the two's complement reading of 32 bits.\<close>

definition to_int32 :: "int \<Rightarrow> int" where
  "to_int32 i = signed_take_bit 31 i"

lemma to_int32_id: "- 2147483648 \<le> i \<Longrightarrow> i < 2147483648 \<Longrightarrow> to_int32 i = i"
  by (simp add: to_int32_def signed_take_bit_int_eq_self)

lemma to_int32_bounds: "- 2147483648 \<le> to_int32 i \<and> to_int32 i < 2147483648"
  using signed_take_bit_int_greater_eq_minus_exp [of 31 i]
    signed_take_bit_int_less_exp [of 31 i]
  by (simp add: to_int32_def)

text \<open>Division and remainder truncate towards zero in C.\<close>

definition c_div :: "int \<Rightarrow> int \<Rightarrow> int" where
  "c_div a b = sgn a * sgn b * (\<bar>a\<bar> div \<bar>b\<bar>)"

definition c_mod :: "int \<Rightarrow> int \<Rightarrow> int" where
  "c_mod a b = a - b * c_div a b"

lemma c_div_nonneg: "0 \<le> a \<Longrightarrow> 0 < b \<Longrightarrow> c_div a b = a div b"
  by (cases "a = 0") (simp_all add: c_div_def sgn_if)

lemma c_mod_nonneg: "0 \<le> a \<Longrightarrow> 0 < b \<Longrightarrow> c_mod a b = a mod b"
  by (simp add: c_mod_def c_div_nonneg minus_mult_div_eq_mod)

section \<open>C strings and numbers in them\<close>

definition NUL :: char where "NUL = CHR 0x00"

text \<open>The C string that starts at offset \<open>p\<close> of a buffer.\<close>

definition cstr :: "string \<Rightarrow> nat \<Rightarrow> string" where
  "cstr buf p = takeWhile (\<lambda>c. c \<noteq> NUL) (drop p buf)"

text \<open>\<open>snprintf\<close> into a buffer of \<open>n\<close> bytes: what is left of the string to print.\<close>

definition snprintf :: "nat \<Rightarrow> string \<Rightarrow> string" where
  "snprintf n txt = take (n - 1) txt"

definition isspace :: "char \<Rightarrow> bool" where
  "isspace c \<longleftrightarrow> c = CHR '' '' \<or> (9 \<le> (of_char c :: nat) \<and> (of_char c :: nat) \<le> 13)"

definition isdigit :: "char \<Rightarrow> bool" where
  "isdigit c \<longleftrightarrow> 48 \<le> (of_char c :: nat) \<and> (of_char c :: nat) \<le> 57"

definition digit_val :: "char \<Rightarrow> int" where
  "digit_val c = of_char c - 48"

definition digits_val :: "string \<Rightarrow> int" where
  "digits_val ds = foldl (\<lambda>n c. 10 * n + digit_val c) 0 ds"

definition split_sign :: "string \<Rightarrow> bool \<times> string" where
  "split_sign cs =
     (case cs of c # r \<Rightarrow> if c = CHR ''-'' then (True, r) else if c = CHR ''+'' then (False, r) else (False, cs)
      | [] \<Rightarrow> (False, []))"

text \<open>
  The conversion %\<open>w\<close>d of sscanf: blanks are skipped, at most \<open>w\<close> characters of sign and
  digits are read, at least one digit is needed; the value is stored in an int.
\<close>

definition clamp_long :: "int \<Rightarrow> int" where
  "clamp_long n = max (- (2 ^ 63)) (min (2 ^ 63 - 1) n)"

definition scan_d :: "nat \<Rightarrow> string \<Rightarrow> int option" where
  "scan_d w str =
     (let (neg, u) = split_sign (take w (dropWhile isspace str)); ds = takeWhile isdigit u in
      if ds = [] then None
      else Some (to_int32 (clamp_long (if neg then - digits_val ds else digits_val ds))))"

text \<open>\<open>sscanf(s, "%d", \<dots>)\<close> and \<open>atoi\<close>: the same without a width; \<open>atoi\<close> gives 0 for no number.\<close>

definition sscanf_d :: "string \<Rightarrow> int option" where
  "sscanf_d str = scan_d (length str) str"

definition atoi :: "string \<Rightarrow> int" where
  "atoi str = (case sscanf_d str of None \<Rightarrow> 0 | Some n \<Rightarrow> n)"

text \<open>The conversion %d of printf, for numbers that are not negative and then for all.\<close>

fun dec_nat :: "nat \<Rightarrow> string" where
  "dec_nat n = (if n < 10 then [char_of (48 + n)] else dec_nat (n div 10) @ [char_of (48 + n mod 10)])"

declare dec_nat.simps [simp del]

definition dec :: "int \<Rightarrow> string" where
  "dec n = (if n < 0 then CHR ''-'' # dec_nat (nat (- n)) else dec_nat (nat n))"

lemma digit_char: "d < 10 \<Longrightarrow> (of_char (char_of (48 + d) :: char) :: nat) = 48 + d"
  by (simp add: take_bit_nat_eq_self)

lemma digit_char_int: "d < 10 \<Longrightarrow> (of_char (char_of (48 + d) :: char) :: int) = 48 + int d"
  using arg_cong [OF digit_char [of d], of int] by (simp only: of_nat_of_char)

lemma dec_nat_isdigit: "c \<in> set (dec_nat n) \<Longrightarrow> isdigit c"
  by (induction n rule: dec_nat.induct)
    (subst (asm) (2) dec_nat.simps, auto simp: isdigit_def digit_char split: if_splits)

lemma dec_nat_not_Nil [simp]: "dec_nat n \<noteq> []"
  by (subst dec_nat.simps) simp

lemma digits_val_snoc: "digits_val (ds @ [c]) = 10 * digits_val ds + digit_val c"
  by (simp add: digits_val_def)

lemma digits_val_dec_nat: "digits_val (dec_nat n) = int n"
proof (induction n rule: dec_nat.induct)
  case (1 n)
  show ?case
  proof (cases "n < 10")
    case True
    then show ?thesis
      by (subst dec_nat.simps) (simp add: digits_val_def digit_val_def digit_char_int)
  next
    case False
    with 1 show ?thesis
      by (subst dec_nat.simps)
        (simp add: digits_val_snoc digit_val_def digit_char_int zdiv_int zmod_int)
  qed
qed

text \<open>Scanning undoes printing.\<close>

lemma isdigit_not: "isdigit c \<Longrightarrow> \<not> isspace c \<and> c \<noteq> CHR ''-'' \<and> c \<noteq> CHR ''+''"
  by (auto simp: isdigit_def isspace_def)

lemma split_sign_digits: "(\<And>c. c \<in> set ds \<Longrightarrow> isdigit c) \<Longrightarrow> split_sign ds = (False, ds)"
  using isdigit_not [of "hd ds"] by (cases ds) (auto simp: split_sign_def)

lemma dropWhile_isspace_digits: "(\<And>c. c \<in> set ds \<Longrightarrow> isdigit c) \<Longrightarrow> dropWhile isspace ds = ds"
  by (cases ds) (auto dest: isdigit_not)

lemma takeWhile_digits: "(\<And>c. c \<in> set ds \<Longrightarrow> isdigit c) \<Longrightarrow> takeWhile isdigit ds = ds"
  by (simp add: takeWhile_eq_all_conv)

lemma scan_d_dec_nat:
  assumes "n < 2147483648" and "length (dec_nat n) \<le> w"
  shows "scan_d w (dec_nat n) = Some (int n)"
  using assms
  by (simp add: scan_d_def Let_def dropWhile_isspace_digits split_sign_digits takeWhile_digits
      dec_nat_isdigit digits_val_dec_nat clamp_long_def to_int32_id)

lemma sscanf_d_dec_nat: "n < 2147483648 \<Longrightarrow> sscanf_d (dec_nat n) = Some (int n)"
  by (simp add: sscanf_d_def scan_d_dec_nat)

lemma atoi_dec_nat: "n < 2147483648 \<Longrightarrow> atoi (dec_nat n) = int n"
  by (simp add: atoi_def sscanf_d_dec_nat)

lemma length_dec_nat: "0 < k \<Longrightarrow> n < 10 ^ k \<Longrightarrow> length (dec_nat n) \<le> k"
proof (induction k arbitrary: n)
  case 0
  then show ?case by simp
next
  case (Suc k)
  show ?case
  proof (cases "n < 10")
    case True
    then show ?thesis by (subst dec_nat.simps) simp
  next
    case False
    with Suc.prems have "0 < k" and "n div 10 < 10 ^ k"
      by (auto intro: gr0I simp: less_mult_imp_div_less mult.commute)
    with Suc.IH False show ?thesis by (subst dec_nat.simps) simp
  qed
qed

section \<open>errno\<close>

definition EPERM :: int where [errno_defs]: "EPERM = 1"
definition ENOENT :: int where [errno_defs]: "ENOENT = 2"
definition ESRCH :: int where [errno_defs]: "ESRCH = 3"
definition EINTR :: int where [errno_defs]: "EINTR = 4"
definition EBADF :: int where [errno_defs]: "EBADF = 9"
definition ECHILD :: int where [errno_defs]: "ECHILD = 10"
definition EAGAIN :: int where [errno_defs]: "EAGAIN = 11"
definition ENOMEM :: int where [errno_defs]: "ENOMEM = 12"
definition EACCES :: int where [errno_defs]: "EACCES = 13"
definition EFAULT :: int where [errno_defs]: "EFAULT = 14"
definition EBUSY :: int where [errno_defs]: "EBUSY = 16"
definition EINVAL :: int where [errno_defs]: "EINVAL = 22"
definition EDEADLK :: int where [errno_defs]: "EDEADLK = 35"
definition ENOSYS :: int where [errno_defs]: "ENOSYS = 38"
definition ERESTART :: int where [errno_defs]: "ERESTART = 85"
definition ETIMEDOUT :: int where [errno_defs]: "ETIMEDOUT = 110"

section \<open>Wait statuses\<close>

text \<open>The macros of sys/wait.h on the status word that waitpid stores.\<close>

definition WTERMSIG :: "u32 \<Rightarrow> u32" where
  "WTERMSIG st = st AND 0x7f"

definition WIFEXITED :: "u32 \<Rightarrow> bool" where
  "WIFEXITED st \<longleftrightarrow> WTERMSIG st = 0"

definition WEXITSTATUS :: "u32 \<Rightarrow> u32" where
  "WEXITSTATUS st = drop_bit 8 (st AND 0xff00)"

definition WIFSIGNALED :: "u32 \<Rightarrow> bool" where
  "WIFSIGNALED st \<longleftrightarrow> WTERMSIG st \<noteq> 0 \<and> WTERMSIG st \<noteq> 0x7f"

text \<open>The status word the kernel builds from the argument of \<open>_exit\<close>: its low byte.\<close>

definition exit_status :: "int \<Rightarrow> u32" where
  "exit_status c = push_bit 8 (word_of_int c AND 0xff)"

lemma mask_7f: "(0x7f :: u32) = mask 7" and mask_ff: "(0xff :: u32) = mask 8"
  by (simp_all add: mask_eq_exp_minus_1)

lemma mask_ff00: "(0xff00 :: u32) = push_bit 8 (mask 8)"
  by (simp add: mask_eq_exp_minus_1 push_bit_eq_mult)

lemma WIFEXITED_exit_status: "WIFEXITED (exit_status c)"
proof -
  have "push_bit 8 (w AND mask 8) AND mask 7 = (0 :: u32)" for w
    by (rule bit_word_eqI) (auto simp: bit_simps)
  then show ?thesis
    by (simp only: WIFEXITED_def WTERMSIG_def exit_status_def mask_7f mask_ff)
qed

lemma WEXITSTATUS_exit_status: "WEXITSTATUS (exit_status c) = word_of_int c AND 0xff"
proof -
  have "drop_bit 8 (push_bit 8 (w AND mask 8) AND push_bit 8 (mask 8)) = (w AND mask 8 :: u32)" for w
    by (rule bit_word_eqI) (auto simp: bit_simps)
  then show ?thesis
    by (simp only: WEXITSTATUS_def exit_status_def mask_ff mask_ff00)
qed

section \<open>Signals\<close>

definition SIGINT :: int where "SIGINT = 2"
definition SIGKILL :: int where "SIGKILL = 9"
definition SIGUSR1 :: int where "SIGUSR1 = 10"
definition SIGIO :: int where "SIGIO = 29"
definition SIGCHLD :: int where "SIGCHLD = 17"

text \<open>Dispositions of a signal: default, ignored, or the handler defined at a line of the source.\<close>

definition SIG_DFL :: nat where "SIG_DFL = 0"
definition SIG_IGN :: nat where "SIG_IGN = 1"

end
