(* ===== verification/Process.thy ===== *)
theory Process
  imports CR_Prelude
begin

text \<open>
  The programs of the repository are single C processes that talk to the kernel and to
  the C library. This theory fixes what such a process is in the model.

  \<^item> A \<open>call\<close> is one call of a libc or system function with its arguments (\<open>Libc\<close> has those
    that need no type of their own, by name); printing to
    the log, to stdout or to stderr names the message by the line of the source that
    prints it. A stream (\<open>FILE *\<close>, \<open>DIR *\<close>) is named by a number that is negative for the null
    pointer; any other pointer is its address, 0 for the null pointer.
  \<^item> The environment is a parameter: the \<open>script\<close> of a process is the list of answers
    (return value, errno, bytes or integers stored through out-parameters) that the
    kernel and its peers will give to its calls. Nothing is assumed of it. A theorem
    that needs documented behaviour of the kernel says so as a hypothesis on the script.
  \<^item> A call whose result the source uses (or that may block) takes the next answer of the
    script (\<open>sys\<close>); a call whose result the source discards is only recorded (\<open>emit\<close>).
  \<^item> A program is a function from the process state to an \<open>outcome\<close>: it returns
    (\<open>Done\<close>), ends the process with a status (\<open>Exited\<close>), has run out of answers and is
    still inside a call (\<open>Blocked\<close>), or has hit undefined behaviour such as a null
    \<open>FILE *\<close> or an index outside an array (\<open>Crashed\<close>).
  \<^item> \<open>loop\<close> is the loop whose number of turns only the environment bounds. Each turn
    takes at least one answer, so the length of the script is enough fuel; the locale
    \<open>script_loop\<close> states that obligation and gives the loop's unfolding equation, its
    induction rule and its invariant rule.
\<close>

section \<open>Calls\<close>

datatype arg = I int | S string

datatype tag = INFO | WARN | PASS | FAIL

datatype unistd_call =
    Access string | Creat string int | Open string int int | Close int | Unlink string
  | Dup2 int int | Read int nat | Write int string | Fchmod int int | Mkdir string int
  | Fsync int | Pipe | Fcntl int int "int list" | Lseek int int int

datatype stdio_call =
    Fopen string string | Fclose int | Fflush int | Fread int nat | Fwrite int string
  | Feof int | Ferror int | Rewind int | Fgets int nat | Perror nat
  | Printf nat "arg list" | Fprintf nat "arg list" | FprintfTo int nat "arg list"
  | Log tag nat "arg list"

datatype dirent_call =
    Opendir string | Readdir int | Closedir int

datatype proc_call =
    Getpid | Getppid | Gettid | Fork | Waitpid int int | Kill int int | Sleep int
  | Usleep int | Pause | Signal int nat | Malloc int | Free int | AbortCall

datatype ipc_call =
    Eventfd int int | ReadU64 int | WriteU64 int u64 | EpollCreate int
  | EpollCtl int int int u32 int | EpollWait int int int | SetITimer
  | Getrlimit int

datatype atomic_call =
    AtomicRead nat | AtomicSet nat int | AtomicInc nat | AtomicCmpxchg nat int int
  | AtomicOr nat int | Futex nat int int

datatype net_call =
    Socketpair | Sendmsg int "int list" | Recvmsg int int | Prctl int int | Setsid | Scandir string

datatype thread_call =
    PthreadCreate int int | PthreadJoin int | PthreadSelf | BarrierInit string int | BarrierWait string
  | MutexInit string | MutexTrylock string | MutexUnlock string | CondWait | CondSignal | KeyCreate
  | MutexattrInit | MutexattrSettype int
  | Getattr int | AttrInit int | AttrGet string int | AttrSetstack int int int | Getpagesize
  | Setspecific int | Getspecific | Getconcurrency | Sigmask int | Getschedparam int

datatype call =
    Thread thread_call | Net net_call | Unistd unistd_call | Stdio stdio_call | Dirent dirent_call | Proc proc_call
  | Ipc ipc_call | Atomic atomic_call | Libc string "arg list"

section \<open>Answers, processes, outcomes\<close>

record resp =
  rv :: int
  er :: int
  rdat :: string
  outs :: "int list"

definition ok :: "int \<Rightarrow> resp" where
  "ok v = \<lparr>rv = v, er = 0, rdat = [], outs = []\<rparr>"

definition failed :: "int \<Rightarrow> resp" where
  "failed e = \<lparr>rv = -1, er = e, rdat = [], outs = []\<rparr>"

lemma ok_sel [simp]: "rv (ok v) = v" "er (ok v) = 0" "rdat (ok v) = []" "outs (ok v) = []"
  by (simp_all add: ok_def)

lemma failed_sel [simp]:
  "rv (failed e) = -1" "er (failed e) = e" "rdat (failed e) = []" "outs (failed e) = []"
  by (simp_all add: failed_def)

text \<open>
  What a process has done: a call it was answered (\<open>Got\<close>), a call whose result it
  discards (\<open>Did\<close>), a call it is still waiting in (\<open>Pending\<close>).
\<close>

datatype event = Got call resp | Did call | Pending call

text \<open>
  The state of a process: the answers to come, the events so far, errno, the log
  stream (\<open>None\<close> while \<open>logfp\<close> is null, else its descriptor), the globals of libcrtest, the
  static buffer of \<open>eflags\<close> (the C string in it), and the program's own globals.
\<close>

record 'g proc =
  script :: "resp list"
  trace :: "event list"
  errno :: int
  logfp :: "int option"
  freezer_mnt :: "string option"
  ckpt_label :: "string option"
  ckpt_op_num :: int
  eflags_buffer :: string
  glob :: 'g

datatype ('a, 's) outcome = Done 'a 's | Exited int 's | Blocked 's | Crashed 's

type_synonym ('g, 'a) prog = "'g proc \<Rightarrow> ('a, 'g proc) outcome"

fun final :: "('a, 's) outcome \<Rightarrow> 's" where
  "final (Done a t) = t"
| "final (Exited c t) = t"
| "final (Blocked t) = t"
| "final (Crashed t) = t"

section \<open>Program combinators\<close>

definition return :: "'a \<Rightarrow> ('g, 'a) prog" where
  "return a s = Done a s"

definition bind :: "('g, 'a) prog \<Rightarrow> ('a \<Rightarrow> ('g, 'b) prog) \<Rightarrow> ('g, 'b) prog" where
  "bind p f s =
     (case p s of Done a t \<Rightarrow> f a t | Exited c t \<Rightarrow> Exited c t
      | Blocked t \<Rightarrow> Blocked t | Crashed t \<Rightarrow> Crashed t)"

definition andthen :: "('g, unit) prog \<Rightarrow> ('g, 'b) prog \<Rightarrow> ('g, 'b) prog" where
  "andthen p q = bind p (\<lambda>_. q)"

definition exit_with :: "int \<Rightarrow> ('g, 'a) prog" where
  "exit_with c s = Exited c s"

definition crash :: "('g, 'a) prog" where
  "crash s = Crashed s"

text \<open>The state after more events, with the answers that are left and the new errno.\<close>

definition adv :: "'g proc \<Rightarrow> event list \<Rightarrow> resp list \<Rightarrow> int \<Rightarrow> 'g proc" where
  "adv s es rs e = s\<lparr>trace := trace s @ es, script := rs, errno := e\<rparr>"

definition emit :: "call \<Rightarrow> ('g, unit) prog" where
  "emit c s = Done () (adv s [Did c] (script s) (errno s))"

definition sys :: "call \<Rightarrow> ('g, resp) prog" where
  "sys c s =
     (case script s of
        [] \<Rightarrow> Blocked (adv s [Pending c] [] (errno s))
      | r # rs \<Rightarrow> Done r (adv s [Got c r] rs (er r)))"

definition sysv :: "call \<Rightarrow> ('g, int) prog" where
  "sysv c = bind (sys c) (\<lambda>r. return (rv r))"

definition gets :: "('g proc \<Rightarrow> 'a) \<Rightarrow> ('g, 'a) prog" where
  "gets f s = Done (f s) s"

definition modify :: "('g proc \<Rightarrow> 'g proc) \<Rightarrow> ('g, unit) prog" where
  "modify f s = Done () (f s)"

fun block :: "('g, unit) prog list \<Rightarrow> ('g, unit) prog" where
  "block [] = return ()"
| "block (p # ps) = andthen p (block ps)"

fun foreach :: "('a \<Rightarrow> ('g, unit) prog) \<Rightarrow> 'a list \<Rightarrow> ('g, unit) prog" where
  "foreach f [] = return ()"
| "foreach f (x # xs) = andthen (f x) (foreach f xs)"

text \<open>Output to the log crashes while \<open>logfp\<close> is null.\<close>

definition to_log :: "call \<Rightarrow> ('g, unit) prog" where
  "to_log c = bind (gets logfp) (\<lambda>fp. if fp = None then crash else emit c)"

abbreviation fprintf :: "nat \<Rightarrow> arg list \<Rightarrow> ('g, unit) prog" where
  "fprintf n args \<equiv> to_log (Stdio (Fprintf n args))"

text \<open>\<open>fflush(logfp)\<close>; with a null stream it flushes every open one.\<close>

abbreviation flush_log :: "('g, unit) prog" where
  "flush_log \<equiv> bind (gets logfp) (\<lambda>fp. emit (Stdio (Fflush (case fp of None \<Rightarrow> 0 | Some f \<Rightarrow> f))))"

subsection \<open>Laws\<close>

lemma adv_sel [simp]:
  "script (adv s es rs e) = rs" "trace (adv s es rs e) = trace s @ es" "errno (adv s es rs e) = e"
  "logfp (adv s es rs e) = logfp s" "freezer_mnt (adv s es rs e) = freezer_mnt s"
  "ckpt_label (adv s es rs e) = ckpt_label s" "ckpt_op_num (adv s es rs e) = ckpt_op_num s"
  "eflags_buffer (adv s es rs e) = eflags_buffer s"
  "glob (adv s es rs e) = glob s"
  by (simp_all add: adv_def)

lemma adv_adv [simp]: "adv (adv s es rs e) es' rs' e' = adv s (es @ es') rs' e'"
  by (simp add: adv_def)

lemma adv_nothing [simp]: "adv s [] (script s) (errno s) = s"
  by (simp add: adv_def)

text \<open>The other fields are updated underneath, so that equal states have equal terms.\<close>

lemma adv_upd [simp]:
  "logfp_update f (adv s es rs e) = adv (logfp_update f s) es rs e"
  "freezer_mnt_update g (adv s es rs e) = adv (freezer_mnt_update g s) es rs e"
  "ckpt_label_update g (adv s es rs e) = adv (ckpt_label_update g s) es rs e"
  "eflags_buffer_update b (adv s es rs e) = adv (eflags_buffer_update b s) es rs e"
  "ckpt_op_num_update h (adv s es rs e) = adv (ckpt_op_num_update h s) es rs e"
  "glob_update k (adv s es rs e) = adv (glob_update k s) es rs e"
  by (simp_all add: adv_def)

lemma bind_return_left [prog_simps]: "bind (return a) f s = f a s"
  by (simp add: bind_def return_def)

lemma bind_return_fun: "bind (return a) f = f a"
  by (simp add: bind_def return_def fun_eq_iff)

lemma bind_Done_fun: "bind (Done a) f = f a"
  by (simp add: bind_def fun_eq_iff)

lemma bind_return_right [prog_simps]: "bind p return = p"
  by (auto simp: bind_def return_def fun_eq_iff split: outcome.split)

lemma bind_assoc [prog_simps]: "bind (bind p f) g = bind p (\<lambda>a. bind (f a) g)"
  by (auto simp: bind_def fun_eq_iff split: outcome.split)

lemma bind_exit [prog_simps]: "bind (exit_with c) f = exit_with c"
  by (simp add: bind_def exit_with_def fun_eq_iff)

lemma bind_crash [prog_simps]: "bind crash f = crash"
  by (simp add: bind_def crash_def fun_eq_iff)

text \<open>
  Applied to a state, \<open>return a\<close>, \<open>exit_with c\<close> and \<open>crash\<close> are the constructors of
  \<open>outcome\<close>; the simplifier works with those.
\<close>

lemma bind_constructors [prog_simps]:
  "bind (Done a) f s = f a s" "bind p Done = p" "bind (Exited c) f = Exited c" "bind Crashed f = Crashed"
  by (auto simp: bind_def fun_eq_iff split: outcome.split)

lemma bind_unit [prog_simps]:
  "bind p (\<lambda>_. return ()) = p" "bind p (\<lambda>_. Done ()) = p" for p :: "('g, unit) prog"
  by (auto simp: bind_def return_def fun_eq_iff split: outcome.split)

lemma bind_if [prog_simps]: "bind (if b then p else q) f = (if b then bind p f else bind q f)"
  by simp

lemma andthen_bind [prog_simps]: "andthen p q = bind p (\<lambda>_. q)"
  by (simp add: andthen_def)

lemma run_return [prog_simps]: "return a s = Done a s"
  by (simp add: return_def)

lemma run_exit [prog_simps]: "exit_with c s = Exited c s"
  by (simp add: exit_with_def)

lemma run_crash [prog_simps]: "crash s = Crashed s"
  by (simp add: crash_def)

lemma run_emit [prog_simps]: "bind (emit c) f s = f () (adv s [Did c] (script s) (errno s))"
  and run_emit' [prog_simps]: "emit c s = Done () (adv s [Did c] (script s) (errno s))"
  by (simp_all add: bind_def emit_def)

lemma run_gets [prog_simps]: "bind (gets h) f s = f (h s) s"
  and run_gets' [prog_simps]: "gets h s = Done (h s) s"
  by (simp_all add: bind_def gets_def)

lemma run_modify [prog_simps]: "bind (modify h) f s = f () (h s)"
  and run_modify' [prog_simps]: "modify h s = Done () (h s)"
  by (simp_all add: bind_def modify_def)

lemma run_sys_Cons:
  "script s = r # rs \<Longrightarrow>
   bind (sys c) f s = f r (adv s [Got c r] rs (er r))"
  by (simp add: bind_def sys_def)

lemma run_sys_Nil: "script s = [] \<Longrightarrow> bind (sys c) f s = Blocked (adv s [Pending c] [] (errno s))"
  by (simp add: bind_def sys_def)

lemma run_sys [prog_simps]:
  "bind (sys c) f s =
     (case script s of [] \<Rightarrow> Blocked (adv s [Pending c] [] (errno s))
      | r # rs \<Rightarrow> f r (adv s [Got c r] rs (er r)))"
  by (simp add: bind_def sys_def split: list.split)

lemma bind_sysv [prog_simps]: "bind (sysv c) f = bind (sys c) (\<lambda>r. f (rv r))"
  by (auto simp: sysv_def bind_def return_def fun_eq_iff split: outcome.split)

lemma run_sysv [prog_simps]: "sysv c s = bind (sys c) (\<lambda>r. return (rv r)) s"
  by (simp add: sysv_def)

lemma run_to_log [prog_simps]:
  "bind (to_log c) f s =
     (if logfp s = None then Crashed s else f () (adv s [Did c] (script s) (errno s)))"
  by (simp add: to_log_def prog_simps)

lemma run_to_log' [prog_simps]:
  "to_log c s = (if logfp s = None then Crashed s else Done () (adv s [Did c] (script s) (errno s)))"
  by (simp add: to_log_def prog_simps)

lemma foreach_append: "foreach f (xs @ ys) = andthen (foreach f xs) (foreach f ys)"
  by (induction xs) (simp_all add: prog_simps)

text \<open>Reading and writing the program's own globals.\<close>

definition with_glob :: "('g \<Rightarrow> 'b) \<Rightarrow> ('b \<Rightarrow> ('g, 'a) prog) \<Rightarrow> ('g, 'a) prog" where
  "with_glob sel p = bind (gets (\<lambda>s. sel (glob s))) p"

lemma run_with_glob [prog_simps]:
  "bind (with_glob sel p) k s = bind (p (sel (glob s))) k s"
  "with_glob sel p s = p (sel (glob s)) s"
  by (simp_all add: with_glob_def prog_simps)

definition set_glob :: "('g \<Rightarrow> 'g) \<Rightarrow> ('g, unit) prog" where
  "set_glob f = modify (\<lambda>s. s\<lparr>glob := f (glob s)\<rparr>)"

lemma run_set_glob [prog_simps]:
  "bind (set_glob f) k s = k () (s\<lparr>glob := f (glob s)\<rparr>)" "set_glob f s = Done () (s\<lparr>glob := f (glob s)\<rparr>)"
  by (simp_all add: set_glob_def prog_simps)

section \<open>Programs take answers from the front of the script\<close>

definition shrinking :: "('g, 'a) prog \<Rightarrow> bool" where
  "shrinking p \<longleftrightarrow> (\<forall>s a t. p s = Done a t \<longrightarrow> length (script t) \<le> length (script s))"

definition consuming :: "('g, 'a) prog \<Rightarrow> bool" where
  "consuming p \<longleftrightarrow> (\<forall>s a t. p s = Done a t \<longrightarrow> length (script t) < length (script s))"

named_theorems shrink_intros \<open>programs never lengthen the script\<close>

lemma shrinkingD: "shrinking p \<Longrightarrow> p s = Done a t \<Longrightarrow> length (script t) \<le> length (script s)"
  by (auto simp: shrinking_def)

lemma consumingD: "consuming p \<Longrightarrow> p s = Done a t \<Longrightarrow> length (script t) < length (script s)"
  by (auto simp: consuming_def)

lemma shrinking_return [shrink_intros]: "shrinking (return a)"
  by (simp add: shrinking_def return_def)

lemma shrinking_exit [shrink_intros]: "shrinking (exit_with c)"
  by (simp add: shrinking_def exit_with_def)

lemma shrinking_crash [shrink_intros]: "shrinking crash"
  by (simp add: shrinking_def crash_def)

lemma shrinking_emit [shrink_intros]: "shrinking (emit c)"
  by (auto simp: shrinking_def emit_def)

lemma shrinking_gets [shrink_intros]: "shrinking (gets h)"
  by (auto simp: shrinking_def gets_def)

lemma shrinking_modify [shrink_intros]:
  "(\<And>s. script (h s) = script s) \<Longrightarrow> shrinking (modify h)"
  by (auto simp: shrinking_def modify_def)

lemma shrinking_sys [shrink_intros]: "shrinking (sys c)"
  by (auto simp: shrinking_def sys_def split: list.splits)

lemma shrinking_bind [shrink_intros]:
  assumes "shrinking p" and "\<And>a. shrinking (f a)"
  shows "shrinking (bind p f)"
  unfolding shrinking_def
proof (intro allI impI)
  fix s b t
  assume "bind p f s = Done b t"
  then obtain a u where "p s = Done a u" and "f a u = Done b t"
    by (auto simp: bind_def split: outcome.splits)
  with assms show "length (script t) \<le> length (script s)"
    by (meson order_trans shrinkingD)
qed

lemma shrinking_if [shrink_intros]:
  "shrinking p \<Longrightarrow> shrinking q \<Longrightarrow> shrinking (if b then p else q)"
  by simp

lemma shrinking_andthen [shrink_intros]: "shrinking p \<Longrightarrow> shrinking q \<Longrightarrow> shrinking (andthen p q)"
  by (simp add: andthen_def shrinking_bind)

lemma shrinking_sysv [shrink_intros]: "shrinking (sysv c)"
  by (simp add: sysv_def shrink_intros)

lemma shrinking_to_log [shrink_intros]: "shrinking (to_log c)"
  by (simp add: to_log_def shrink_intros)

lemma shrinking_block [shrink_intros]:
  "shrinking (block [])" "shrinking p \<Longrightarrow> shrinking (block ps) \<Longrightarrow> shrinking (block (p # ps))"
  by (simp_all add: shrinking_return shrinking_andthen)

lemma shrinking_with_glob [shrink_intros]: "(\<And>x. shrinking (p x)) \<Longrightarrow> shrinking (with_glob sel p)"
  unfolding with_glob_def by (intro shrink_intros)

lemma shrinking_set_glob [shrink_intros]: "shrinking (set_glob f)"
  unfolding set_glob_def by (intro shrink_intros) simp

lemma shrinking_foreach [shrink_intros]: "(\<And>x. shrinking (f x)) \<Longrightarrow> shrinking (foreach f xs)"
  by (induction xs) (auto intro: shrink_intros)

lemma consuming_sys: "consuming (sys c)"
  by (auto simp: consuming_def sys_def split: list.splits)

lemma consuming_sysv: "consuming (sysv c)"
  by (auto simp: consuming_def sysv_def bind_def return_def sys_def split: list.splits)

lemma consuming_bind:
  assumes "consuming p" and "\<And>a. shrinking (f a)"
  shows "consuming (bind p f)"
  unfolding consuming_def
proof (intro allI impI)
  fix s b t
  assume "bind p f s = Done b t"
  then obtain a u where "p s = Done a u" and "f a u = Done b t"
    by (auto simp: bind_def split: outcome.splits)
  with assms show "length (script t) < length (script s)"
    by (meson consumingD order_le_less_trans shrinkingD)
qed

lemma consuming_bind2:
  assumes "shrinking p" and "\<And>a. consuming (f a)"
  shows "consuming (bind p f)"
  unfolding consuming_def
proof (intro allI impI)
  fix s b t
  assume "bind p f s = Done b t"
  then obtain a u where "p s = Done a u" and "f a u = Done b t"
    by (auto simp: bind_def split: outcome.splits)
  with assms show "length (script t) < length (script s)"
    by (meson consumingD order_less_le_trans shrinkingD)
qed

lemma consuming_with_glob: "(\<And>x. consuming (p x)) \<Longrightarrow> consuming (with_glob sel p)"
  by (simp add: consuming_def run_with_glob)

section \<open>Programs only append to the trace\<close>

text \<open>
  \<open>since s t\<close> is what happened between \<open>s\<close> and \<open>t\<close>; \<open>appending p\<close> says that \<open>p\<close> never
  rewrites the past.
\<close>

definition since :: "'g proc \<Rightarrow> 'g proc \<Rightarrow> event list" where
  "since s t = drop (length (trace s)) (trace t)"

definition grows :: "'g proc \<Rightarrow> 'g proc \<Rightarrow> bool" where
  "grows s t \<longleftrightarrow> (\<exists>es. trace t = trace s @ es)"

definition appending :: "('g, 'a) prog \<Rightarrow> bool" where
  "appending p \<longleftrightarrow> (\<forall>s. grows s (final (p s)))"

named_theorems append_intros \<open>programs only append to the trace\<close>

lemma grows_refl [simp]: "grows s s"
  by (simp add: grows_def)

lemma grows_trans: "grows s t \<Longrightarrow> grows t u \<Longrightarrow> grows s u"
  by (auto simp: grows_def)

lemma trace_since: "grows s t \<Longrightarrow> trace t = trace s @ since s t"
  by (auto simp: grows_def since_def)

lemma since_eq [simp]: "trace t = trace s @ es \<Longrightarrow> since s t = es"
  by (simp add: since_def)

lemma since_trans: "grows s t \<Longrightarrow> grows t u \<Longrightarrow> since s u = since s t @ since t u"
  by (auto simp: grows_def since_def)

lemma appendingD: "appending p \<Longrightarrow> grows s (final (p s))"
  by (simp add: appending_def)

lemma appending_Done: "appending p \<Longrightarrow> p s = Done a t \<Longrightarrow> grows s t"
  using appendingD [of p s] by simp

lemma appending_return [append_intros]: "appending (return a)"
  by (simp add: appending_def return_def)

lemma appending_exit [append_intros]: "appending (exit_with c)"
  by (simp add: appending_def exit_with_def)

lemma appending_crash [append_intros]: "appending crash"
  by (simp add: appending_def crash_def)

lemma appending_emit [append_intros]: "appending (emit c)"
  by (simp add: appending_def emit_def grows_def)

lemma appending_gets [append_intros]: "appending (gets h)"
  by (simp add: appending_def gets_def)

lemma appending_modify [append_intros]:
  "(\<And>s. trace (h s) = trace s) \<Longrightarrow> appending (modify h)"
  by (simp add: appending_def modify_def grows_def)

lemma appending_sys [append_intros]: "appending (sys c)"
  by (simp add: appending_def sys_def grows_def split: list.split)

lemma appending_bind [append_intros]:
  assumes "appending p" and "\<And>a. appending (f a)"
  shows "appending (bind p f)"
  unfolding appending_def
proof
  fix s
  show "grows s (final (bind p f s))"
    using appendingD [OF assms(1), of s] appendingD [OF assms(2)]
    by (auto simp: bind_def intro: grows_trans split: outcome.split)
qed

lemma appending_if [append_intros]:
  "appending p \<Longrightarrow> appending q \<Longrightarrow> appending (if b then p else q)"
  by simp

lemma appending_andthen [append_intros]: "appending p \<Longrightarrow> appending q \<Longrightarrow> appending (andthen p q)"
  by (simp add: andthen_def appending_bind)

lemma appending_sysv [append_intros]: "appending (sysv c)"
  by (simp add: sysv_def append_intros)

lemma appending_to_log [append_intros]: "appending (to_log c)"
  by (simp add: to_log_def append_intros)

lemma appending_block [append_intros]:
  "appending (block [])" "appending p \<Longrightarrow> appending (block ps) \<Longrightarrow> appending (block (p # ps))"
  by (simp_all add: appending_return appending_andthen)

lemma appending_with_glob [append_intros]: "(\<And>x. appending (p x)) \<Longrightarrow> appending (with_glob sel p)"
  unfolding with_glob_def by (intro append_intros)

lemma appending_set_glob [append_intros]: "appending (set_glob f)"
  unfolding set_glob_def by (intro append_intros) simp

lemma appending_foreach [append_intros]: "(\<And>x. appending (f x)) \<Longrightarrow> appending (foreach f xs)"
  by (induction xs) (auto intro: append_intros)

section \<open>Programs that make only certain calls\<close>

text \<open>\<open>only Q p\<close>: whatever the environment answers, \<open>p\<close> adds only events that satisfy \<open>Q\<close>.\<close>

definition only :: "(event \<Rightarrow> bool) \<Rightarrow> ('g, 'a) prog \<Rightarrow> bool" where
  "only Q p \<longleftrightarrow> appending p \<and> (\<forall>s. \<forall>e \<in> set (since s (final (p s))). Q e)"

named_theorems only_intros \<open>programs that make only certain calls\<close>

lemma onlyD: "only Q p \<Longrightarrow> e \<in> set (since s (final (p s))) \<Longrightarrow> Q e"
  by (simp add: only_def)

lemma only_appending: "only Q p \<Longrightarrow> appending p"
  by (simp add: only_def)

lemma since_self [simp]: "since s s = []"
  by (simp add: since_def)

lemma only_quiet:
  "only Q (return a)" "only Q (exit_with c)" "only Q crash" "only Q (gets h)"
  by (simp_all add: only_def append_intros return_def exit_with_def crash_def gets_def)

lemmas [only_intros] = only_quiet

lemma only_modify [only_intros]: "(\<And>s. trace (h s) = trace s) \<Longrightarrow> only Q (modify h)"
  by (simp add: only_def append_intros modify_def)

lemma only_emit [only_intros]: "Q (Did c) \<Longrightarrow> only Q (emit c)"
  by (simp add: only_def append_intros emit_def)

lemma only_sys [only_intros]:
  "(\<And>r. Q (Got c r)) \<Longrightarrow> Q (Pending c) \<Longrightarrow> only Q (sys c)"
  by (simp add: only_def append_intros sys_def split: list.split)

lemma only_bind [only_intros]:
  assumes "only Q p" and "\<And>a. only Q (f a)"
  shows "only Q (bind p f)"
  unfolding only_def
proof (intro conjI allI ballI)
  show "appending (bind p f)" using assms by (intro append_intros only_appending)
next
  fix s e
  assume e: "e \<in> set (since s (final (bind p f s)))"
  show "Q e"
  proof (cases "p s")
    case (Done a t)
    have "grows s t" using assms(1) Done by (intro appending_Done only_appending)
    moreover have "grows t (final (f a t))" using assms(2) by (intro appendingD only_appending)
    ultimately have "since s (final (f a t)) = since s t @ since t (final (f a t))"
      by (rule since_trans)
    with e Done onlyD [OF assms(1), of e s] onlyD [OF assms(2), of e t a] show ?thesis
      by (auto simp: bind_def)
  qed (use e onlyD [OF assms(1), of e s] in \<open>simp_all add: bind_def\<close>)
qed

lemma only_if [only_intros]: "only Q p \<Longrightarrow> only Q q \<Longrightarrow> only Q (if b then p else q)"
  by simp

lemma only_andthen [only_intros]: "only Q p \<Longrightarrow> only Q q \<Longrightarrow> only Q (andthen p q)"
  by (simp add: andthen_def only_bind)

lemma only_sysv [only_intros]: "(\<And>r. Q (Got c r)) \<Longrightarrow> Q (Pending c) \<Longrightarrow> only Q (sysv c)"
  unfolding sysv_def by (intro only_intros)

lemma only_to_log [only_intros]: "Q (Did c) \<Longrightarrow> only Q (to_log c)"
  unfolding to_log_def by (intro only_intros)

lemma only_with_glob [only_intros]: "(\<And>x. only Q (p x)) \<Longrightarrow> only Q (with_glob sel p)"
  unfolding with_glob_def by (intro only_intros)

lemma only_set_glob [only_intros]: "only Q (set_glob f)"
  unfolding set_glob_def by (intro only_intros) simp

lemma only_block [only_intros]:
  "only Q (block [])" "only Q p \<Longrightarrow> only Q (block ps) \<Longrightarrow> only Q (block (p # ps))"
  by (simp_all add: only_quiet only_andthen)

lemma only_foreach [only_intros]: "(\<And>x. only Q (f x)) \<Longrightarrow> only Q (foreach f xs)"
  by (induction xs) (auto intro: only_intros)

text \<open>
  What a program does after a part that cannot do it, it does after that part has returned.
\<close>

lemma after_bind:
  assumes "e \<in> set (since s (final (bind p f s)))" and "only Q p" and "\<not> Q e" and "\<And>a. appending (f a)"
  obtains a t where "p s = Done a t" and "grows s t" and "e \<in> set (since t (final (f a t)))"
    and "since s (final (bind p f s)) = since s t @ since t (final (f a t))"
proof (cases "p s")
  case (Done a t)
  have g: "grows s t" using assms(2) Done by (intro appending_Done only_appending)
  moreover have "grows t (final (f a t))" using assms(4) by (rule appendingD)
  ultimately have s: "since s (final (f a t)) = since s t @ since t (final (f a t))" by (rule since_trans)
  with assms(1) Done have "e \<in> set (since s t) \<or> e \<in> set (since t (final (f a t)))" by (simp add: bind_def)
  with onlyD [OF assms(2), of e s] assms(3) Done have "e \<in> set (since t (final (f a t)))" by auto
  with Done g s that show ?thesis by (simp add: bind_def)
qed (use assms onlyD [OF assms(2), of e s] in \<open>auto simp: bind_def\<close>)

lemma after_unit:
  assumes "e \<in> set (since s (final (bind p (\<lambda>_. q) s)))" and "only Q p" and "\<not> Q e" and "appending q"
  shows "\<exists>t. p s = Done () t \<and> e \<in> set (since t (final (q t))) \<and>
    since s (final (bind p (\<lambda>_. q) s)) = since s t @ since t (final (q t))"
  using after_bind [OF assms(1-3)] assms(4) by (metis (full_types) unit.exhaust)

section \<open>Loops\<close>

text \<open>
  One turn of a loop returns \<open>Inl a\<close> to go round again with loop variables \<open>a\<close>, or
  \<open>Inr b\<close> to leave the loop with \<open>b\<close>.
\<close>

fun loop_n :: "nat \<Rightarrow> ('a \<Rightarrow> ('g, 'a + 'b) prog) \<Rightarrow> 'a \<Rightarrow> ('g, 'b) prog" where
  "loop_n 0 body a = Blocked"
| "loop_n (Suc n) body a = bind (body a) (\<lambda>r. case r of Inl a' \<Rightarrow> loop_n n body a' | Inr b \<Rightarrow> return b)"

definition loop :: "('a \<Rightarrow> ('g, 'a + 'b) prog) \<Rightarrow> 'a \<Rightarrow> ('g, 'b) prog" where
  "loop body a s = loop_n (Suc (length (script s))) body a s"

locale script_loop =
  fixes body :: "'a \<Rightarrow> ('g, 'a + 'b) prog"
  assumes progress: "body a s = Done (Inl a') t \<Longrightarrow> length (script t) < length (script s)"
begin

lemma enough:
  "length (script s) < m \<Longrightarrow> length (script s) < n \<Longrightarrow> loop_n m body a s = loop_n n body a s"
proof (induction m arbitrary: n a s)
  case 0
  then show ?case by simp
next
  case (Suc m)
  then obtain n' where n: "n = Suc n'" by (cases n) auto
  show ?case
  proof (cases "\<exists>a' t. body a s = Done (Inl a') t")
    case True
    then obtain a' t where b: "body a s = Done (Inl a') t" by blast
    have "length (script t) < length (script s)" using b by (rule progress)
    with Suc.prems n have "loop_n m body a' t = loop_n n' body a' t"
      by (intro Suc.IH) simp_all
    with b n show ?thesis by (simp add: bind_def)
  next
    case False
    with n show ?thesis by (auto simp: bind_def split: outcome.split sum.split)
  qed
qed

text \<open>The length of the script is enough fuel: the loop is a fixed point of its body.\<close>

lemma unfold: "loop body a s = bind (body a) (\<lambda>r. case r of Inl a' \<Rightarrow> loop body a' | Inr b \<Rightarrow> return b) s"
proof (cases "\<exists>a' t. body a s = Done (Inl a') t")
  case True
  then obtain a' t where b: "body a s = Done (Inl a') t" by blast
  have "length (script t) < length (script s)" using b by (rule progress)
  then have "loop_n (length (script s)) body a' t = loop_n (Suc (length (script t))) body a' t"
    by (intro enough) auto
  with b show ?thesis by (simp add: loop_def bind_def)
next
  case False
  then show ?thesis by (auto simp: loop_def bind_def split: outcome.split sum.split)
qed

lemma induct [case_names turn]:
  assumes "\<And>a s. (\<And>a' t. body a s = Done (Inl a') t \<Longrightarrow> P a' t) \<Longrightarrow> P a s"
  shows "P a s"
proof (induction "length (script s)" arbitrary: a s rule: less_induct)
  case less
  show ?case
    by (rule assms) (blast intro: less progress)
qed

text \<open>
  The invariant rule: what every turn keeps while it goes round, and what the ways out
  give, holds of the outcome of the loop.
\<close>

lemma invariant:
  assumes I: "Inv a s"
    and again: "\<And>a s a' t. Inv a s \<Longrightarrow> body a s = Done (Inl a') t \<Longrightarrow> Inv a' t"
    and leave: "\<And>a s b t. Inv a s \<Longrightarrow> body a s = Done (Inr b) t \<Longrightarrow> Q (Done b t)"
    and ends: "\<And>a s c t. Inv a s \<Longrightarrow> body a s = Exited c t \<Longrightarrow> Q (Exited c t)"
    and waits: "\<And>a s t. Inv a s \<Longrightarrow> body a s = Blocked t \<Longrightarrow> Q (Blocked t)"
    and breaks: "\<And>a s t. Inv a s \<Longrightarrow> body a s = Crashed t \<Longrightarrow> Q (Crashed t)"
  shows "Q (loop body a s)"
  using I
proof (induction a s rule: induct)
  case (turn a s)
  show ?case
  proof (cases "body a s")
    case (Done r t)
    show ?thesis
    proof (cases r)
      case (Inl a')
      with Done have "body a s = Done (Inl a') t" by simp
      then have "Q (loop body a' t)" using turn again by blast
      with Done Inl show ?thesis by (simp add: unfold [of a s] bind_def)
    next
      case (Inr b)
      with Done leave [OF turn.prems] show ?thesis
        by (simp add: unfold [of a s] bind_def return_def)
    qed
  qed (use turn.prems ends waits breaks in \<open>auto simp: unfold [of a s] bind_def\<close>)
qed

lemma shrinking_loop: 
  assumes body: "\<And>a. shrinking (body a)"
  shows "shrinking (loop body a)"
  unfolding shrinking_def
proof (intro allI impI)
  fix s b t
  assume d: "loop body a s = Done b t"
  have "case loop body a s of Done b t \<Rightarrow> length (script t) \<le> length (script s) | _ \<Rightarrow> True"
  proof (rule invariant [where Inv = "\<lambda>_ u. length (script u) \<le> length (script s)"])
    show "length (script s) \<le> length (script s)" by simp
  next
    fix a u a' v
    assume "length (script u) \<le> length (script s)" and "body a u = Done (Inl a') v"
    then show "length (script v) \<le> length (script s)"
      using shrinkingD [OF body] by fastforce
  next
    fix a u b v
    assume "length (script u) \<le> length (script s)" and "body a u = Done (Inr b) v"
    then show "case Done b v of Done b t \<Rightarrow> length (script t) \<le> length (script s) | _ \<Rightarrow> True"
      using shrinkingD [OF body] by fastforce
  qed simp_all
  with d show "length (script t) \<le> length (script s)" by simp
qed

lemma appending_loop:
  assumes body: "\<And>a. appending (body a)"
  shows "appending (loop body a)"
  unfolding appending_def
proof
  fix s
  show "grows s (final (loop body a s))"
  proof (rule invariant [where Inv = "\<lambda>_ u. grows s u"])
    fix a u a' v
    assume "grows s u" and "body a u = Done (Inl a') v"
    then show "grows s v" using appendingD [OF body, of u a] by (auto intro: grows_trans)
  next
    fix a u b v
    assume "grows s u" and "body a u = Done (Inr b) v"
    then show "grows s (final (Done b v))"
      using appendingD [OF body, of u a] by (auto intro: grows_trans)
  next
    fix a u c v
    assume "grows s u" and "body a u = Exited c v"
    then show "grows s (final (Exited c v))"
      using appendingD [OF body, of u a] by (auto intro: grows_trans)
  next
    fix a u v
    assume "grows s u" and "body a u = Blocked v"
    then show "grows s (final (Blocked v))"
      using appendingD [OF body, of u a] by (auto intro: grows_trans)
  next
    fix a u v
    assume "grows s u" and "body a u = Crashed v"
    then show "grows s (final (Crashed v))"
      using appendingD [OF body, of u a] by (auto intro: grows_trans)
  qed simp
qed

lemma only_loop:
  assumes body: "\<And>a. only Q (body a)"
  shows "only Q (loop body a)"
  unfolding only_def
proof (intro conjI allI)
  show "appending (loop body a)" by (rule appending_loop) (rule only_appending [OF body])
next
  fix s :: "'g proc"
  let ?K = "\<lambda>u. grows s u \<and> (\<forall>e \<in> set (since s u). Q e)"
  have step: "?K (final (body b u))" if "?K u" for b u
  proof -
    have g: "grows u (final (body b u))" by (rule appendingD [OF only_appending [OF body]])
    with that have "since s (final (body b u)) = since s u @ since u (final (body b u))"
      by (intro since_trans) simp_all
    moreover have "grows s (final (body b u))" using that g by (blast intro: grows_trans)
    ultimately show ?thesis using that onlyD [OF body, of _ u b] by auto
  qed
  have "?K (final (loop body a s))"
  proof (rule invariant [where Inv = "\<lambda>_. ?K"])
    show "?K v" if "?K u" and "body b u = Done (Inl c) v" for b c u v
      using step [OF that(1), of b] that(2) by simp
    show "?K (final (Done c v))" if "?K u" and "body b u = Done (Inr c) v" for b c u v
      using step [OF that(1), of b] that(2) by simp
    show "?K (final (Exited c v))" if "?K u" and "body b u = Exited c v" for b c u v
      using step [OF that(1), of b] that(2) by simp
    show "?K (final (Blocked v))" if "?K u" and "body b u = Blocked v" for b u v
      using step [OF that(1), of b] that(2) by simp
    show "?K (final (Crashed v))" if "?K u" and "body b u = Crashed v" for b u v
      using step [OF that(1), of b] that(2) by simp
  qed simp
  then show "\<forall>e \<in> set (since s (final (loop body a s))). Q e" by simp
qed

end

lemma script_loopI:
  assumes "\<And>a. consuming (body a)"
  shows "script_loop body"
  using assms by unfold_locales (auto dest: consumingD)

end
