(* ===== verification/Libcrtest.thy ===== *)
theory Libcrtest
  imports Process
begin

text \<open>
  libcrtest/common.c, the part every test program links: ending a process
  (\<open>do_exit\<close>), the files through which a test and its wrapper script synchronise
  (\<open>test_done\<close>, \<open>test_checkpoint_done\<close>, \<open>set_checkpoint_ready\<close>, \<open>do_ckpt\<close>), reaping
  children (\<open>do_wait\<close>), flushing (\<open>do_sync\<close>) and closing descriptors
  (\<open>close_all_fds\<close>). Process ids printed in log lines are left out of the log arguments.
\<close>

section \<open>The synchronisation files (libcrtest.h)\<close>

definition CKPT_READY :: string where "CKPT_READY = ''checkpoint-ready''"
definition CKPT_DONE :: string where "CKPT_DONE = ''checkpoint-done''"
definition CKPT_DRY_RUN :: string where "CKPT_DRY_RUN = ''checkpoint-skip''"
definition TEST_DONE :: string where "TEST_DONE = ''test-done''"

lemma sync_files_distinct: "distinct [CKPT_READY, CKPT_DONE, CKPT_DRY_RUN, TEST_DONE]"
  by (simp add: CKPT_READY_def CKPT_DONE_def CKPT_DRY_RUN_def TEST_DONE_def)

abbreviation access :: "string \<Rightarrow> ('g, int) prog" where
  "access p \<equiv> sysv (Unistd (Access p))"

text \<open>The octal mode 0666.\<close>

definition MODE_0666 :: int where "MODE_0666 = 6 * 64 + 6 * 8 + 6"

section \<open>Operations\<close>

definition do_exit :: "int \<Rightarrow> ('g, 'a) prog" where
  "do_exit status =
     bind (gets logfp) (\<lambda>fp.
     case fp of
       None \<Rightarrow> exit_with status
     | Some f \<Rightarrow>
         andthen (block [emit (Stdio (Fflush f)), emit (Stdio (Fclose f))])
           (exit_with status))"

definition test_done :: "('g, int) prog" where
  "test_done =
     bind (access TEST_DONE) (\<lambda>rc.
     if rc = 0 then return 1
     else bind (gets errno) (\<lambda>e.
     if e = ENOENT then return 0
     else andthen (fprintf 35 [S TEST_DONE, I e]) (do_exit 1)))"

definition test_checkpoint_done :: "('g, int) prog" where
  "test_checkpoint_done =
     bind (access CKPT_DRY_RUN) (\<lambda>rc.
     if rc = 0 then return 1
     else bind (access CKPT_DONE) (\<lambda>rc.
     if rc = 0 then return 1
     else bind (gets errno) (\<lambda>e.
     if e = ENOENT then return 0
     else andthen (fprintf 55 [S CKPT_DONE, I e]) (do_exit 1))))"

definition set_checkpoint_ready :: "('g, unit) prog" where
  "set_checkpoint_ready =
     bind (access CKPT_DRY_RUN) (\<lambda>rc.
     if rc = 0 then return ()
     else bind (sysv (Unistd (Creat CKPT_READY MODE_0666))) (\<lambda>fd.
     if fd < 0
     then bind (gets errno) (\<lambda>e. andthen (fprintf 71 [S CKPT_READY, I e]) (do_exit 1))
     else emit (Unistd (Close fd))))"

text \<open>\<open>while (!p()) w();\<close>, the polling loop of every test program.\<close>

definition poll_body :: "('g, int) prog \<Rightarrow> ('g, unit) prog \<Rightarrow> unit \<Rightarrow> ('g, unit + unit) prog" where
  "poll_body p w _ =
     bind p (\<lambda>d. if d = 0 then andthen w (return (Inl ())) else return (Inr ()))"

definition poll :: "('g, int) prog \<Rightarrow> ('g, unit) prog \<Rightarrow> ('g, unit) prog" where
  "poll p w = loop (poll_body p w) ()"

definition do_ckpt :: "('g, unit) prog" where
  "do_ckpt =
     andthen set_checkpoint_ready (
     bind (access CKPT_DRY_RUN) (\<lambda>rc.
     if rc = 0 then return ()
     else bind (gets errno) (\<lambda>e.
     if e \<noteq> ENOENT then do_exit 1
     else andthen (poll test_checkpoint_done (emit (Proc (Usleep 10000))))
            (emit (Unistd (Unlink CKPT_DONE))))))"

text \<open>Out-parameter \<open>k\<close> of an answer; an answer that stores nothing there leaves 0.\<close>

definition out :: "nat \<Rightarrow> resp \<Rightarrow> int" where
  "out k r = (if k < length (outs r) then outs r ! k else 0)"

definition print_exit_status :: "int \<Rightarrow> u32 \<Rightarrow> ('g, unit) prog" where
  "print_exit_status pid status =
     andthen (fprintf 100 [I pid])
       (if WIFEXITED status then fprintf 102 [I (uint (WEXITSTATUS status))]
        else if WIFSIGNALED status then fprintf 104 [I (uint (WTERMSIG status))]
        else fprintf 106 [])"

definition do_wait_body :: "int \<Rightarrow> ('g, int + (int \<times> int)) prog" where
  "do_wait_body n =
     bind (sys (Proc (Waitpid (-1) 0))) (\<lambda>r.
     if rv r < 0 then return (Inr (rv r, n))
     else let status = word_of_int (out 0 r) in
       andthen
         (if \<not> WIFEXITED status \<or> WEXITSTATUS status \<noteq> 0
          then print_exit_status (rv r) status else return ())
         (return (Inl (n + 1))))"

definition do_wait :: "int \<Rightarrow> ('g, int) prog" where
  "do_wait num_children =
     bind (loop do_wait_body 0) (\<lambda>(rc, n).
     bind (gets errno) (\<lambda>e.
     if e \<noteq> ECHILD then andthen (fprintf 128 [I rc, I e]) (return (-1))
     else bind (sysv (Proc Getpid)) (\<lambda>pid.
     if pid = 1 \<and> num_children \<noteq> 0 \<and> n \<noteq> num_children
     then andthen (fprintf 134 [I n, I num_children]) (return n)
     else return 0)))"

definition do_sync :: "int \<Rightarrow> ('g, unit) prog" where
  "do_sync fp =
     andthen (emit (Stdio (Fflush fp))) (
     bind (sysv (Unistd (Fsync fp))) (\<lambda>rc.
     bind (gets logfp) (\<lambda>lf.
     if rc \<noteq> 0 \<and> Some fp \<noteq> lf
     then bind (gets errno) (\<lambda>e. fprintf 149 [I e])
     else return ())))"

section \<open>Every operation takes answers from the front of the script\<close>

lemma shrinking_do_exit [shrink_intros]: "shrinking (do_exit c)"
  by (auto simp: do_exit_def intro!: shrink_intros split: option.split)

lemma consuming_test_done: "consuming test_done"
  unfolding test_done_def by (intro consuming_bind consuming_sysv shrink_intros)

lemma consuming_test_checkpoint_done: "consuming test_checkpoint_done"
  unfolding test_checkpoint_done_def by (intro consuming_bind consuming_sysv shrink_intros)

lemma shrinking_print_exit_status [shrink_intros]: "shrinking (print_exit_status pid st)"
  unfolding print_exit_status_def by (intro shrink_intros)

lemma consuming_do_wait_body: "consuming (do_wait_body n)"
  unfolding do_wait_body_def Let_def by (intro consuming_bind consuming_sys shrink_intros)

section \<open>No operation rewrites the trace\<close>

lemma appending_do_exit [append_intros]: "appending (do_exit c)"
  by (auto simp: do_exit_def intro!: append_intros split: option.split)

lemma appending_test_done [append_intros]: "appending test_done"
  unfolding test_done_def by (intro append_intros)

lemma appending_test_checkpoint_done [append_intros]: "appending test_checkpoint_done"
  unfolding test_checkpoint_done_def by (intro append_intros)

lemma appending_set_checkpoint_ready [append_intros]: "appending set_checkpoint_ready"
  unfolding set_checkpoint_ready_def by (intro append_intros)

section \<open>Polling\<close>

text \<open>The polling loop needs only that the test it polls makes a call.\<close>

locale poll_loop =
  fixes p :: "('g, int) prog" and w :: "('g, unit) prog"
  assumes test_calls: "consuming p" and wait_shrinks: "shrinking w"
    and test_appends: "appending p" and wait_appends: "appending w"
begin

sublocale script_loop "poll_body p w"
  by (rule script_loopI)
    (auto simp: poll_body_def intro!: consuming_bind test_calls shrink_intros wait_shrinks)

lemma poll_unfold:
  "poll p w s = bind p (\<lambda>d. if d = 0 then andthen w (poll p w) else return ()) s"
  unfolding poll_def
  by (subst unfold) (auto simp: poll_body_def prog_simps bind_def split: outcome.split)

lemma appending_poll: "appending (poll p w)"
  unfolding poll_def
  by (rule appending_loop)
    (auto simp: poll_body_def intro!: append_intros test_appends wait_appends)

text \<open>A poll that returns has just seen its test succeed.\<close>

lemma poll_returns_after_success:
  assumes "poll p w s = Done a t"
  obtains u d where "grows s u" and "p u = Done d t" and "d \<noteq> 0"
proof -
  let ?Q = "\<lambda>t. \<exists>u d. grows s u \<and> p u = Done d t \<and> d \<noteq> 0"
  have "case poll p w s of Done _ t \<Rightarrow> ?Q t | _ \<Rightarrow> True"
    unfolding poll_def
  proof (rule invariant [where Inv = "\<lambda>_ u. grows s u"])
    fix a u a' v
    assume "grows s u" and "poll_body p w a u = Done (Inl a') v"
    moreover have "appending (poll_body p w a)"
      unfolding poll_body_def by (intro append_intros test_appends wait_appends)
    ultimately show "grows s v" by (blast intro: appending_Done grows_trans)
  next
    fix a u b t
    assume "grows s u" and "poll_body p w a u = Done (Inr b) t"
    then have "?Q t"
      by (auto simp: poll_body_def andthen_def bind_def return_def
          split: outcome.splits if_splits)
    then show "case Done b t of Done _ t \<Rightarrow> ?Q t | _ \<Rightarrow> True" by simp
  qed simp_all
  with assms that show ?thesis by auto
qed

end

text \<open>
  The two wait actions of the sources; any other action without a call that takes an
  answer would do.
\<close>

interpretation td: poll_loop test_done "emit (Proc (Sleep 1))"
  by unfold_locales (rule consuming_test_done shrinking_emit appending_test_done appending_emit)+

interpretation tcd: poll_loop test_checkpoint_done "emit (Proc (Usleep 10000))"
  by unfold_locales (rule consuming_test_checkpoint_done shrinking_emit appending_test_checkpoint_done appending_emit)+

interpretation tcs: poll_loop test_checkpoint_done "emit (Proc (Sleep 1))"
  by unfold_locales (rule consuming_test_checkpoint_done shrinking_emit appending_test_checkpoint_done appending_emit)+

interpretation dw: script_loop do_wait_body
  by (rule script_loopI) (rule consuming_do_wait_body)

lemma shrinking_test_done [shrink_intros]: "shrinking test_done"
  unfolding test_done_def by (intro shrink_intros)

lemma shrinking_test_checkpoint_done [shrink_intros]: "shrinking test_checkpoint_done"
  unfolding test_checkpoint_done_def by (intro shrink_intros)

lemma shrinking_set_checkpoint_ready [shrink_intros]: "shrinking set_checkpoint_ready"
  unfolding set_checkpoint_ready_def by (intro shrink_intros)

lemmas libcrtest_defs =
  do_exit_def test_done_def test_checkpoint_done_def set_checkpoint_ready_def do_ckpt_def

section \<open>The checkpoint handshake\<close>

abbreviation Got_access :: "string \<Rightarrow> resp \<Rightarrow> event" where
  "Got_access p r \<equiv> Got (Unistd (Access p)) r"

text \<open>What the two tests do, by the answers they get.\<close>

lemma run_test_done:
  assumes "script s = r # rest"
  shows "rv r = 0 \<Longrightarrow> bind test_done k s = k 1 (adv s [Got_access TEST_DONE r] rest (er r))"
    and "rv r \<noteq> 0 \<Longrightarrow> er r = ENOENT \<Longrightarrow>
      bind test_done k s = k 0 (adv s [Got_access TEST_DONE r] rest (er r))"
  using assms by (simp_all add: test_done_def prog_simps)

lemma run_test_checkpoint_done:
  assumes "script s = d # rest"
  shows "rv d = 0 \<Longrightarrow>
      bind test_checkpoint_done k s = k 1 (adv s [Got_access CKPT_DRY_RUN d] rest (er d))"
    and "rv d \<noteq> 0 \<Longrightarrow> rest = f # rest' \<Longrightarrow> rv f = 0 \<Longrightarrow> bind test_checkpoint_done k s =
      k 1 (adv s [Got_access CKPT_DRY_RUN d, Got_access CKPT_DONE f] rest' (er f))"
    and "rv d \<noteq> 0 \<Longrightarrow> rest = f # rest' \<Longrightarrow> rv f \<noteq> 0 \<Longrightarrow> er f = ENOENT \<Longrightarrow>
      bind test_checkpoint_done k s =
      k 0 (adv s [Got_access CKPT_DRY_RUN d, Got_access CKPT_DONE f] rest' (er f))"
  using assms by (simp_all add: test_checkpoint_done_def prog_simps)

text \<open>
  The events of one unsuccessful turn of \<open>while (!test_checkpoint_done()) usleep(10000)\<close>:
  neither file is there.
\<close>

definition tcd_miss :: "resp \<Rightarrow> resp \<Rightarrow> event list" where
  "tcd_miss d f = [Got_access CKPT_DRY_RUN d, Got_access CKPT_DONE f, Did (Proc (Usleep 10000))]"

abbreviation absent :: "resp \<Rightarrow> resp \<Rightarrow> bool" where
  "absent d f \<equiv> rv d \<noteq> 0 \<and> rv f \<noteq> 0 \<and> er f = ENOENT"

lemma tcd_polls:
  assumes "script s = concat (map (\<lambda>(d, f). [d, f]) ms) @ d # f # rest"
    and "\<forall>(d, f) \<in> set ms. absent d f" and "rv d \<noteq> 0" and "rv f = 0"
  shows "bind (poll test_checkpoint_done (emit (Proc (Usleep 10000)))) k s =
    k () (adv s (concat (map (\<lambda>(d, f). tcd_miss d f) ms)
        @ [Got_access CKPT_DRY_RUN d, Got_access CKPT_DONE f]) rest (er f))"
proof -
  have "poll test_checkpoint_done (emit (Proc (Usleep 10000))) s =
    Done () (adv s (concat (map (\<lambda>(d, f). tcd_miss d f) ms)
        @ [Got_access CKPT_DRY_RUN d, Got_access CKPT_DONE f]) rest (er f))"
    using assms
  proof (induction ms arbitrary: s)
    case Nil
    then show ?case
      by (subst tcd.poll_unfold) (simp add: run_test_checkpoint_done(2) [of s d] prog_simps)
  next
    case (Cons m ms)
    obtain d' f' where m: "m = (d', f')" by fastforce
    let ?rest = "concat (map (\<lambda>(d, f). [d, f]) ms) @ d # f # rest"
    have "poll test_checkpoint_done (emit (Proc (Usleep 10000))) s =
        poll test_checkpoint_done (emit (Proc (Usleep 10000))) (adv s (tcd_miss d' f') ?rest ENOENT)"
      using Cons.prems(1,2) m
      by (subst tcd.poll_unfold)
        (simp add: run_test_checkpoint_done(3) [of s d'] tcd_miss_def prog_simps)
    with Cons m show ?case by simp
  qed
  then show ?thesis by (simp add: bind_def)
qed

text \<open>Polling test-done with \<open>sleep(1)\<close>, after any number of looks that did not find it.\<close>

definition td_miss :: "resp \<Rightarrow> event list" where
  "td_miss r = [Got_access TEST_DONE r, Did (Proc (Sleep 1))]"

abbreviation wait_test_done :: "('g, unit) prog" where
  "wait_test_done \<equiv> poll test_done (emit (Proc (Sleep 1)))"

lemma td_polls:
  assumes "script s = ms @ f # rest" and "\<forall>r \<in> set ms. rv r \<noteq> 0 \<and> er r = ENOENT" and "rv f = 0"
  shows "bind wait_test_done k s =
    k () (adv s (concat (map td_miss ms) @ [Got_access TEST_DONE f]) rest (er f))"
proof -
  have "wait_test_done s = Done () (adv s (concat (map td_miss ms) @ [Got_access TEST_DONE f]) rest (er f))"
    using assms
  proof (induction ms arbitrary: s)
    case Nil
    then show ?case
      by (subst td.poll_unfold) (simp add: run_test_done(1) [of s f] prog_simps)
  next
    case (Cons m ms)
    have "wait_test_done s = wait_test_done (adv s (td_miss m) (ms @ f # rest) ENOENT)"
      using Cons.prems
      by (subst td.poll_unfold) (simp add: run_test_done(2) [of s m] td_miss_def prog_simps)
    with Cons show ?case by simp
  qed
  then show ?thesis by (simp add: bind_def)
qed

text \<open>
  \<^bold>\<open>C2.\<close> When no dry-run file exists, \<open>do_ckpt\<close> creates \<open>checkpoint-ready\<close> exactly once, then
  polls until \<open>checkpoint-done\<close> exists, removes that file and returns: after any finite number
  of polls that find nothing, the poll that finds the file ends the wait, and these are all the
  calls it makes, in this order.
\<close>

theorem do_ckpt_handshake:
  assumes "script s = d0 # cr # d1 # concat (map (\<lambda>(d, f). [d, f]) ms) @ d # f # rest"
    and "rv d0 \<noteq> 0" and "0 \<le> rv cr" and "rv d1 \<noteq> 0" and "er d1 = ENOENT"
    and "\<forall>(d, f) \<in> set ms. absent d f" and "rv d \<noteq> 0" and "rv f = 0"
  shows "do_ckpt s = Done () (adv s
      ([Got_access CKPT_DRY_RUN d0, Got (Unistd (Creat CKPT_READY MODE_0666)) cr,
        Did (Unistd (Close (rv cr))), Got_access CKPT_DRY_RUN d1]
       @ concat (map (\<lambda>(d, f). tcd_miss d f) ms)
       @ [Got_access CKPT_DRY_RUN d, Got_access CKPT_DONE f, Did (Unistd (Unlink CKPT_DONE))])
      rest (er f))"
  using assms by (simp add: do_ckpt_def set_checkpoint_ready_def prog_simps tcd_polls [of _ ms])

text \<open>A process that has just started, for closed examples.\<close>

definition start :: "resp list \<Rightarrow> int option \<Rightarrow> 'g \<Rightarrow> 'g proc" where
  "start rs lf g = \<lparr>script = rs, trace = [], errno = 0, logfp = lf, freezer_mnt = None,
     ckpt_label = None, ckpt_op_num = 0, eflags_buffer = [], glob = g\<rparr>"

lemma start_sel [simp]:
  "script (start rs lf g) = rs" "trace (start rs lf g) = []" "errno (start rs lf g) = 0"
  "logfp (start rs lf g) = lf" "freezer_mnt (start rs lf g) = None" "glob (start rs lf g) = g"
  "ckpt_label (start rs lf g) = None" "ckpt_op_num (start rs lf g) = 0" "eflags_buffer (start rs lf g) = []"
  by (simp_all add: start_def)

theorem do_ckpt_handshake_witness:
  "do_ckpt (start [failed ENOENT, ok 3, failed ENOENT, failed ENOENT, failed ENOENT,
        failed ENOENT, ok 0, ok 7] None ()) =
   Done () (adv (start [failed ENOENT, ok 3, failed ENOENT, failed ENOENT, failed ENOENT,
        failed ENOENT, ok 0, ok 7] None ())
      ([Got_access CKPT_DRY_RUN (failed ENOENT), Got (Unistd (Creat CKPT_READY MODE_0666)) (ok 3),
         Did (Unistd (Close 3)), Got_access CKPT_DRY_RUN (failed ENOENT)]
        @ tcd_miss (failed ENOENT) (failed ENOENT)
        @ [Got_access CKPT_DRY_RUN (failed ENOENT), Got_access CKPT_DONE (ok 0),
           Did (Unistd (Unlink CKPT_DONE))]) [ok 7] 0)"
  by (subst do_ckpt_handshake [where ms = "[(failed ENOENT, failed ENOENT)]" and ?d0.0 = "failed ENOENT"
        and cr = "ok 3" and ?d1.0 = "failed ENOENT" and d = "failed ENOENT" and f = "ok 0" and rest = "[ok 7]"])
    simp_all

lemma test_checkpoint_done_true:
  assumes "test_checkpoint_done u = Done d t" and "d \<noteq> 0"
  shows "(\<exists>r. rv r = 0 \<and> since u t = [Got_access CKPT_DRY_RUN r]) \<or>
    (\<exists>r f. rv f = 0 \<and> since u t = [Got_access CKPT_DRY_RUN r, Got_access CKPT_DONE f])"
  using assms
  by (auto simp: test_checkpoint_done_def do_exit_def prog_simps split: list.splits if_splits option.splits)

lemma set_checkpoint_ready_returns:
  assumes "set_checkpoint_ready s = Done a t"
  shows "(\<exists>r. rv r = 0 \<and> since s t = [Got_access CKPT_DRY_RUN r]) \<or>
    (\<exists>r c. 0 \<le> rv c \<and> since s t = [Got_access CKPT_DRY_RUN r,
       Got (Unistd (Creat CKPT_READY MODE_0666)) c, Did (Unistd (Close (rv c)))])"
  using assms
  by (auto simp: set_checkpoint_ready_def do_exit_def prog_simps
      split: list.splits if_splits option.splits)

text \<open>
  \<^bold>\<open>C1.\<close> Whatever the environment answers, \<open>do_ckpt\<close> returns only in a dry run (an
  \<open>access\<close> of the dry-run file succeeded) or after the handshake: \<open>checkpoint-ready\<close> was created
  and, later, an \<open>access\<close> of \<open>checkpoint-done\<close> succeeded.
\<close>

theorem do_ckpt_waits_for_checkpoint:
  assumes "do_ckpt s = Done () t"
  shows "(\<exists>r. rv r = 0 \<and> Got_access CKPT_DRY_RUN r \<in> set (since s t)) \<or>
    (\<exists>pre mid post c f. 0 \<le> rv c \<and> rv f = 0 \<and>
       since s t = pre @ Got (Unistd (Creat CKPT_READY MODE_0666)) c # mid
         @ Got_access CKPT_DONE f # post)"
proof -
  let ?poll = "poll test_checkpoint_done (emit (Proc (Usleep 10000)))"
  let ?dry = "\<lambda>es. \<exists>r. rv r = 0 \<and> Got_access CKPT_DRY_RUN r \<in> set es"
  from assms obtain s1 where s1: "set_checkpoint_ready s = Done () s1"
    by (auto simp: do_ckpt_def andthen_def bind_def split: outcome.splits)
  then have g1: "grows s s1" by (rule appending_Done [OF appending_set_checkpoint_ready])
  from assms s1 obtain d rs where d: "script s1 = d # rs"
    by (auto simp: do_ckpt_def prog_simps bind_def [of set_checkpoint_ready] split: list.splits)
  show ?thesis
  proof (cases "rv d = 0")
    case True
    with assms s1 d have "t = adv s1 [Got_access CKPT_DRY_RUN d] rs (er d)"
      by (simp add: do_ckpt_def prog_simps bind_def [of set_checkpoint_ready])
    with g1 True show ?thesis by (auto simp: grows_def since_def)
  next
    case False
    let ?s2 = "adv s1 [Got_access CKPT_DRY_RUN d] rs (er d)"
    from False assms s1 d obtain v where v: "?poll ?s2 = Done () v"
      and t: "t = adv v [Did (Unistd (Unlink CKPT_DONE))] (script v) (errno v)"
      by (auto simp: do_ckpt_def do_exit_def prog_simps bind_def [of set_checkpoint_ready] bind_def [of ?poll]
          split: outcome.splits if_splits option.splits)
    from v obtain u e where u: "grows ?s2 u" and e: "test_checkpoint_done u = Done e v" "e \<noteq> 0"
      by (rule tcd.poll_returns_after_success)
    have gv: "grows u v" using e(1) by (rule appending_Done [OF appending_test_checkpoint_done])
    have since: "since s t = since s s1 @ [Got_access CKPT_DRY_RUN d] @ since ?s2 u @ since u v
        @ [Did (Unistd (Unlink CKPT_DONE))]"
      using g1 u gv t by (auto simp: grows_def since_def)
    from test_checkpoint_done_true [OF e] set_checkpoint_ready_returns [OF s1] show ?thesis
    proof (elim disjE exE conjE)
      fix c r0 f r
      assume "0 \<le> rv c" and "rv f = 0" 
        and "since s s1 = [Got_access CKPT_DRY_RUN r0, Got (Unistd (Creat CKPT_READY MODE_0666)) c,
          Did (Unistd (Close (rv c)))]"
        and "since u v = [Got_access CKPT_DRY_RUN r, Got_access CKPT_DONE f]"
      with since have "since s t = [Got_access CKPT_DRY_RUN r0]
        @ Got (Unistd (Creat CKPT_READY MODE_0666)) c
          # ([Did (Unistd (Close (rv c))), Got_access CKPT_DRY_RUN d] @ since ?s2 u
             @ [Got_access CKPT_DRY_RUN r])
        @ Got_access CKPT_DONE f # [Did (Unistd (Unlink CKPT_DONE))]"
        by simp
      with \<open>0 \<le> rv c\<close> \<open>rv f = 0\<close> show ?thesis by blast
    qed (use since in auto)
  qed
qed

theorem do_ckpt_waits_for_checkpoint_witness:
  "\<exists>t. do_ckpt (start [ok (- 1), ok 3, failed ENOENT, failed ENOENT, ok 0] None ()) = Done () t \<and>
    ((\<exists>r. rv r = 0 \<and> Got_access CKPT_DRY_RUN r \<in> set (trace t)) \<or>
     (\<exists>pre mid post c f. 0 \<le> rv c \<and> rv f = 0 \<and>
       trace t = pre @ Got (Unistd (Creat CKPT_READY MODE_0666)) c # mid
         @ Got_access CKPT_DONE f # post))"
proof -
  let ?s = "start [ok (- 1), ok 3, failed ENOENT, failed ENOENT, ok 0] None ()"
  have "\<exists>t. do_ckpt ?s = Done () t"
    by (simp add: do_ckpt_def set_checkpoint_ready_def prog_simps
        tcd_polls [where ms = "[]" and d = "failed ENOENT" and f = "ok 0" and rest = "[]"])
  then obtain t where t: "do_ckpt ?s = Done () t" by blast
  have "since ?s t = trace t" by (simp add: since_def)
  with do_ckpt_waits_for_checkpoint [OF t] t show ?thesis by metis
qed

section \<open>Reaping children\<close>

definition clean_exit :: "resp \<Rightarrow> bool" where
  "clean_exit r \<longleftrightarrow> WIFEXITED (word_of_int (out 0 r)) \<and> WEXITSTATUS (word_of_int (out 0 r)) = 0"

definition exit_report :: "int \<Rightarrow> u32 \<Rightarrow> event list" where
  "exit_report pid st =
     [Did (Stdio (Fprintf 100 [I pid])),
      Did (Stdio (if WIFEXITED st then Fprintf 102 [I (uint (WEXITSTATUS st))]
                  else if WIFSIGNALED st then Fprintf 104 [I (uint (WTERMSIG st))]
                  else Fprintf 106 []))]"

definition reap_events :: "resp \<Rightarrow> event list" where
  "reap_events r = Got (Proc (Waitpid (-1) 0)) r #
     (if clean_exit r then [] else exit_report (rv r) (word_of_int (out 0 r)))"

lemma run_print_exit_status:
  "logfp s = Some lf \<Longrightarrow>
   bind (print_exit_status pid st) k s = k () (adv s (exit_report pid st) (script s) (errno s))"
  by (simp add: print_exit_status_def exit_report_def prog_simps)

lemma do_wait_turn:
  assumes "script s = r # rest" and "logfp s = Some lf" and "0 \<le> rv r"
  shows "do_wait_body n s = Done (Inl (n + 1)) (adv s (reap_events r) rest (er r))"
  using assms
  by (auto simp: do_wait_body_def clean_exit_def reap_events_def Let_def prog_simps
      run_print_exit_status)

lemma do_wait_loop:
  assumes "script s = cs @ l # rest" and "logfp s = Some lf"
    and "\<forall>r \<in> set cs. 0 \<le> rv r" and "rv l < 0"
  shows "loop do_wait_body n s = Done (rv l, n + int (length cs))
    (adv s (concat (map reap_events cs) @ [Got (Proc (Waitpid (-1) 0)) l]) rest (er l))"
  using assms
proof (induction cs arbitrary: s n)
  case Nil
  then show ?case by (subst dw.unfold) (simp add: do_wait_body_def prog_simps)
next
  case (Cons c cs)
  then show ?case
    by (subst dw.unfold) (simp add: bind_def do_wait_turn [of s c] add.commute add.left_commute)
qed

text \<open>
  \<^bold>\<open>C3.\<close> \<open>do_wait\<close> reaps every child there is, however many, and logs a report for exactly
  those that did not exit with status 0; once \<open>waitpid\<close> says \<open>ECHILD\<close> it returns 0, unless it is
  the init process of its namespace and the number reaped is not the one expected, in which case
  it returns the number reaped. The children's own exit statuses never reach the caller.
\<close>

theorem do_wait_reaps:
  assumes "script s = cs @ l # p # rest" and "logfp s = Some lf"
    and "\<forall>r \<in> set cs. 0 \<le> rv r" and "rv l < 0" and "er l = ECHILD"
  shows "do_wait nc s =
    (let n = int (length cs); short = rv p = 1 \<and> nc \<noteq> 0 \<and> n \<noteq> nc in
     Done (if short then n else 0)
       (adv s (concat (map reap_events cs) @ [Got (Proc (Waitpid (-1) 0)) l, Got (Proc Getpid) p]
          @ (if short then [Did (Stdio (Fprintf 134 [I n, I nc]))] else [])) rest (er p)))"
  using assms
  by (auto simp: do_wait_def bind_def [of "loop _ _"] do_wait_loop [of s cs l _ lf] prog_simps Let_def)

theorem do_wait_reaps_witness:
  "do_wait 2 (start [\<lparr>rv = 41, er = 0, rdat = [], outs = [256]\<rparr>, failed ECHILD, ok 1] (Some 3) ()) =
    Done 1 (adv (start [\<lparr>rv = 41, er = 0, rdat = [], outs = [256]\<rparr>, failed ECHILD, ok 1] (Some 3) ())
      (reap_events \<lparr>rv = 41, er = 0, rdat = [], outs = [256]\<rparr> @
       [Got (Proc (Waitpid (-1) 0)) (failed ECHILD), Got (Proc Getpid) (ok 1),
        Did (Stdio (Fprintf 134 [I 1, I 2]))]) [] 0)"
  by (subst do_wait_reaps [where cs = "[\<lparr>rv = 41, er = 0, rdat = [], outs = [256]\<rparr>]"
        and l = "failed ECHILD" and p = "ok 1" and rest = "[]" and lf = 3]) simp_all

end
