(* ===== verification/Answers.thy ===== *)
theory Answers
  imports Libcrtest
begin

text \<open>
  How a program depends on the answers it gets. A program that waits in a call goes on from
  there when it is given one more answer, and the calls it was answered before stay the same.
  With this law (\<open>steady\<close>) a thread of a concurrent program is known by its list of answers: one
  step of the system appends one answer to one list.
\<close>

section \<open>Steady programs\<close>

definition more :: "resp \<Rightarrow> 'g proc \<Rightarrow> 'g proc" where
  "more r s = s\<lparr>script := script s @ [r]\<rparr>"

lemma more_sel [simp]:
  "script (more r s) = script s @ [r]" "trace (more r s) = trace s" "errno (more r s) = errno s"
  "logfp (more r s) = logfp s" "freezer_mnt (more r s) = freezer_mnt s" "glob (more r s) = glob s"
  by (simp_all add: more_def)

lemma adv_more: "adv (more r s) es rs e = adv s es rs e" "more r (adv s es rs e) = adv s es (rs @ [r]) e"
  by (simp_all add: more_def adv_def)

text \<open>The calls that were answered, with the answers.\<close>

fun gots :: "event list \<Rightarrow> (call \<times> resp) list" where
  "gots [] = []"
| "gots (Got c r # es) = (c, r) # gots es"
| "gots (_ # es) = gots es"

lemma gots_append [simp]: "gots (es @ fs) = gots es @ gots fs"
  by (induction es rule: gots.induct) simp_all

lemma gots_Got: "(c, r) \<in> set (gots es) \<longleftrightarrow> Got c r \<in> set es"
  by (induction es rule: gots.induct) auto

definition idle :: "('g, 'a) prog \<Rightarrow> bool" where
  "idle p \<longleftrightarrow> (\<forall>s. script s = [] \<longrightarrow> gots (trace (final (p s))) = gots (trace s) \<and> script (final (p s)) = [])"

definition goes_on :: "('g, 'a) prog \<Rightarrow> 'g proc \<Rightarrow> resp \<Rightarrow> bool" where
  "goes_on p s r \<longleftrightarrow>
     (case p s of
        Done a t \<Rightarrow> p (more r s) = Done a (more r t)
      | Exited c t \<Rightarrow> p (more r s) = Exited c (more r t)
      | Crashed t \<Rightarrow> p (more r s) = Crashed (more r t)
      | Blocked t \<Rightarrow> script t = [] \<and> script (final (p (more r s))) = [] \<and>
          (\<exists>es c. trace t = es @ [Pending c] \<and> gots (trace (final (p (more r s)))) = gots es @ [(c, r)]))"

definition steady :: "('g, 'a) prog \<Rightarrow> bool" where
  "steady p \<longleftrightarrow> idle p \<and> (\<forall>s r. goes_on p s r)"

named_theorems steady_intros \<open>programs that go on from the call they wait in\<close>

lemma steadyD: "steady p \<Longrightarrow> goes_on p s r" "steady p \<Longrightarrow> idle p"
  by (simp_all add: steady_def)

lemma idleD:
  assumes "idle p" and "script s = []"
  shows "gots (trace (final (p s))) = gots (trace s)" and "script (final (p s)) = []"
  using assms by (simp_all add: idle_def)

lemma steady_return [steady_intros]: "steady (return a)"
  by (simp add: steady_def goes_on_def idle_def return_def)

lemma steady_exit [steady_intros]: "steady (exit_with c)"
  by (simp add: steady_def goes_on_def idle_def exit_with_def)

lemma steady_crash [steady_intros]: "steady crash"
  by (simp add: steady_def goes_on_def idle_def crash_def)

lemma steady_emit [steady_intros]: "steady (emit c)"
  by (simp add: steady_def goes_on_def idle_def emit_def adv_more)

lemma steady_gets [steady_intros]: "(\<And>s r. h (more r s) = h s) \<Longrightarrow> steady (gets h)"
  by (simp add: steady_def goes_on_def idle_def gets_def)

lemma steady_modify [steady_intros]:
  "(\<And>s r. h (more r s) = more r (h s)) \<Longrightarrow> (\<And>s. trace (h s) = trace s \<and> script (h s) = script s) \<Longrightarrow>
   steady (modify h)"
  by (simp add: steady_def goes_on_def idle_def modify_def)

lemma steady_sys [steady_intros]: "steady (sys c)"
  by (auto simp: steady_def goes_on_def idle_def sys_def adv_more split: list.split)

lemma steady_bind [steady_intros]:
  assumes p: "steady p" and f: "\<And>a. steady (f a)"
  shows "steady (bind p f)"
  unfolding steady_def
proof (intro conjI allI)
  note ip = idleD [OF steadyD(2) [OF p]] and jf = idleD [OF steadyD(2) [OF f]]
  show "idle (bind p f)"
    unfolding idle_def
  proof (intro allI impI)
    fix s :: "'a proc" assume "script s = []"
    then show "gots (trace (final (bind p f s))) = gots (trace s) \<and> script (final (bind p f s)) = []"
      using ip [of s] jf by (cases "p s") (simp_all add: bind_def)
  qed
  fix s r
  show "goes_on (bind p f) s r"
  proof (cases "p s")
    case (Done a t)
    then have "p (more r s) = Done a (more r t)" using steadyD(1) [OF p, of s r] by (simp add: goes_on_def)
    with Done steadyD(1) [OF f, of a t r] show ?thesis
      by (simp add: goes_on_def bind_def split: outcome.splits)
  next
    case (Blocked t)
    then show ?thesis using steadyD(1) [OF p, of s r] jf
      by (cases "p (more r s)") (auto simp: goes_on_def bind_def)
  qed (use steadyD(1) [OF p, of s r] in \<open>simp_all add: goes_on_def bind_def\<close>)
qed

lemma steady_if [steady_intros]: "steady p \<Longrightarrow> steady q \<Longrightarrow> steady (if b then p else q)"
  by simp

lemma steady_andthen [steady_intros]: "steady p \<Longrightarrow> steady q \<Longrightarrow> steady (andthen p q)"
  by (simp add: andthen_def steady_bind)

lemma steady_sysv [steady_intros]: "steady (sysv c)"
  by (simp add: sysv_def steady_intros)

lemma steady_to_log [steady_intros]: "steady (to_log c)"
  by (simp add: to_log_def steady_intros)

lemma steady_with_glob [steady_intros]: "(\<And>x. steady (p x)) \<Longrightarrow> steady (with_glob sel p)"
  unfolding with_glob_def by (intro steady_intros) simp_all

lemma steady_set_glob [steady_intros]: "steady (set_glob f)"
  unfolding set_glob_def by (intro steady_intros) (simp_all add: more_def)

lemma steady_block [steady_intros]:
  "steady (block [])" "steady p \<Longrightarrow> steady (block ps) \<Longrightarrow> steady (block (p # ps))"
  by (simp_all add: steady_return steady_andthen)

lemma steady_foreach [steady_intros]: "(\<And>x. steady (f x)) \<Longrightarrow> steady (foreach f xs)"
  by (induction xs) (auto intro: steady_intros)

context script_loop begin

lemma idle_loop:
  assumes "\<And>a. steady (body a)"
  shows "idle (loop body a)"
  unfolding idle_def
proof (intro allI impI)
  fix s :: "'g proc" assume s: "script s = []"
  note i = idleD [OF steadyD(2) [OF assms] s]
  show "gots (trace (final (loop body a s))) = gots (trace s) \<and> script (final (loop body a s)) = []"
  proof (cases "body a s")
    case (Done r t)
    with progress [of a s _ t] s obtain b where "r = Inr b" by (cases r) auto
    with Done i [of a] show ?thesis by (simp add: unfold [of a s] bind_def return_def)
  qed (use i [of a] in \<open>simp_all add: unfold [of a s] bind_def\<close>)
qed

lemma steady_loop:
  assumes body: "\<And>a. steady (body a)"
  shows "steady (loop body a)"
proof -
  note idle = idleD [OF idle_loop [OF body]]
  have "goes_on (loop body a) s r" for a s r
  proof (induction a s rule: induct)
    case (turn a s)
    note b = steadyD(1) [OF body, of a s r]
    note u = unfold [of a s] unfold [of a "more r s"]
    show ?case
    proof (cases "body a s")
      case (Done x t)
      then have "body a (more r s) = Done x (more r t)" using b by (simp add: goes_on_def)
      with Done turn show ?thesis
        by (cases x) (auto simp: goes_on_def u bind_def return_def split: outcome.splits)
    next
      case (Blocked t)
      then show ?thesis using b idle
        by (cases "body a (more r s)")
          (auto simp: goes_on_def u bind_def return_def split: sum.split)
    qed (use b in \<open>simp_all add: goes_on_def u bind_def\<close>)
  qed
  then show ?thesis using idle_loop [OF body] by (simp add: steady_def)
qed

end

section \<open>The calls of a thread\<close>

definition answered :: "('a, 'g proc) outcome \<Rightarrow> (call \<times> resp) set" where
  "answered x = set (gots (trace (final x)))"

text \<open>One more answer adds exactly the call the program was waiting in.\<close>

lemma answered_more:
  assumes "steady p" and "p s = Blocked t" and "trace t = es @ [Pending c]"
  shows "answered (p (more r s)) = insert (c, r) (answered (p s))"
  using steadyD(1) [OF assms(1), of s r] assms(2,3) by (auto simp: goes_on_def answered_def)

text \<open>The calls a program can wait in.\<close>

fun pending_in :: "(call \<Rightarrow> bool) \<Rightarrow> event \<Rightarrow> bool" where
  "pending_in P (Pending c) = P c"
| "pending_in P _ = True"

lemma only_pending_mono:
  assumes "only (pending_in P) p" and "\<And>c. P c \<Longrightarrow> Q c"
  shows "only (pending_in Q) p"
proof -
  have "pending_in P e \<Longrightarrow> pending_in Q e" for e using assms(2) by (cases e) auto
  with assms(1) show ?thesis unfolding only_def by blast
qed

section \<open>Libcrtest\<close>

lemma steady_do_exit [steady_intros]: "steady (do_exit c)"
  unfolding do_exit_def by (auto intro!: steady_intros split: option.split)

lemma steady_test_done [steady_intros]: "steady test_done"
  unfolding test_done_def by (auto intro!: steady_intros)

lemma steady_test_checkpoint_done [steady_intros]: "steady test_checkpoint_done"
  unfolding test_checkpoint_done_def by (auto intro!: steady_intros)

lemma steady_set_checkpoint_ready [steady_intros]: "steady set_checkpoint_ready"
  unfolding set_checkpoint_ready_def by (auto intro!: steady_intros)

context poll_loop begin

lemma steady_poll: "steady p \<Longrightarrow> steady w \<Longrightarrow> steady (poll p w)"
  unfolding poll_def by (rule steady_loop) (auto simp: poll_body_def intro!: steady_intros)

lemma only_poll: "only Q p \<Longrightarrow> only Q w \<Longrightarrow> only Q (poll p w)"
  unfolding poll_def by (rule only_loop) (auto simp: poll_body_def intro!: only_intros)

end

lemma steady_print_exit_status [steady_intros]: "steady (print_exit_status pid status)"
  unfolding print_exit_status_def by (auto intro!: steady_intros)

lemma steady_do_wait [steady_intros]: "steady (do_wait n)"
  unfolding do_wait_def
  by (auto intro!: steady_intros dw.steady_loop simp: do_wait_body_def Let_def split: prod.splits)

text \<open>The state a program starts in, with one more answer.\<close>

lemma start_more: "start (as @ [r]) lf g = more r (start as lf g)"
  by (simp add: start_def more_def)

section \<open>What programs keep of their globals\<close>

text \<open>
  \<open>keeps R p\<close>: when \<open>p\<close> returns, its globals are related by \<open>R\<close> to those it started with. The
  locale has the laws for every relation that is reflexive and transitive.
\<close>

definition keeps :: "('g \<Rightarrow> 'g \<Rightarrow> bool) \<Rightarrow> ('g, 'a) prog \<Rightarrow> bool" where
  "keeps R p \<longleftrightarrow> (\<forall>s a t. p s = Done a t \<longrightarrow> R (glob s) (glob t))"

lemma keepsD: "keeps R p \<Longrightarrow> p s = Done a t \<Longrightarrow> R (glob s) (glob t)"
  by (auto simp: keeps_def)

lemma keeps_set_glob: "(\<And>g. R g (f g)) \<Longrightarrow> keeps R (set_glob f)"
  by (auto simp: keeps_def set_glob_def modify_def)

locale keeper =
  fixes R :: "'g \<Rightarrow> 'g \<Rightarrow> bool"
  assumes refl: "R g g" and trans: "R g h \<Longrightarrow> R h k \<Longrightarrow> R g k"
begin

lemma keeps_basic:
  "keeps R (return a)" "keeps R (exit_with st)" "keeps R crash" "keeps R (emit c)" "keeps R (gets h)"
  "keeps R (sys c)" "keeps R (to_log c)"
  by (auto simp: keeps_def return_def exit_with_def crash_def emit_def gets_def sys_def to_log_def bind_def
      refl split: list.splits if_splits)

lemma keeps_bind: "keeps R p \<Longrightarrow> (\<And>a. keeps R (f a)) \<Longrightarrow> keeps R (bind p f)"
  unfolding keeps_def by (auto simp: bind_def split: outcome.splits) (meson trans)

lemma keeps_compound:
  "keeps R (sysv c)" "keeps R p \<Longrightarrow> keeps R q \<Longrightarrow> keeps R (if b then p else q)"
  "keeps R u \<Longrightarrow> keeps R q \<Longrightarrow> keeps R (andthen u q)" "keeps R (block [])"
  "keeps R u \<Longrightarrow> keeps R (block us) \<Longrightarrow> keeps R (block (u # us))"
  "(\<And>x. keeps R (k x)) \<Longrightarrow> keeps R (with_glob sel k)"
  by (auto simp: sysv_def andthen_def with_glob_def intro!: keeps_bind keeps_basic)

lemma keeps_loop:
  assumes "script_loop body" and "\<And>a. keeps R (body a)"
  shows "keeps R (loop body a)"
  unfolding keeps_def
proof (intro allI impI)
  fix s b t
  assume d: "loop body a s = Done b t"
  have "case loop body a s of Done b t \<Rightarrow> R (glob s) (glob t) | _ \<Rightarrow> True"
    by (rule script_loop.invariant [OF assms(1), where Inv = "\<lambda>_ u. R (glob s) (glob u)"])
      (auto simp: refl dest: keepsD [OF assms(2)] intro: trans)
  with d show "R (glob s) (glob t)" by simp
qed

lemmas keeps_rules = keeps_basic keeps_compound keeps_bind

end

end
