(* ===== verification/Kernel.thy ===== *)
theory Kernel
  imports Answers
begin

text \<open>
  Programs against a kernel that follows its documentation. The script of a process is arbitrary;
  a theorem about a program \<^emph>\<open>and\<close> the part of the kernel it uses restricts the script to
  answers that part can give. A \<open>kernel\<close> has a state of its own: it says which answers a call can
  get in a state, and how an answered call and a call whose result is discarded change the state.
  \<open>run_kernel\<close> replays the events of a run; \<open>wp\<close> is the weakest precondition of a program with
  respect to such a kernel, with separate postconditions for returning and for ending the process.
  The rules for \<open>wp\<close> follow the program text, so that a proof walks through the program once.
\<close>

section \<open>Kernels\<close>

record 'k kernel =
  answers :: "call \<Rightarrow> resp \<Rightarrow> 'k \<Rightarrow> 'k option"
  effect :: "call \<Rightarrow> 'k \<Rightarrow> 'k"

fun run_kernel :: "'k kernel \<Rightarrow> 'k \<Rightarrow> event list \<Rightarrow> 'k option" where
  "run_kernel K k [] = Some k"
| "run_kernel K k (Got c r # es) = (case answers K c r k of None \<Rightarrow> None | Some k' \<Rightarrow> run_kernel K k' es)"
| "run_kernel K k (Did c # es) = run_kernel K (effect K c k) es"
| "run_kernel K k (Pending c # es) = run_kernel K k es"

lemma run_kernel_append:
  "run_kernel K k (es @ fs) = (case run_kernel K k es of None \<Rightarrow> None | Some k' \<Rightarrow> run_kernel K k' fs)"
  by (induction K k es rule: run_kernel.induct) (auto split: option.split)

section \<open>Weakest preconditions\<close>

definition wp :: "'k kernel \<Rightarrow> ('g, 'a) prog \<Rightarrow> ('a \<Rightarrow> 'k \<Rightarrow> 'g proc \<Rightarrow> bool) \<Rightarrow> (int \<Rightarrow> 'k \<Rightarrow> bool) \<Rightarrow>
    'k \<Rightarrow> 'g proc \<Rightarrow> bool" where
  "wp K p Q E k s \<longleftrightarrow>
     (\<forall>k'. run_kernel K k (since s (final (p s))) = Some k' \<longrightarrow>
        (case p s of Done a t \<Rightarrow> Q a k' t | Exited c t \<Rightarrow> E c k' | Blocked t \<Rightarrow> True | Crashed t \<Rightarrow> False))"

lemma wpD:
  assumes "wp K p Q E k s" and "run_kernel K k (since s (final (p s))) = Some k'"
  shows "p s = Done a t \<Longrightarrow> Q a k' t" and "p s = Exited c t \<Longrightarrow> E c k'" and "p s \<noteq> Crashed t"
  using assms by (auto simp: wp_def)

text \<open>A program that never returns: the postcondition of its exits holds, or it is still waiting.\<close>

lemma wp_ends:
  assumes "wp K p (\<lambda>_ _ _. False) E k s" and "run_kernel K k (since s (final (p s))) = Some k'"
  shows "case p s of Exited c t \<Rightarrow> E c k' | Blocked t \<Rightarrow> True | _ \<Rightarrow> False"
  using assms by (auto simp: wp_def split: outcome.splits)

named_theorems wp_rules \<open>weakest preconditions, by the form of the program\<close>

lemma wp_bind:
  assumes "wp K p (\<lambda>a k' t. wp K (f a) Q E k' t) E k s" and "appending p" and "\<And>a. appending (f a)"
  shows "wp K (bind p f) Q E k s"
proof (cases "p s")
  case (Done a t)
  have "grows s t" using assms(2) Done by (rule appending_Done)
  moreover have "grows t (final (f a t))" by (rule appendingD [OF assms(3)])
  ultimately have "since s (final (f a t)) = since s t @ since t (final (f a t))" by (rule since_trans)
  with assms(1) Done show ?thesis
    by (auto simp: wp_def bind_def run_kernel_append split: option.splits)
qed (use assms(1) in \<open>simp_all add: wp_def bind_def\<close>)

lemma wp_mono:
  assumes "wp K p Q E k s" and "\<And>a k t. Q a k t \<Longrightarrow> Q' a k t" and "\<And>c k. E c k \<Longrightarrow> E' c k"
  shows "wp K p Q' E' k s"
  using assms by (auto simp: wp_def split: outcome.split)

lemma wp_seq:
  assumes "wp K p R E k s" and "\<And>a k t. R a k t \<Longrightarrow> wp K (f a) Q E k t" and "appending p" and "\<And>a. appending (f a)"
  shows "wp K (bind p f) Q E k s"
  by (rule wp_bind [OF wp_mono [OF assms(1)]]) (use assms in auto)

lemma wp_return [wp_rules]: "Q a k s \<Longrightarrow> wp K (return a) Q E k s"
  by (simp add: wp_def return_def)

lemma wp_exit [wp_rules]: "E c k \<Longrightarrow> wp K (exit_with c) Q E k s"
  by (simp add: wp_def exit_with_def)

lemma wp_if [wp_rules]:
  "(b \<Longrightarrow> wp K p Q E k s) \<Longrightarrow> (\<not> b \<Longrightarrow> wp K q Q E k s) \<Longrightarrow> wp K (if b then p else q) Q E k s"
  by simp

text \<open>One event, then the rest of the program.\<close>

lemma since_step:
  assumes "grows (adv s [e] rs en) u"
  shows "since s u = e # since (adv s [e] rs en) u"
proof -
  have "grows s (adv s [e] rs en)" by (simp add: grows_def)
  then have "since s u = since s (adv s [e] rs en) @ since (adv s [e] rs en) u" using assms by (rule since_trans)
  then show ?thesis by simp
qed

lemma wp_sys [wp_rules]:
  assumes "\<And>r rs k'. script s = r # rs \<Longrightarrow> answers K c r k = Some k' \<Longrightarrow>
      wp K (f r) Q E k' (adv s [Got c r] rs (er r))"
    and "\<And>r. appending (f r)"
  shows "wp K (bind (sys c) f) Q E k s"
proof (cases "script s")
  case Nil
  then show ?thesis by (simp add: wp_def run_sys_Nil)
next
  case (Cons r rs)
  have "since s (final (f r (adv s [Got c r] rs (er r)))) =
      Got c r # since (adv s [Got c r] rs (er r)) (final (f r (adv s [Got c r] rs (er r))))"
    by (intro since_step appendingD assms(2))
  with assms(1) [OF Cons] Cons show ?thesis
    by (auto simp: wp_def run_sys_Cons split: option.splits)
qed

lemma wp_sysv [wp_rules]:
  assumes "\<And>r rs k'. script s = r # rs \<Longrightarrow> answers K c r k = Some k' \<Longrightarrow>
      wp K (f (rv r)) Q E k' (adv s [Got c r] rs (er r))"
    and "\<And>v. appending (f v)"
  shows "wp K (bind (sysv c) f) Q E k s"
  unfolding bind_sysv using assms by (rule wp_sys)

lemma wp_emit [wp_rules]:
  assumes "wp K (f ()) Q E (effect K c k) (adv s [Did c] (script s) (errno s))" and "appending (f ())"
  shows "wp K (bind (emit c) f) Q E k s"
proof -
  have "since s (final (f () (adv s [Did c] (script s) (errno s)))) =
      Did c # since (adv s [Did c] (script s) (errno s)) (final (f () (adv s [Did c] (script s) (errno s))))"
    by (intro since_step appendingD assms(2))
  with assms(1) show ?thesis by (simp add: wp_def run_emit)
qed

lemma wp_gets [wp_rules]: "wp K (f (h s)) Q E k s \<Longrightarrow> wp K (bind (gets h) f) Q E k s"
  by (simp add: wp_def run_gets)

lemma wp_modify [wp_rules]:
  assumes "wp K (f ()) Q E k (h s)" and "trace (h s) = trace s"
  shows "wp K (bind (modify h) f) Q E k s"
  using assms by (simp add: wp_def run_modify since_def)

lemma wp_set_glob [wp_rules]:
  "wp K (f ()) Q E k (s\<lparr>glob := h (glob s)\<rparr>) \<Longrightarrow> wp K (bind (set_glob h) f) Q E k s"
  unfolding set_glob_def by (rule wp_modify) simp_all

lemma wp_with_glob [wp_rules]:
  "wp K (bind (p (sel (glob s))) f) Q E k s \<Longrightarrow> wp K (bind (with_glob sel p) f) Q E k s"
  by (simp add: wp_def run_with_glob)

lemma wp_with_glob_last [wp_rules]:
  "wp K (p (sel (glob s))) Q E k s \<Longrightarrow> wp K (with_glob sel p) Q E k s"
  by (simp add: wp_def run_with_glob)

lemma wp_to_log [wp_rules]:
  assumes "wp K (f ()) Q E (effect K c k) (adv s [Did c] (script s) (errno s))" and "appending (f ())"
    and "logfp s \<noteq> None"
  shows "wp K (bind (to_log c) f) Q E k s"
  using wp_emit [where f = f, OF assms(1,2)] assms(3) by (simp add: wp_def run_to_log run_emit)

text \<open>Structure: a program that is not a \<open>bind\<close> yet is one with \<open>return\<close>.\<close>

lemma wp_andthen [wp_rules]: "wp K (bind p (\<lambda>_. q)) Q E k s \<Longrightarrow> wp K (andthen p q) Q E k s"
  by (simp add: andthen_def)

lemma wp_assoc [wp_rules]:
  "wp K (bind p (\<lambda>a. bind (f a) g)) Q E k s \<Longrightarrow> wp K (bind (bind p f) g) Q E k s"
  by (simp add: prog_simps)

lemma wp_andthen_assoc [wp_rules]:
  "wp K (bind p (\<lambda>_. bind q f)) Q E k s \<Longrightarrow> wp K (bind (andthen p q) f) Q E k s"
  by (simp add: prog_simps)

lemma wp_bind_return [wp_rules]: "wp K (f a) Q E k s \<Longrightarrow> wp K (bind (return a) f) Q E k s"
  by (simp add: bind_return_fun)

lemma wp_bind_exit [wp_rules]: "E c k \<Longrightarrow> wp K (bind (exit_with c) f) Q E k s"
  by (simp add: prog_simps wp_exit)

lemma wp_block [wp_rules]:
  "wp K (f ()) Q E k s \<Longrightarrow> wp K (bind (block []) f) Q E k s"
  "wp K (bind u (\<lambda>_. bind (block us) f)) Q E k s \<Longrightarrow> wp K (bind (block (u # us)) f) Q E k s"
  by (simp_all add: prog_simps bind_return_fun)

lemma wp_bind_if [wp_rules]:
  "(b \<Longrightarrow> wp K (bind p f) Q E k s) \<Longrightarrow> (\<not> b \<Longrightarrow> wp K (bind q f) Q E k s) \<Longrightarrow>
   wp K (bind (if b then p else q) f) Q E k s"
  by simp

lemma wp_last [wp_rules]:
  "wp K (bind (emit c) return) Q E k s \<Longrightarrow> wp K (emit c) Q E k s"
  "wp K (bind (to_log c) return) Q E k s \<Longrightarrow> wp K (to_log c) Q E k s"
  "wp K (bind (sys c) return) R E k s \<Longrightarrow> wp K (sys c) R E k s"
  "wp K (bind (sysv c) return) V E k s \<Longrightarrow> wp K (sysv c) V E k s"
  by (simp_all add: prog_simps)

lemma wp_Exited [wp_rules]: "E c k \<Longrightarrow> wp K (Exited c) Q E k s"
  by (simp add: wp_def)

lemma wp_gets_last [wp_rules]: "Q (h s) k s \<Longrightarrow> wp K (gets h) Q E k s"
  by (simp add: wp_def run_gets')

section \<open>Loops\<close>

text \<open>A loop over a list: the invariant speaks of the part of the list that is done.\<close>

lemma wp_foreach:
  assumes "Inv [] k s" and "\<And>x. appending (f x)"
    and turn: "\<And>ys x k s. x \<in> set xs \<Longrightarrow> Inv ys k s \<Longrightarrow> wp K (f x) (\<lambda>_. Inv (ys @ [x])) E k s"
  shows "wp K (foreach f xs) (\<lambda>_. Inv xs) E k s"
proof -
  have "wp K (foreach f zs) (\<lambda>_. Inv (ys @ zs)) E k s" if "Inv ys k s" and "set zs \<subseteq> set xs" for ys zs k s
    using that
  proof (induction zs arbitrary: ys k s)
    case Nil
    then show ?case by (auto intro: wp_return)
  next
    case (Cons z zs)
    have "wp K (f z) (\<lambda>_. Inv (ys @ [z])) E k s" using Cons.prems by (intro turn) simp_all
    moreover have "wp K (foreach f zs) (\<lambda>_. Inv (ys @ z # zs)) E k' t" if "Inv (ys @ [z]) k' t" for k' t
      using Cons.IH [OF that] Cons.prems by simp
    ultimately show ?case
      unfolding foreach.simps andthen_def using assms(2)
      by (auto intro!: wp_seq [where R = "\<lambda>_. Inv (ys @ [z])"] append_intros)
  qed
  from this [of "[]"] assms(1) show ?thesis by simp
qed

context script_loop begin

text \<open>An invariant of program and kernel that every turn of a loop keeps.\<close>

lemma wp_loop:
  assumes "Inv a k s" and app: "\<And>a. appending (body a)"
    and turn: "\<And>a k s. Inv a k s \<Longrightarrow>
      wp K (body a) (\<lambda>r k' t. case r of Inl a' \<Rightarrow> Inv a' k' t | Inr b \<Rightarrow> Q b k' t) E k s"
  shows "wp K (loop body a) Q E k s"
  using assms(1)
proof (induction a s arbitrary: k rule: induct)
  case (turn a s)
  note t = assms(3) [OF turn.prems]
  have "wp K (bind (body a) (\<lambda>r. case r of Inl a' \<Rightarrow> loop body a' | Inr b \<Rightarrow> return b)) Q E k s"
  proof (cases "body a s")
    case (Done r u)
    note app' = appending_loop [OF app]
    have g: "grows s u" using Done by (rule appending_Done [OF app])
    show ?thesis
    proof (cases r)
      case (Inl a')
      with Done have ih: "Inv a' k' u \<Longrightarrow> wp K (loop body a') Q E k' u" for k'
        using turn.IH by simp
      have "since s (final (loop body a' u)) = since s u @ since u (final (loop body a' u))"
        by (rule since_trans [OF g appendingD [OF app']])
      with ih t Done Inl show ?thesis
        by (auto simp: wp_def bind_def run_kernel_append split: option.splits)
    next
      case (Inr b)
      with t Done show ?thesis by (simp add: wp_def bind_def return_def)
    qed
  qed (use t in \<open>simp_all add: wp_def bind_def\<close>)
  then show ?case by (simp add: wp_def unfold [of a s])
qed

end

context poll_loop begin

text \<open>A polling loop leaves after a successful test; until then its invariant holds.\<close>

lemma wp_poll:
  assumes "Inv k s"
    and test: "\<And>k s. Inv k s \<Longrightarrow> wp K p (\<lambda>d k' t. if d = 0 then wp K w (\<lambda>_. Inv) E k' t else Q () k' t) E k s"
  shows "wp K (poll p w) Q E k s"
  unfolding poll_def
proof (rule wp_loop [where Inv = "\<lambda>_. Inv", OF assms(1)])
  fix a k s assume "Inv k s"
  let ?R = "\<lambda>r k' t. case r of Inl _ \<Rightarrow> Inv k' t | Inr b \<Rightarrow> Q b k' t"
  show "wp K (poll_body p w a) ?R E k s"
    unfolding poll_body_def
  proof (rule wp_seq [OF test [OF \<open>Inv k s\<close>]])
    fix d k' t
    assume "if d = 0 then wp K w (\<lambda>_. Inv) E k' t else Q () k' t"
    then show "wp K (if d = 0 then andthen w (return (Inl ())) else return (Inr ())) ?R E k' t"
      by (cases "d = 0") (auto simp: andthen_def intro!: wp_return wp_seq [where R = "\<lambda>_. Inv"] wait_appends append_intros)
  qed (auto intro!: test_appends wait_appends append_intros)
qed (auto simp: poll_body_def intro!: test_appends wait_appends append_intros)

end

end
