(* ===== verification/Mounts.thy ===== *)
theory Mounts
  imports Kernel
begin

text \<open>
  Finding the freezer cgroup and entering it, from libcrtest/common.c: \<open>fieldnumber\<close> and
  \<open>mount_entry_has_option\<close> cut a line of /proc/mounts in place, \<open>freezer_mountpoint\<close> looks
  for the cgroup mount with the freezer, \<open>create_cgroup\<close> and \<open>move_to_cgroup\<close> use it.
  A buffer is the list of its characters; a C string starts at an offset and ends before the
  first NUL or at the end of the list.
\<close>

section \<open>C strings in a buffer\<close>

lemma takeWhile_dropWhile_Nil: "takeWhile P (dropWhile P xs) = []"
  by (induction xs) auto

lemma cstr_update_before: "q < p \<Longrightarrow> cstr (buf[q := x]) p = cstr buf p"
  by (simp add: cstr_def)

lemma cstr_cut:
  assumes "cstr buf p = t @ b # u"
  shows "cstr (buf[p + length t := NUL]) p = t"
proof -
  let ?d = "drop p buf"
  from assms have tw: "takeWhile (\<lambda>c. c \<noteq> NUL) ?d = t @ b # u" by (simp add: cstr_def)
  then have d: "?d = t @ b # u @ dropWhile (\<lambda>c. c \<noteq> NUL) ?d"
    by (metis append.assoc append_Cons takeWhile_dropWhile_id)
  have ok: "\<forall>c \<in> set t. c \<noteq> NUL" using tw by (metis Un_iff set_append set_takeWhileD)
  from d have "p + length t < length buf" by (metis add_less_cancel_left
    length_append length_drop less_add_same_cancel1 length_Cons less_diff_conv add.commute zero_less_Suc)
  then have "drop p (buf[p + length t := NUL]) = ?d[length t := NUL]"
    by (simp add: drop_update_swap)
  also have "\<dots> = t @ NUL # u @ dropWhile (\<lambda>c. c \<noteq> NUL) ?d"
    by (subst d) (simp add: list_update_append)
  finally show ?thesis using ok by (simp add: cstr_def takeWhile_append2)
qed

section \<open>fieldnumber\<close>

definition blank :: "char \<Rightarrow> bool" where
  "blank c \<longleftrightarrow> c = CHR '' '' \<or> c = CHR 0x09"

text \<open>
  The loop of \<open>fieldnumber(s, n)\<close>: \<open>i\<close> blanks seen, \<open>s\<close> where the field starts, \<open>c\<close> the
  character looked at.
\<close>

function fieldnumber_loop :: "string \<Rightarrow> int \<Rightarrow> int \<Rightarrow> nat \<Rightarrow> nat \<Rightarrow> string \<times> nat option" where
  "fieldnumber_loop buf n i s c =
     (if c < length buf \<and> buf ! c \<noteq> NUL then
        if blank (buf ! c) then
          if i = n then (buf[c := NUL], Some s)
          else fieldnumber_loop buf n (i + 1) (if i + 1 = n then c + 1 else s) (c + 1)
        else fieldnumber_loop buf n i s (c + 1)
      else (buf, None))"
  by pat_completeness auto
termination
  by (relation "measure (\<lambda>(buf, n, i, s, c). length buf - c)") auto

declare fieldnumber_loop.simps [simp del]

definition fieldnumber :: "string \<Rightarrow> int \<Rightarrow> string \<times> nat option" where
  "fieldnumber buf n = fieldnumber_loop buf n 0 0 0"

subsection \<open>Reference: splitting at every blank\<close>

fun split_on :: "('a \<Rightarrow> bool) \<Rightarrow> 'a list \<Rightarrow> 'a list list" where
  "split_on P [] = [[]]"
| "split_on P (c # cs) =
     (if P c then [] # split_on P cs
      else (case split_on P cs of [] \<Rightarrow> [[c]] | f # fs \<Rightarrow> (c # f) # fs))"

lemma split_on_nonempty [simp]: "split_on P xs \<noteq> []"
  by (induction xs) (auto split: list.split)

lemma split_on_Cons:
  "split_on P (c # cs) = (if P c then [] # split_on P cs
     else (c # hd (split_on P cs)) # tl (split_on P cs))"
  by (simp split: list.split)

declare split_on.simps(2) [simp del] split_on_Cons [simp]

fun field_offset :: "'a list list \<Rightarrow> nat \<Rightarrow> nat" where
  "field_offset fs 0 = 0"
| "field_offset fs (Suc k) = length (hd fs) + 1 + field_offset (tl fs) k"

text \<open>A field that is followed by another: what is before it, it, its blank, the rest.\<close>

lemma split_on_field:
  assumes "k + 1 < length (split_on P t)"
  shows "\<exists>pre b post. t = pre @ split_on P t ! k @ b # post \<and> P b \<and>
    length pre = field_offset (split_on P t) k \<and>
    split_on P (pre @ split_on P t ! k) = take (k + 1) (split_on P t)"
  using assms
proof (induction t arbitrary: k)
  case Nil
  then show ?case by simp
next
  case (Cons c cs)
  obtain f fs where fs: "split_on P cs = f # fs" by (cases "split_on P cs") auto
  show ?case
  proof (cases "P c")
    case True
    show ?thesis
    proof (cases k)
      case 0
      with True show ?thesis by (intro exI [of _ "[]"]) auto
    next
      case (Suc j)
      with Cons.prems True have "j + 1 < length (split_on P cs)" by simp
      from Cons.IH [OF this] obtain pre b post where
        "cs = pre @ split_on P cs ! j @ b # post" "P b" "length pre = field_offset (split_on P cs) j"
        "split_on P (pre @ split_on P cs ! j) = take (j + 1) (split_on P cs)" by blast
      with True Suc show ?thesis by (intro exI [of _ "c # pre"]) auto
    qed
  next
    case False
    with Cons.prems fs have "k + 1 < length (split_on P cs)" by simp
    from Cons.IH [OF this] obtain pre b post where IH:
      "cs = pre @ split_on P cs ! k @ b # post" "P b" "length pre = field_offset (split_on P cs) k"
      "split_on P (pre @ split_on P cs ! k) = take (k + 1) (split_on P cs)" by blast
    show ?thesis
    proof (cases k)
      case 0
      with IH fs False show ?thesis by (intro exI [of _ "[]"]) auto
    next
      case (Suc j)
      with IH fs False show ?thesis by (intro exI [of _ "c # pre"]) auto
    qed
  qed
qed

lemma field_offset_Suc_nth:
  "k < length fs \<Longrightarrow> field_offset fs (Suc k) = field_offset fs k + length (fs ! k) + 1"
proof (induction k arbitrary: fs)
  case 0
  then show ?case by (cases fs) auto
next
  case (Suc k)
  then show ?case by (cases fs) auto
qed

lemma field_offset_mono: "i \<le> j \<Longrightarrow> field_offset fs i \<le> field_offset fs j"
proof (induction i arbitrary: j fs)
  case (Suc i)
  then obtain j' where "j = Suc j'" by (cases j) auto
  with Suc show ?case by simp
qed simp

subsection \<open>What fieldnumber computes\<close>

lemma cstr_step:
  assumes "c < length buf \<and> buf ! c \<noteq> NUL"
  shows "cstr buf c = buf ! c # cstr buf (Suc c)"
  using assms by (simp add: cstr_def Cons_nth_drop_Suc [symmetric])

lemma cstr_stop: "\<not> (c < length buf \<and> buf ! c \<noteq> NUL) \<Longrightarrow> cstr buf c = []"
  by (cases "c < length buf") (simp_all add: cstr_def Cons_nth_drop_Suc [symmetric])

text \<open>
  The result of the loop from the fields \<open>fs\<close> that are left: it depends on the number of fields and
  on where they start. The two laws are one turn of the loop, at a blank and at another character.
\<close>

definition field_spec :: "string \<Rightarrow> int \<Rightarrow> int \<Rightarrow> nat \<Rightarrow> nat \<Rightarrow> string list \<Rightarrow> string \<times> nat option" where
  "field_spec buf n i s c fs =
     (if nat (n - i) + 1 < length fs
      then (buf[c + field_offset fs (nat (n - i) + 1) - 1 := NUL],
            Some (if i = n then s else c + field_offset fs (nat (n - i))))
      else (buf, None))"

lemma field_spec_blank:
  assumes "i < n"
  shows "field_spec buf n i s c ([] # gs) = field_spec buf n (i + 1) (if i + 1 = n then c + 1 else s) (c + 1) gs"
proof -
  have "nat (n - i) = Suc (nat (n - (i + 1)))" using assms by simp
  with assms show ?thesis by (auto simp: field_spec_def)
qed

lemma field_spec_other:
  assumes "i \<le> n" and "gs \<noteq> []"
  shows "field_spec buf n i s c ((x # hd gs) # tl gs) = field_spec buf n i s (c + 1) gs"
proof (cases "i = n")
  case True
  with assms show ?thesis by (cases gs) (simp_all add: field_spec_def)
next
  case False
  with assms obtain j where "nat (n - i) = Suc j" by (cases "nat (n - i)") auto
  with False assms show ?thesis by (cases gs) (simp_all add: field_spec_def)
qed

lemma fieldnumber_loop_eq:
  assumes "fs = split_on blank (cstr buf c)" and "i \<le> n"
  shows "fieldnumber_loop buf n i s c = field_spec buf n i s c fs"
  using assms
proof (induction buf n i s c arbitrary: fs rule: fieldnumber_loop.induct)
  case (1 buf n i s c)
  let ?gs = "split_on blank (cstr buf (Suc c))"
  consider (stop) "\<not> (c < length buf \<and> buf ! c \<noteq> NUL)"
    | (found) "c < length buf \<and> buf ! c \<noteq> NUL" "blank (buf ! c)" "i = n"
    | (next_field) "c < length buf \<and> buf ! c \<noteq> NUL" "blank (buf ! c)" "i < n"
    | (other) "c < length buf \<and> buf ! c \<noteq> NUL" "\<not> blank (buf ! c)"
    using 1(4) by (meson order_le_less)
  then show ?case
  proof cases
    case stop
    with 1(3) show ?thesis by (subst fieldnumber_loop.simps) (auto simp: cstr_stop field_spec_def)
  next
    case found
    with 1(3) show ?thesis
      by (subst fieldnumber_loop.simps) (simp add: cstr_step field_spec_def)
  next
    case next_field
    then have "fieldnumber_loop buf n i s c = fieldnumber_loop buf n (i + 1) (if i + 1 = n then c + 1 else s) (c + 1)"
      by (subst fieldnumber_loop.simps) simp
    moreover have "fs = [] # ?gs" using next_field 1(3) by (simp add: cstr_step)
    ultimately show ?thesis
      using 1(1) [of ?gs] next_field field_spec_blank [of i n] by simp
  next
    case other
    then have "fieldnumber_loop buf n i s c = fieldnumber_loop buf n i s (c + 1)"
      by (subst fieldnumber_loop.simps) simp
    moreover have "fs = (buf ! c # hd ?gs) # tl ?gs" using other 1(3) by (simp add: cstr_step)
    ultimately show ?thesis
      using 1(2) [of ?gs] 1(4) other field_spec_other [of i n ?gs] by simp
  qed
qed

declare field_offset.simps(2) [simp del]

lemma fieldnumber_eq:
  assumes "fs = split_on blank (cstr buf 0)"
  shows "fieldnumber buf (int n) =
    (if n + 1 < length fs
     then (buf[field_offset fs (n + 1) - 1 := NUL], Some (field_offset fs n))
     else (buf, None))"
  unfolding fieldnumber_def using fieldnumber_loop_eq [OF assms, of 0 "int n"]
  by (cases "n = 0") (auto simp: field_spec_def)

lemma cut_field:
  assumes fs: "fs = split_on blank (cstr buf 0)" and k: "k + 1 < length fs"
  defines "b \<equiv> buf[field_offset fs (k + 1) - 1 := NUL]"
  shows "cstr b (field_offset fs k) = fs ! k"
    and "split_on blank (cstr b 0) = take (k + 1) fs"
proof -
  from split_on_field [OF k [unfolded fs]] obtain pre x post where
    t: "cstr buf 0 = pre @ fs ! k @ x # post" and pre: "length pre = field_offset fs k"
    and sp: "split_on blank (pre @ fs ! k) = take (k + 1) fs"
    unfolding fs [symmetric] by blast
  have q: "field_offset fs (k + 1) - 1 = length pre + length (fs ! k)"
    using k pre by (simp add: field_offset_Suc_nth)
  have "cstr b 0 = pre @ fs ! k"
    using cstr_cut [of buf 0 "pre @ fs ! k" x post] t unfolding b_def q by simp
  with sp show "split_on blank (cstr b 0) = take (k + 1) fs" by simp
  have "cstr buf (length pre) = fs ! k @ x # post"
  proof -
    have "buf = (pre @ fs ! k @ x # post) @ dropWhile (\<lambda>c. c \<noteq> NUL) buf"
      using t by (metis cstr_def drop0 takeWhile_dropWhile_id)
    moreover have "\<forall>c \<in> set (fs ! k @ x # post). c \<noteq> NUL"
      using t unfolding cstr_def by (metis Un_iff drop0 set_append set_takeWhileD)
    ultimately have "drop (length pre) buf = (fs ! k @ x # post) @ dropWhile (\<lambda>c. c \<noteq> NUL) buf"
      by (metis append.assoc append_eq_conv_conj)
    with \<open>\<forall>c \<in> set (fs ! k @ x # post). c \<noteq> NUL\<close> show ?thesis
      by (simp add: cstr_def takeWhile_append2 takeWhile_dropWhile_Nil)
  qed
  from cstr_cut [OF this] show "cstr b (field_offset fs k) = fs ! k"
    unfolding b_def q by (simp add: pre)
qed

text \<open>The three calls of \<open>freezer_mountpoint\<close>, on one line, from the back to the front.\<close>

definition mount_fields :: "string \<Rightarrow> string \<times> nat option \<times> nat option \<times> nat option" where
  "mount_fields line =
     (let (b, options) = fieldnumber line 3;
          (b, fstype) = fieldnumber b 2;
          (b, mountpoint) = fieldnumber b 1
      in (b, options, fstype, mountpoint))"

lemma mount_fields_split:
  assumes "fs = split_on blank (cstr line 0)"
  shows "if 4 < length fs
    then \<exists>b po pf pm. mount_fields line = (b, Some po, Some pf, Some pm) \<and>
      cstr b po = fs ! 3 \<and> cstr b pf = fs ! 2 \<and> cstr b pm = fs ! 1
    else fst (snd (mount_fields line)) = None"
proof (cases "4 < length fs")
  case True
  let ?b1 = "line[field_offset fs 4 - 1 := NUL]"
  let ?b2 = "?b1[field_offset fs 3 - 1 := NUL]"
  let ?b3 = "?b2[field_offset fs 2 - 1 := NUL]"
  let ?f1 = "take 4 fs" and ?f2 = "take 3 fs"
  have off: "field_offset (take m fs) j = field_offset fs j" if "j \<le> m" "m \<le> length fs" for m j
    using that
  proof (induction j arbitrary: m fs)
    case (Suc j)
    then obtain m' x xs where "m = Suc m'" "fs = x # xs" by (cases m; cases fs) auto
    with Suc show ?case by (simp add: field_offset.simps(2))
  qed simp
  have f1: "?f1 = split_on blank (cstr ?b1 0)" and r1: "cstr ?b1 (field_offset fs 3) = fs ! 3"
    using cut_field [OF assms, of 3] True by simp_all
  have f2: "?f2 = split_on blank (cstr ?b2 0)" and r2: "cstr ?b2 (field_offset fs 2) = fs ! 2"
    using cut_field [OF f1, of 2] True by (simp_all add: off min_def)
  have r3: "cstr ?b3 (field_offset fs 1) = fs ! 1"
    using cut_field [OF f2, of 1] True by (simp add: off numeral_2_eq_2)
  have c1: "fieldnumber line 3 = (?b1, Some (field_offset fs 3))"
    using fieldnumber_eq [OF assms, of 3] True by simp
  have c2: "fieldnumber ?b1 2 = (?b2, Some (field_offset fs 2))"
    using fieldnumber_eq [OF f1, of 2] True by (simp add: off)
  have c3: "fieldnumber ?b2 1 = (?b3, Some (field_offset fs 1))"
    using fieldnumber_eq [OF f2, of 1] True by (simp add: off numeral_2_eq_2)
  have p1: "0 < field_offset fs 2" "0 < field_offset fs 3" 
    by (simp_all add: field_offset.simps numeral_2_eq_2 numeral_3_eq_3)
  have le: "field_offset fs 2 \<le> field_offset fs 3" by (rule field_offset_mono) simp
  have "cstr ?b3 (field_offset fs 3) = fs ! 3"
    using r1 p1 le by (simp add: cstr_update_before)
  moreover have "cstr ?b3 (field_offset fs 2) = fs ! 2"
    using r2 p1 by (simp add: cstr_update_before)
  ultimately show ?thesis using r3 True c1 c2 c3 by (simp add: mount_fields_def)
next
  case False
  with fieldnumber_eq [OF assms, of 3] show ?thesis
    by (simp add: mount_fields_def split: prod.split)
qed

text \<open>
  \<^bold>\<open>C5.\<close> The three \<open>fieldnumber\<close> calls of \<open>freezer_mountpoint\<close>, which cut the line in place, read
  fields 3, 2 and 1 of a line of more than four blank-separated fields correctly: after the last
  cut the three pointers still show exactly these fields. On a shorter line the first call
  returns NULL.
\<close>

theorem mount_fields_correct:
  assumes "fs = split_on blank (cstr line 0)"
  shows "if 4 < length fs
    then \<exists>b po pf pm. mount_fields line = (b, Some po, Some pf, Some pm) \<and>
      cstr b po = fs ! 3 \<and> cstr b pf = fs ! 2 \<and> cstr b pm = fs ! 1
    else fst (snd (mount_fields line)) = None"
  using assms by (rule mount_fields_split)

theorem mount_fields_correct_witness:
  "\<exists>b po pf pm. mount_fields ''none /cg cgroup rw,freezer 0 0'' = (b, Some po, Some pf, Some pm) \<and>
    cstr b po = ''rw,freezer'' \<and> cstr b pf = ''cgroup'' \<and> cstr b pm = ''/cg''"
proof -
  let ?l = "''none /cg cgroup rw,freezer 0 0''"
  have "[''none'', ''/cg'', ''cgroup'', ''rw,freezer'', ''0'', ''0''] = split_on blank (cstr ?l 0)"
    by (simp add: cstr_def NUL_def blank_def split_on.simps(2) del: split_on_Cons)
  from mount_fields_correct [OF this] show ?thesis by simp
qed

section \<open>mount_entry_has_option\<close>

definition comma :: "char \<Rightarrow> bool" where
  "comma c \<longleftrightarrow> c = CHR '',''"

text \<open>
  \<open>strtok_r\<close> with the delimiter ",": skip delimiters, take the token, and leave the save
  pointer behind the delimiter that ends it.
\<close>

definition strtok :: "string \<Rightarrow> (string \<times> string) option" where
  "strtok rest =
     (let r = dropWhile comma rest
      in if r = [] then None
         else Some (takeWhile (Not \<circ> comma) r, drop 1 (dropWhile (Not \<circ> comma) r)))"

lemma strtok_shorter: "strtok rest = Some (tok, rest') \<Longrightarrow> length rest' < length rest"
proof -
  assume a: "strtok rest = Some (tok, rest')"
  then have r: "dropWhile comma rest \<noteq> []" "rest' = drop 1 (dropWhile (Not \<circ> comma) (dropWhile comma rest))"
    by (auto simp: strtok_def Let_def split: if_splits)
  have "length rest' \<le> length (dropWhile comma rest) - 1"
    using r(2) length_dropWhile_le [of "Not \<circ> comma" "dropWhile comma rest"] by simp
  also have "\<dots> < length rest"
    using r(1) length_dropWhile_le [of comma rest] by (cases "dropWhile comma rest") auto
  finally show ?thesis .
qed

text \<open>The token on which the loop of \<open>mount_entry_has_option\<close> stops.\<close>

function scan_option :: "string \<Rightarrow> string \<Rightarrow> string option" where
  "scan_option which rest =
     (case strtok rest of
        None \<Rightarrow> None
      | Some (tmp, rest') \<Rightarrow>
          if length tmp \<noteq> length which \<and> tmp \<noteq> which then scan_option which rest'
          else Some tmp)"
  by pat_completeness auto
termination
  by (relation "measure (\<lambda>(which, rest). length rest)") (auto dest: strtok_shorter)

declare scan_option.simps [simp del]

text \<open>
  What is left of \<open>entry\<close> for a later reader: the first call of \<open>strtok_r\<close> writes a NUL behind
  the first token.
\<close>

definition strtok_view :: "string \<Rightarrow> string" where
  "strtok_view entry =
     takeWhile comma entry @ takeWhile (Not \<circ> comma) (dropWhile comma entry)"

definition mount_entry_has_option :: "string \<Rightarrow> string \<Rightarrow> int \<times> string" where
  "mount_entry_has_option entry which =
     ((case scan_option which entry of
         None \<Rightarrow> 0
       | Some tmp \<Rightarrow>
           if length which \<noteq> length tmp then 0 else if tmp \<noteq> which then 0 else 1),
      strtok_view entry)"

subsection \<open>What it tests\<close>

fun options_of :: "string \<Rightarrow> string list" where
  "options_of entry = filter (\<lambda>t. t \<noteq> []) (split_on comma entry)"

declare options_of.simps [simp del]

lemma options_of_comma: "comma c \<Longrightarrow> options_of (c # cs) = options_of cs"
  by (simp add: options_of.simps)

lemma options_of_dropWhile: "options_of (dropWhile comma entry) = options_of entry"
  by (induction entry) (auto simp: options_of_comma)

lemma split_on_token:
  "split_on comma r =
    takeWhile (Not \<circ> comma) r #
      (case dropWhile (Not \<circ> comma) r of [] \<Rightarrow> [] | _ # r' \<Rightarrow> split_on comma r')"
  by (induction r) (auto split: list.split)

lemma options_of_strtok:
  "options_of entry = (case strtok entry of None \<Rightarrow> [] | Some (tok, rest) \<Rightarrow> tok # options_of rest)"
proof (cases "dropWhile comma entry")
  case Nil
  then have "options_of entry = options_of []" by (metis options_of_dropWhile)
  with Nil show ?thesis by (simp add: strtok_def options_of.simps [of "[]"])
next
  case (Cons c r)
  then have "\<not> comma c" by (metis dropWhile_eq_Cons_conv)
  let ?d = "c # r"
  have tok: "takeWhile (Not \<circ> comma) ?d \<noteq> []" using \<open>\<not> comma c\<close> by simp
  have "options_of ?d = takeWhile (Not \<circ> comma) ?d #
      options_of (drop 1 (dropWhile (Not \<circ> comma) ?d))"
    using tok unfolding options_of.simps split_on_token [of ?d]
    by (cases "dropWhile (Not \<circ> comma) ?d") simp_all
  moreover have "options_of entry = options_of ?d" using Cons by (metis options_of_dropWhile)
  ultimately show ?thesis using Cons by (simp add: strtok_def)
qed

lemma find_holds: "find P xs = Some x \<Longrightarrow> P x \<and> x \<in> set xs"
  by (auto simp: find_Some_iff)

lemma scan_option_eq: "scan_option which rest = find (\<lambda>t. length t = length which) (options_of rest)"
proof (induction which rest rule: scan_option.induct)
  case (1 which rest)
  then show ?case
    by (subst scan_option.simps, subst options_of_strtok) (auto split: option.split)
qed

text \<open>
  \<^bold>\<open>C6.\<close> \<open>mount_entry_has_option(entry, which)\<close> compares \<open>which\<close> only with the first option
  that has its length: it answers 1 exactly when that option is \<open>which\<close>. So an answer 1 is
  always right, and an answer 0 is wrong whenever another option of the same length comes first.
\<close>

theorem mount_entry_has_option_first_of_length:
  "fst (mount_entry_has_option entry which) =
     (case find (\<lambda>t. length t = length which) (options_of entry) of
        None \<Rightarrow> 0 | Some t \<Rightarrow> if t = which then 1 else 0)"
  by (auto simp: mount_entry_has_option_def scan_option_eq dest: find_holds split: option.split)

section \<open>freezer_mountpoint and move_to_cgroup\<close>

definition MAXPATH :: nat where "MAXPATH = 200"
definition MAXLINE :: nat where "MAXLINE = 400"

definition mounts_body :: "int \<Rightarrow> unit \<Rightarrow> ('g, unit + unit) prog" where
  "mounts_body fmounts _ =
     bind (sys (Stdio (Fgets fmounts MAXLINE))) (\<lambda>r.
     if rv r = 0 then return (Inr ())
     else case mount_fields (rdat r) of
       (b, Some options, Some fstype, Some mountpoint) \<Rightarrow>
         (if cstr b fstype \<noteq> ''cgroup'' then return (Inl ())
          else case mount_entry_has_option (cstr b options) ''freezer'' of (has, options1) \<Rightarrow>
            if has = 0 then return (Inl ())
            else if fst (mount_entry_has_option options1 ''ns'') \<noteq> 0
            then andthen (emit (Stdio (Printf 348 []))) (do_exit 1)
            else bind (sysv (Proc (Malloc (int (length (cstr b mountpoint) + 1))))) (\<lambda>p.
              if p = 0 then crash
              else andthen (modify (freezer_mnt_update (\<lambda>_. Some (cstr b mountpoint))))
                     (return (Inr ()))))
     | _ \<Rightarrow> andthen (emit (Stdio (Printf 340 []))) (do_exit 1))"

definition freezer_mountpoint :: "('g, string option) prog" where
  "freezer_mountpoint =
     bind (gets freezer_mnt) (\<lambda>m.
     if m \<noteq> None then return m
     else bind (sysv (Stdio (Fopen ''/proc/mounts'' ''r''))) (\<lambda>fmounts.
     if fmounts < 0 then return None
     else bind (loop (mounts_body fmounts) ()) (\<lambda>_.
     andthen (emit (Stdio (Fclose fmounts))) (gets freezer_mnt))))"

text \<open>Printing a null string with %s is undefined.\<close>

definition create_cgroup :: "string \<Rightarrow> ('g, unit) prog" where
  "create_cgroup grp =
     bind freezer_mountpoint (\<lambda>m.
     case m of
       None \<Rightarrow> crash
     | Some mp \<Rightarrow> emit (Unistd (Mkdir (snprintf MAXPATH (mp @ ''/'' @ grp)) (7 * 64 + 5 * 8 + 5))))"

definition move_to_cgroup :: "string \<Rightarrow> string \<Rightarrow> int \<Rightarrow> ('g, int) prog" where
  "move_to_cgroup subsys grp pid =
     bind (access CKPT_DRY_RUN) (\<lambda>rc.
     if rc = 0 then return 1
     else if subsys \<noteq> ''freezer'' then return 0
     else bind freezer_mountpoint (\<lambda>m.
     if m = None then andthen (emit (Stdio (Printf 383 []))) (do_exit 1)
     else andthen (create_cgroup grp) (
     bind freezer_mountpoint (\<lambda>m.
     case m of
       None \<Rightarrow> crash
     | Some mp \<Rightarrow>
         let fname = snprintf MAXPATH (mp @ ''/'' @ grp @ ''/tasks'') in
         bind (sysv (Stdio (Fopen fname ''w''))) (\<lambda>fout.
         if fout < 0 then andthen (emit (Stdio (Printf 391 [S fname]))) (return 0)
         else bind (sysv (Stdio (FprintfTo fout 394 [I pid]))) (\<lambda>rc.
         if rc < 0
         then andthen (block [emit (Stdio (Printf 395 [])), emit (Stdio (Fclose fout))]) (return 0)
         else andthen (block [emit (Stdio (Fflush fout)), emit (Stdio (Fclose fout))])
                (return 1)))))))"

lemma consuming_mounts_body: "consuming (mounts_body f u)"
  unfolding mounts_body_def andthen_def
  by (rule consuming_bind [OF consuming_sys])
    (auto intro!: shrink_intros split: prod.split option.split)

interpretation mb: script_loop "mounts_body f"
  for f
  by (rule script_loopI) (rule consuming_mounts_body)

text \<open>The second look at the options sees only the first of them.\<close>

lemma options_of_strtok_view: "options_of (strtok_view entry) = take 1 (options_of entry)"
proof -
  have plain: "options_of t = (if t = [] then [] else [t])" if "\<forall>c \<in> set t. \<not> comma c" for t
  proof -
    have "split_on comma t = [t]" using that by (induction t) auto
    then show ?thesis by (simp add: options_of.simps)
  qed
  have skip: "options_of (xs @ t) = options_of t" if "\<forall>c \<in> set xs. comma c" for xs t
    using that by (induction xs) (simp_all add: options_of_comma)
  let ?t = "takeWhile (Not \<circ> comma) (dropWhile comma entry)"
  have "options_of (strtok_view entry) = options_of ?t"
    unfolding strtok_view_def by (rule skip) (auto dest: set_takeWhileD)
  also have "\<dots> = (if ?t = [] then [] else [?t])"
    by (rule plain) (auto dest: set_takeWhileD)
  also have "\<dots> = take 1 (options_of entry)"
  proof (cases "dropWhile comma entry")
    case Nil
    then show ?thesis unfolding options_of_strtok [of entry] strtok_def Let_def Nil by simp
  next
    case (Cons c r)
    then have "\<not> comma c" by (metis dropWhile_eq_Cons_conv)
    with Cons show ?thesis by (simp add: options_of_strtok [of entry] strtok_def)
  qed
  finally show ?thesis .
qed

section \<open>Which mount is found\<close>

abbreviation line_fields :: "resp \<Rightarrow> string list" where
  "line_fields r \<equiv> split_on blank (cstr (rdat r) 0)"

definition finds_freezer :: "string \<Rightarrow> bool" where
  "finds_freezer opts \<longleftrightarrow> find (\<lambda>t. length t = length ''freezer'') (options_of opts) = Some ''freezer''"

lemma has_freezer: "fst (mount_entry_has_option opts ''freezer'') = (if finds_freezer opts then 1 else 0)"
  by (auto simp: mount_entry_has_option_def scan_option_eq finds_freezer_def
      dest: find_holds split: option.split)

lemma has_ns_after:
  "fst (mount_entry_has_option (snd (mount_entry_has_option opts w)) ''ns'') =
     (if take 1 (options_of opts) = [''ns''] then 1 else 0)"
  by (cases "options_of opts")
    (auto simp: mount_entry_has_option_def scan_option_eq options_of_strtok_view)

text \<open>A line that is read and passed over; the line that ends the search.\<close>

definition passed_over :: "resp \<Rightarrow> bool" where
  "passed_over r \<longleftrightarrow> rv r \<noteq> 0 \<and> 4 < length (line_fields r) \<and>
     (line_fields r ! 2 \<noteq> ''cgroup'' \<or> \<not> finds_freezer (line_fields r ! 3))"

definition is_freezer_line :: "resp \<Rightarrow> bool" where
  "is_freezer_line r \<longleftrightarrow> rv r \<noteq> 0 \<and> 4 < length (line_fields r) \<and>
     line_fields r ! 2 = ''cgroup'' \<and> finds_freezer (line_fields r ! 3)"

lemma mount_fields_line:
  assumes "4 < length (line_fields r)"
  obtains b po pf pm where "mount_fields (rdat r) = (b, Some po, Some pf, Some pm)"
    "cstr b po = line_fields r ! 3" "cstr b pf = line_fields r ! 2" "cstr b pm = line_fields r ! 1"
proof -
  from assms mount_fields_split [OF refl, of "rdat r"] that show ?thesis by auto
qed

lemma mounts_body_passes:
  assumes "script s = r # rest" and "passed_over r"
  shows "mounts_body f u s = Done (Inl ()) (adv s [Got (Stdio (Fgets f MAXLINE)) r] rest (er r))"
proof -
  from assms(2) have "4 < length (line_fields r)" by (simp add: passed_over_def)
  then obtain b po pf pm where "mount_fields (rdat r) = (b, Some po, Some pf, Some pm)"
    "cstr b po = line_fields r ! 3" "cstr b pf = line_fields r ! 2" "cstr b pm = line_fields r ! 1"
    by (rule mount_fields_line)
  moreover have "fst (mount_entry_has_option (line_fields r ! 3) ''freezer'') =
      (if finds_freezer (line_fields r ! 3) then 1 else 0)" by (rule has_freezer)
  ultimately show ?thesis
    using assms by (auto simp: mounts_body_def passed_over_def prog_simps split: prod.split)
qed

text \<open>What \<open>do_exit\<close> does with the log before it leaves.\<close>

definition log_closing :: "int option \<Rightarrow> event list" where
  "log_closing fp = (case fp of None \<Rightarrow> [] | Some f \<Rightarrow> [Did (Stdio (Fflush f)), Did (Stdio (Fclose f))])"

lemma do_exit_runs: "do_exit c s = Exited c (adv s (log_closing (logfp s)) (script s) (errno s))"
  by (auto simp: do_exit_def log_closing_def prog_simps split: option.split)

text \<open>The outcome of the search at the line \<open>r\<close> with the answer \<open>m\<close> to \<open>malloc\<close>.\<close>

definition ns_first :: "resp \<Rightarrow> bool" where
  "ns_first r \<longleftrightarrow> take 1 (options_of (line_fields r ! 3)) = [''ns'']"

definition at_freezer_line :: "resp \<Rightarrow> resp \<Rightarrow> resp list \<Rightarrow> 'a \<Rightarrow> 'g proc \<Rightarrow> ('a, 'g proc) outcome" where
  "at_freezer_line r m rest a s =
     (if ns_first r
      then Exited 1 (adv s (Did (Stdio (Printf 348 [])) # log_closing (logfp s)) (m # rest) (er r))
      else if rv m = 0
      then Crashed (adv s [Got (Proc (Malloc (int (length (line_fields r ! 1) + 1)))) m] rest (er m))
      else Done a (adv (s\<lparr>freezer_mnt := Some (line_fields r ! 1)\<rparr>)
        [Got (Proc (Malloc (int (length (line_fields r ! 1) + 1)))) m] rest (er m)))"

lemma mounts_body_at_line:
  assumes "script s = r # m # rest" and "is_freezer_line r"
  shows "mounts_body f u s =
    at_freezer_line r m rest (Inr ()) (adv s [Got (Stdio (Fgets f MAXLINE)) r] (m # rest) (er r))"
proof -
  from assms(2) have "4 < length (line_fields r)" by (simp add: is_freezer_line_def)
  then obtain b po pf pm where fields: "mount_fields (rdat r) = (b, Some po, Some pf, Some pm)"
    "cstr b po = line_fields r ! 3" "cstr b pf = line_fields r ! 2" "cstr b pm = line_fields r ! 1"
    by (rule mount_fields_line)
  obtain h v where hv: "mount_entry_has_option (line_fields r ! 3) ''freezer'' = (h, v)" by fastforce
  have h: "h = 1" using has_freezer [of "line_fields r ! 3"] hv assms(2)
    by (simp add: is_freezer_line_def)
  have v: "fst (mount_entry_has_option v ''ns'') = (if ns_first r then 1 else 0)"
    using has_ns_after [of "line_fields r ! 3" "''freezer''"] hv by (simp add: ns_first_def)
  show ?thesis
    using assms fields hv h v
    by (simp add: mounts_body_def is_freezer_line_def at_freezer_line_def do_exit_runs prog_simps)
qed

lemma mounts_loop_at_line:
  assumes "script s = ls @ r # m # rest" and "\<forall>l \<in> set ls. passed_over l" and "is_freezer_line r"
  shows "loop (mounts_body f) () s =
    at_freezer_line r m rest () (adv s (map (Got (Stdio (Fgets f MAXLINE))) (ls @ [r])) (m # rest) (er r))"
  using assms(1,2)
proof (induction ls arbitrary: s)
  case Nil
  with mounts_body_at_line [OF _ assms(3), of s m rest f "()"] show ?case
    by (subst mb.unfold) (simp add: bind_def prog_simps at_freezer_line_def)
next
  case (Cons l ls)
  with mounts_body_passes [of s l "ls @ r # m # rest" f "()"] show ?case
    by (subst mb.unfold) (simp add: bind_def)
qed

text \<open>
  \<^bold>\<open>C7.\<close> \<open>freezer_mountpoint\<close> reads past any number of other well-formed lines to the first
  cgroup line whose first seven-letter option is \<open>freezer\<close>, and decides there. When the first
  option of that line is \<open>ns\<close> it complains and ends the process with status 1. Otherwise it
  returns, and caches, the mount point of the line (or dies in \<open>strncpy\<close> when \<open>malloc\<close> failed). So
  the check that no \<open>ns\<close> subsystem is mounted with the freezer sees the first option only, because
  the first scan has already cut the option string: with \<open>ns\<close> anywhere else the mount is accepted.
\<close>

theorem freezer_mountpoint_finds:
  assumes "freezer_mnt s = None" and "script s = fo # ls @ r # m # rest" and "0 \<le> rv fo"
    and "\<forall>l \<in> set ls. passed_over l" and "is_freezer_line r"
  shows "freezer_mountpoint s =
    (let f = rv fo; mp = line_fields r ! 1;
         looked = Got (Stdio (Fopen ''/proc/mounts'' ''r'')) fo # map (Got (Stdio (Fgets f MAXLINE))) (ls @ [r]);
         alloc = Got (Proc (Malloc (int (length mp + 1)))) m in
     if take 1 (options_of (line_fields r ! 3)) = [''ns'']
     then Exited 1 (adv s (looked @ Did (Stdio (Printf 348 [])) # log_closing (logfp s)) (m # rest) (er r))
     else if rv m = 0 then Crashed (adv s (looked @ [alloc]) rest (er m))
     else Done (Some mp) (adv (s\<lparr>freezer_mnt := Some mp\<rparr>) (looked @ [alloc, Did (Stdio (Fclose f))]) rest (er m)))"
  using assms
  by (simp add: freezer_mountpoint_def prog_simps bind_def [of "loop _ _"] at_freezer_line_def ns_first_def
      mounts_loop_at_line [of _ ls r m rest] Let_def)

definition line_answer :: "string \<Rightarrow> resp" where
  "line_answer l = \<lparr>rv = 1, er = 0, rdat = l, outs = []\<rparr>"

lemma line_answer_sel [simp]:
  "rv (line_answer l) = 1" "rdat (line_answer l) = l" "er (line_answer l) = 0"
  by (simp_all add: line_answer_def)

lemma example_lines:
  "line_fields (line_answer ''n /cg cgroup rw,freezer,ns 0 0'') =
     [''n'', ''/cg'', ''cgroup'', ''rw,freezer,ns'', ''0'', ''0'']"
  "options_of ''rw,freezer,ns'' = [''rw'', ''freezer'', ''ns'']"
  "line_fields (line_answer ''n /cg cgroup ns,freezer 0 0'') =
     [''n'', ''/cg'', ''cgroup'', ''ns,freezer'', ''0'', ''0'']"
  "options_of ''ns,freezer'' = [''ns'', ''freezer'']"
  by (simp_all add: cstr_def NUL_def blank_def comma_def options_of.simps split_on.simps(2)
      del: split_on_Cons)

theorem freezer_mountpoint_finds_witness:
  "freezer_mountpoint (start [ok 5, line_answer ''n /cg cgroup rw,freezer,ns 0 0'', ok 77] None ()) =
    Done (Some ''/cg'') (adv ((start [ok 5, line_answer ''n /cg cgroup rw,freezer,ns 0 0'', ok 77] None ())
      \<lparr>freezer_mnt := Some ''/cg''\<rparr>)
      [Got (Stdio (Fopen ''/proc/mounts'' ''r'')) (ok 5),
       Got (Stdio (Fgets 5 MAXLINE)) (line_answer ''n /cg cgroup rw,freezer,ns 0 0''),
       Got (Proc (Malloc 4)) (ok 77), Did (Stdio (Fclose 5))] [] 0) \<and>
   freezer_mountpoint (start [ok 5, line_answer ''n /cg cgroup ns,freezer 0 0'', ok 77] (Some 8) ()) =
    Exited 1 (adv (start [ok 5, line_answer ''n /cg cgroup ns,freezer 0 0'', ok 77] (Some 8) ())
      [Got (Stdio (Fopen ''/proc/mounts'' ''r'')) (ok 5),
       Got (Stdio (Fgets 5 MAXLINE)) (line_answer ''n /cg cgroup ns,freezer 0 0''),
       Did (Stdio (Printf 348 [])), Did (Stdio (Fflush 8)), Did (Stdio (Fclose 8))] [ok 77] 0)"
proof
  let ?r = "line_answer ''n /cg cgroup rw,freezer,ns 0 0''"
  have f: "line_fields ?r ! 1 = ''/cg''" "line_fields ?r ! 2 = ''cgroup''"
    "line_fields ?r ! 3 = ''rw,freezer,ns''" "4 < length (line_fields ?r)"
    unfolding example_lines by simp_all
  have l: "is_freezer_line ?r"
    using f by (simp add: is_freezer_line_def finds_freezer_def example_lines(2))
  show "freezer_mountpoint (start [ok 5, ?r, ok 77] None ()) =
    Done (Some ''/cg'') (adv ((start [ok 5, ?r, ok 77] None ()) \<lparr>freezer_mnt := Some ''/cg''\<rparr>)
      [Got (Stdio (Fopen ''/proc/mounts'' ''r'')) (ok 5), Got (Stdio (Fgets 5 MAXLINE)) ?r,
       Got (Proc (Malloc 4)) (ok 77), Did (Stdio (Fclose 5))] [] 0)"
    using freezer_mountpoint_finds [where fo = "ok 5" and ls = "[]" and r = ?r and m = "ok 77" and rest = "[]"
        and s = "start [ok 5, ?r, ok 77] None ()", OF _ _ _ _ l,
        unfolded f(1,3) example_lines(2) Let_def]
    by simp
next
  let ?r = "line_answer ''n /cg cgroup ns,freezer 0 0''"
  have f: "line_fields ?r ! 1 = ''/cg''" "line_fields ?r ! 2 = ''cgroup''"
    "line_fields ?r ! 3 = ''ns,freezer''" "4 < length (line_fields ?r)"
    unfolding example_lines by simp_all
  have l: "is_freezer_line ?r"
    using f by (simp add: is_freezer_line_def finds_freezer_def example_lines(4))
  show "freezer_mountpoint (start [ok 5, ?r, ok 77] (Some 8) ()) =
    Exited 1 (adv (start [ok 5, ?r, ok 77] (Some 8) ())
      [Got (Stdio (Fopen ''/proc/mounts'' ''r'')) (ok 5), Got (Stdio (Fgets 5 MAXLINE)) ?r,
       Did (Stdio (Printf 348 [])), Did (Stdio (Fflush 8)), Did (Stdio (Fclose 8))] [ok 77] 0)"
    using freezer_mountpoint_finds [where fo = "ok 5" and ls = "[]" and r = ?r and m = "ok 77" and rest = "[]"
        and s = "start [ok 5, ?r, ok 77] (Some 8) ()", OF _ _ _ _ l,
        unfolded f(1,3) example_lines(4) Let_def]
    by (simp add: log_closing_def)
qed

section \<open>Entering the cgroup\<close>

lemma freezer_mountpoint_cached:
  "freezer_mnt s = Some mp \<Longrightarrow> bind freezer_mountpoint k s = k (Some mp) s"
  by (simp add: freezer_mountpoint_def prog_simps)

lemma freezer_mountpoint_result:
  "freezer_mountpoint s = Done m t \<Longrightarrow> freezer_mnt t = m"
  by (auto simp: freezer_mountpoint_def prog_simps bind_def [of "loop _ _"]
      split: list.splits if_splits outcome.splits)

lemma appending_mounts_body: "appending (mounts_body f u)"
  unfolding mounts_body_def
  by (intro append_intros) (auto intro!: append_intros split: prod.split option.split)

lemma appending_freezer_mountpoint [append_intros]: "appending freezer_mountpoint"
  unfolding freezer_mountpoint_def
  by (intro append_intros mb.appending_loop appending_mounts_body)

text \<open>The part of \<open>move_to_cgroup\<close> after the dry-run test.\<close>

definition entering :: "string \<Rightarrow> string \<Rightarrow> int \<Rightarrow> resp \<Rightarrow> resp \<Rightarrow> event list" where
  "entering mp grp pid fo w =
     [Did (Unistd (Mkdir (snprintf MAXPATH (mp @ ''/'' @ grp)) (7 * 64 + 5 * 8 + 5))),
      Got (Stdio (Fopen (snprintf MAXPATH (mp @ ''/'' @ grp @ ''/tasks'')) ''w'')) fo,
      Got (Stdio (FprintfTo (rv fo) 394 [I pid])) w,
      Did (Stdio (Fflush (rv fo))), Did (Stdio (Fclose (rv fo)))]"

lemma move_to_cgroup_writes:
  assumes "move_to_cgroup ''freezer'' grp pid s = Done 1 t" and "script s = d # rs" and "rv d \<noteq> 0"
  obtains mp fo w u where "freezer_mnt t = Some mp" and "0 \<le> rv fo" and "0 \<le> rv w"
    and "freezer_mountpoint (adv s [Got_access CKPT_DRY_RUN d] rs (er d)) = Done (Some mp) u"
    and "trace t = trace u @ entering mp grp pid fo w"
proof -
  let ?s1 = "adv s [Got_access CKPT_DRY_RUN d] rs (er d)"
  from assms obtain m u where u: "freezer_mountpoint ?s1 = Done m u"
    by (auto simp: move_to_cgroup_def prog_simps bind_def [of freezer_mountpoint] split: outcome.splits)
  have m: "freezer_mnt u = m" using u by (rule freezer_mountpoint_result)
  show ?thesis
  proof (cases m)
    case None
    with assms u show ?thesis
      by (auto simp: move_to_cgroup_def do_exit_def prog_simps bind_def [of freezer_mountpoint _ ?s1] split: option.splits)
  next
    case (Some mp)
    from assms u Some m obtain fo w where "0 \<le> rv fo" "0 \<le> rv w" "freezer_mnt t = Some mp"
      "trace t = trace u @ entering mp grp pid fo w"
      by (auto simp: move_to_cgroup_def create_cgroup_def prog_simps freezer_mountpoint_cached entering_def
          bind_def [of freezer_mountpoint _ ?s1] Let_def split: list.splits if_splits)
    with u Some that show ?thesis by blast
  qed
qed

text \<open>
  \<^bold>\<open>C8.\<close> \<open>move_to_cgroup\<close> reports success only in a dry run, where it does nothing else, or for
  the freezer subsystem after exactly this: it found the freezer's mount point, asked for the
  group's directory, opened the file \<open>tasks\<close> of the group for writing (the path cut to 199
  characters by \<open>snprintf\<close>), had the process id accepted by that stream, and flushed and closed the
  stream. The answers to \<open>fflush\<close> and \<open>fclose\<close>, where the kernel first sees the id and may refuse it,
  play no part in the report.
\<close>

theorem move_to_cgroup_success:
  assumes "move_to_cgroup subsys grp pid s = Done 1 t"
  shows "\<exists>d rs. script s = d # rs \<and>
    (rv d = 0 \<and> since s t = [Got_access CKPT_DRY_RUN d] \<or>
     rv d \<noteq> 0 \<and> subsys = ''freezer'' \<and>
     (\<exists>mp u fo w.
        freezer_mountpoint (adv s [Got_access CKPT_DRY_RUN d] rs (er d)) = Done (Some mp) u \<and>
        freezer_mnt t = Some mp \<and> 0 \<le> rv fo \<and> 0 \<le> rv w \<and>
        since s t = since s u @
         [Did (Unistd (Mkdir (snprintf MAXPATH (mp @ ''/'' @ grp)) (7 * 64 + 5 * 8 + 5))),
          Got (Stdio (Fopen (snprintf MAXPATH (mp @ ''/'' @ grp @ ''/tasks'')) ''w'')) fo,
          Got (Stdio (FprintfTo (rv fo) 394 [I pid])) w,
          Did (Stdio (Fflush (rv fo))), Did (Stdio (Fclose (rv fo)))]))"
proof -
  from assms obtain d rs where d: "script s = d # rs"
    by (auto simp: move_to_cgroup_def prog_simps split: list.splits)
  show ?thesis
  proof (cases "rv d = 0")
    case True
    with assms d show ?thesis by (auto simp: move_to_cgroup_def prog_simps)
  next
    case False
    let ?s1 = "adv s [Got_access CKPT_DRY_RUN d] rs (er d)"
    from False assms d have f: "subsys = ''freezer''"
      by (auto simp: move_to_cgroup_def prog_simps split: if_splits)
    with assms d False obtain mp u fo w where w: "freezer_mnt t = Some mp" "0 \<le> rv fo" "0 \<le> rv w"
      "freezer_mountpoint ?s1 = Done (Some mp) u" "trace t = trace u @ entering mp grp pid fo w"
      by (metis move_to_cgroup_writes)
    have "grows ?s1 u" using w(4) by (rule appending_Done [OF appending_freezer_mountpoint])
    then have "since s t = since s u @ entering mp grp pid fo w"
      using w(5) by (auto simp: grows_def since_def)
    with w f False d show ?thesis unfolding entering_def by blast
  qed
qed

theorem move_to_cgroup_success_witness:
  "\<exists>t. move_to_cgroup ''freezer'' ''1'' 9 ((start [failed ENOENT, ok 6, ok 2] None ())
      \<lparr>freezer_mnt := Some ''/cg''\<rparr>) = Done 1 t \<and>
    (\<exists>fo w. 0 \<le> rv fo \<and> 0 \<le> rv w \<and>
      trace t = [Got_access CKPT_DRY_RUN (failed ENOENT), Did (Unistd (Mkdir ''/cg/1'' 493)),
       Got (Stdio (Fopen ''/cg/1/tasks'' ''w'')) fo, Got (Stdio (FprintfTo (rv fo) 394 [I 9])) w,
       Did (Stdio (Fflush (rv fo))), Did (Stdio (Fclose (rv fo)))])"
proof -
  let ?s = "(start [failed ENOENT, ok 6, ok 2] None ())\<lparr>freezer_mnt := Some ''/cg''\<rparr>"
  obtain t where t: "move_to_cgroup ''freezer'' ''1'' 9 ?s = Done 1 t" and mp: "freezer_mnt t = Some ''/cg''"
    by (simp add: move_to_cgroup_def create_cgroup_def freezer_mountpoint_cached prog_simps Let_def)
  have f: "snprintf MAXPATH (''/cg'' @ ''/'' @ ''1'' @ ''/tasks'') = ''/cg/1/tasks''"
    "snprintf MAXPATH (''/cg'' @ ''/'' @ ''1'') = ''/cg/1''"
    by (simp_all add: snprintf_def MAXPATH_def)
  have e: "since ?s t = trace t" by (simp add: since_def)
  have c: "freezer_mountpoint (adv ?s es rs e) = Done (Some ''/cg'') (adv ?s es rs e)" for es rs e
    by (simp add: freezer_mountpoint_def prog_simps)
  show ?thesis
    using move_to_cgroup_success [OF t, unfolded e mp option.inject c] t f
    by (auto simp del: append.simps simp: since_def)
qed

end
