(* ===== verification/Libcrtest_Files.thy ===== *)
theory Libcrtest_Files
  imports Kernel
begin

text \<open>
  The file helpers of libcrtest/common.c: \<open>close_all_fds\<close>, \<open>data_compare\<close> and \<open>copy_data\<close>,
  with the records of libcrtest.h that the latter copy. A record in memory is the string of
  its 260 bytes: a little-endian int and 256 characters.
\<close>

section \<open>Records\<close>

definition sizeof_record :: nat where "sizeof_record = 260"

lemma sizeof_record_pos [simp]: "0 < sizeof_record"
  by (simp add: sizeof_record_def)

definition rec_id :: "string \<Rightarrow> int" where
  "rec_id b = to_int32 (\<Sum>k \<leftarrow> [0..<4]. of_char (b ! k) * 256 ^ k)"

definition rec_data :: "string \<Rightarrow> string" where
  "rec_data b = cstr b 4"

text \<open>A record set to zero and then filled by an \<open>fread\<close>, which may store fewer bytes.\<close>

definition rec_read :: "resp \<Rightarrow> string" where
  "rec_read r = take sizeof_record (rdat r @ replicate sizeof_record NUL)"

section \<open>Operations\<close>

definition close_fds_body :: "int \<Rightarrow> unit \<Rightarrow> ('g, unit + unit) prog" where
  "close_fds_body dir _ =
     bind (sys (Dirent (Readdir dir))) (\<lambda>dent.
     if rv dent < 0 then return (Inr ())
     else case scan_d 12 (rdat dent) of
         None \<Rightarrow> return (Inl ())
       | Some fd \<Rightarrow> bind (gets logfp) (\<lambda>lf.
           if lf = Some fd \<or> dir = fd then return (Inl ())
           else andthen (emit (Unistd (Close fd))) (return (Inl ()))))"

definition close_all_fds :: "('g, unit) prog" where
  "close_all_fds =
     bind (sysv (Dirent (Opendir ''/proc/self/fd''))) (\<lambda>dir.
     if dir < 0 then andthen (emit (Stdio (Perror 160))) (do_exit 1)
     else andthen (loop (close_fds_body dir) ()) (emit (Dirent (Closedir dir))))"

definition data_compare_body :: "int \<Rightarrow> int \<Rightarrow> int \<Rightarrow> ('g, int + int) prog" where
  "data_compare_body srcfp destfp num0 =
     (let num = num0 + 1 in
      andthen (block [fprintf 195 [I num], flush_log]) (
      bind (sys (Stdio (Fread srcfp sizeof_record))) (\<lambda>r1.
      bind (sys (Stdio (Fread destfp sizeof_record))) (\<lambda>r2.
      if rv r1 \<noteq> rv r2
      then andthen (block [fprintf 205 [I (rv r1), I (er r1), I (rv r2), I (er r2)], flush_log])
             (return (Inr 1))
      else if rec_read r1 \<noteq> rec_read r2
      then andthen (block [fprintf 213 [], flush_log]) (return (Inr 1))
      else if rv r1 = 0 then return (Inr 0)
      else return (Inl num)))))"

definition data_compare :: "int \<Rightarrow> int \<Rightarrow> ('g, int) prog" where
  "data_compare srcfp destfp =
     andthen (block [emit (Stdio (Rewind srcfp)), emit (Stdio (Rewind destfp))])
       (loop (data_compare_body srcfp destfp) 0)"

definition copy_body :: "int \<Rightarrow> int \<Rightarrow> int \<Rightarrow> ('g, int + unit) prog" where
  "copy_body srcfp destfp num =
     bind (sys (Stdio (Fread srcfp sizeof_record))) (\<lambda>r.
     if rv r = 0 then
       bind (sysv (Stdio (Feof srcfp))) (\<lambda>eof.
       andthen
         (if eof \<noteq> 0 then block [fprintf 251 [I num], do_sync destfp]
          else bind (sysv (Stdio (Ferror srcfp))) (\<lambda>e. fprintf 254 [I num, I e]))
         (return (Inr ())))
     else
       andthen (block [fprintf 260 [I num, I (rec_id (rec_read r)), S (rec_data (rec_read r))], flush_log]) (
       bind (sysv (Stdio (Fwrite destfp (rec_read r)))) (\<lambda>w.
       if w \<noteq> 1 then bind (gets errno) (\<lambda>e. andthen (fprintf 265 [I num, I e]) (do_exit 2))
       else andthen (do_sync destfp) (return (Inl (num + 1))))))"

definition copy_check :: "int \<Rightarrow> int \<Rightarrow> ('g, unit) prog" where
  "copy_check srcfp destfp =
     bind (data_compare srcfp destfp) (\<lambda>rc.
     if rc \<noteq> 0 then do_exit 3
     else bind (sysv (Stdio (Fclose srcfp))) (\<lambda>rc.
     andthen (if rc = -1 then bind (gets errno) (\<lambda>e. fprintf 278 [I e]) else return ()) (
     bind (sysv (Stdio (Fclose destfp))) (\<lambda>rc.
     if rc = -1 then bind (gets errno) (\<lambda>e. fprintf 281 [I e]) else return ()))))"

definition copy_data :: "string \<Rightarrow> string \<Rightarrow> ('g, unit) prog" where
  "copy_data srcfile destfile =
     andthen (fprintf 229 [S srcfile, S destfile]) (
     bind (sysv (Stdio (Fopen srcfile ''r''))) (\<lambda>srcfp.
     if srcfp < 0 then bind (gets errno) (\<lambda>e. andthen (fprintf 233 [S srcfile, I e]) (do_exit 2))
     else bind (sysv (Stdio (Fopen destfile ''w''))) (\<lambda>destfp.
     if destfp < 0 then bind (gets errno) (\<lambda>e. andthen (fprintf 240 [S destfile, I e]) (do_exit 2))
     else andthen (loop (copy_body srcfp destfp) 0) (copy_check srcfp destfp))))"

lemma shrinking_do_sync [shrink_intros]: "shrinking (do_sync fp)"
  unfolding do_sync_def by (intro shrink_intros)

lemma appending_do_sync [append_intros]: "appending (do_sync fp)"
  unfolding do_sync_def by (intro append_intros)

lemma consuming_close_fds_body: "consuming (close_fds_body dir u)"
  unfolding close_fds_body_def
  by (auto intro!: consuming_bind consuming_sys shrink_intros split: option.split)

lemma consuming_data_compare_body: "consuming (data_compare_body srcfp destfp num)"
  unfolding data_compare_body_def Let_def andthen_def
  by (rule consuming_bind2) (auto intro!: consuming_bind consuming_sys shrink_intros)

lemma consuming_copy_body: "consuming (copy_body srcfp destfp num)"
  unfolding copy_body_def
  by (auto intro!: consuming_bind consuming_sys shrink_intros)

interpretation cfd: script_loop "close_fds_body dir" for dir
  by (rule script_loopI) (rule consuming_close_fds_body)

interpretation dc: script_loop "data_compare_body srcfp destfp" for srcfp destfp
  by (rule script_loopI) (rule consuming_data_compare_body)

interpretation cp: script_loop "copy_body srcfp destfp" for srcfp destfp
  by (rule script_loopI) (rule consuming_copy_body)

section \<open>close_all_fds\<close>

definition dirent :: "string \<Rightarrow> resp" where
  "dirent n = \<lparr>rv = 0, er = 0, rdat = n, outs = []\<rparr>"

lemma dirent_sel [simp]: "rv (dirent n) = 0" "er (dirent n) = 0" "rdat (dirent n) = n"
  by (simp_all add: dirent_def)

text \<open>The descriptors it closes: those named in the directory but for the log and the directory itself.\<close>

definition to_close :: "int option \<Rightarrow> int \<Rightarrow> string \<Rightarrow> int list" where
  "to_close lf dir n =
     (case scan_d 12 n of None \<Rightarrow> [] | Some fd \<Rightarrow> if lf = Some fd \<or> dir = fd then [] else [fd])"

definition close_events :: "int option \<Rightarrow> int \<Rightarrow> string \<Rightarrow> event list" where
  "close_events lf dir n =
     Got (Dirent (Readdir dir)) (dirent n) # map (\<lambda>fd. Did (Unistd (Close fd))) (to_close lf dir n)"

lemma close_fds_loop:
  assumes "script s = map dirent ns @ l # rest" and "rv l < 0" and "logfp s = lf"
  shows "loop (close_fds_body dir) () s =
    Done () (adv s (concat (map (close_events lf dir) ns) @ [Got (Dirent (Readdir dir)) l]) rest (er l))"
  using assms
proof (induction ns arbitrary: s)
  case Nil
  then show ?case by (subst cfd.unfold) (simp add: close_fds_body_def prog_simps)
next
  case (Cons n ns)
  have "close_fds_body dir () s =
      Done (Inl ()) (adv s (close_events lf dir n) (map dirent ns @ l # rest) 0)"
    using Cons.prems
    by (auto simp: close_fds_body_def close_events_def to_close_def prog_simps split: option.split)
  with Cons show ?case by (subst cfd.unfold) (simp add: bind_def)
qed

lemma run_close_all_fds:
  assumes "script s = d # map dirent ns @ l # rest" and "0 \<le> rv d" and "rv l < 0"
  shows "bind close_all_fds k s = k () (adv s
    (Got (Dirent (Opendir ''/proc/self/fd'')) d # concat (map (close_events (logfp s) (rv d)) ns)
      @ [Got (Dirent (Readdir (rv d))) l, Did (Dirent (Closedir (rv d)))]) rest (er l))"
  using assms
  by (simp add: close_all_fds_def prog_simps bind_def [of "loop _ _"] close_fds_loop [where lf = "logfp s"])

text \<open>
  \<^bold>\<open>C9.\<close> \<open>close_all_fds\<close> closes, in the order of the directory, exactly the descriptors listed in
  /proc/self/fd other than the log's and the one it reads the directory through, and then that
  directory; entries that are not numbers are skipped.
\<close>

theorem close_all_fds_closes:
  assumes "script s = d # map dirent ns @ l # rest" and "0 \<le> rv d" and "rv l < 0"
  shows "close_all_fds s = Done () (adv s
    (Got (Dirent (Opendir ''/proc/self/fd'')) d # concat (map (close_events (logfp s) (rv d)) ns)
      @ [Got (Dirent (Readdir (rv d))) l, Did (Dirent (Closedir (rv d)))]) rest (er l))"
  using run_close_all_fds [OF assms, of return] by (simp add: prog_simps)

theorem close_all_fds_closes_witness:
  "close_all_fds (start (ok 5 # map dirent [''.'', ''1'', ''3'', ''5''] @ [failed 0]) (Some 3) ()) =
    Done () (adv (start (ok 5 # map dirent [''.'', ''1'', ''3'', ''5''] @ [failed 0]) (Some 3) ())
    (Got (Dirent (Opendir ''/proc/self/fd'')) (ok 5)
      # concat (map (close_events (Some 3) 5) [''.'', ''1'', ''3'', ''5''])
      @ [Got (Dirent (Readdir 5)) (failed 0), Did (Dirent (Closedir 5))]) [] 0) \<and>
    concat (map (to_close (Some 3) 5) [''.'', ''1'', ''3'', ''5'']) = [1]"
proof
  show "concat (map (to_close (Some 3) 5) [''.'', ''1'', ''3'', ''5'']) = [1]" by code_simp
qed (subst close_all_fds_closes [where d = "ok 5" and ns = "[''.'', ''1'', ''3'', ''5'']"
    and l = "failed 0" and rest = "[]"], simp_all)

section \<open>data_compare\<close>

text \<open>
  What successive \<open>fread\<close>s of whole records return for a file with the contents \<open>c\<close>. The C standard
  leaves it open which bytes an \<open>fread\<close> stores of an incomplete element; \<open>part\<close> says it, from the
  bytes that were left in the file. (glibc stores them as they are: there \<open>part\<close> is the identity.)
\<close>

function record_reads :: "(string \<Rightarrow> string) \<Rightarrow> string \<Rightarrow> resp list" where
  "record_reads part c =
     (if length c < sizeof_record then [\<lparr>rv = 0, er = 0, rdat = part c, outs = []\<rparr>]
      else \<lparr>rv = 1, er = 0, rdat = take sizeof_record c, outs = []\<rparr> # record_reads part (drop sizeof_record c))"
  by pat_completeness auto
termination
  by (relation "measure (\<lambda>(part, c). length c)") (auto simp: sizeof_record_def)

declare record_reads.simps [simp del]

definition in_turn :: "'a list \<Rightarrow> 'a list \<Rightarrow> 'a list" where
  "in_turn xs ys = concat (map (\<lambda>(x, y). [x, y]) (zip xs ys))"

text \<open>The whole records of a file, what is left after them, and a zeroed record after a read into it.\<close>

definition whole_records :: "string \<Rightarrow> string" where
  "whole_records c = take (length c div sizeof_record * sizeof_record) c"

definition rest_of :: "string \<Rightarrow> string" where
  "rest_of c = drop (length c div sizeof_record * sizeof_record) c"

definition zero_filled :: "string \<Rightarrow> string" where
  "zero_filled b = take sizeof_record (b @ replicate sizeof_record NUL)"

definition same_records :: "(string \<Rightarrow> string) \<Rightarrow> (string \<Rightarrow> string) \<Rightarrow> string \<Rightarrow> string \<Rightarrow> bool" where
  "same_records pa pb ca cb \<longleftrightarrow>
     whole_records ca = whole_records cb \<and> zero_filled (pa (rest_of ca)) = zero_filled (pb (rest_of cb))"

lemma rec_read_zero_filled: "rec_read r = zero_filled (rdat r)"
  by (simp add: rec_read_def zero_filled_def)

lemma zero_filled_full: "sizeof_record \<le> length c \<Longrightarrow> zero_filled (take sizeof_record c) = take sizeof_record c"
  by (simp add: zero_filled_def min_def)

lemma short_records:
  "length c < sizeof_record \<Longrightarrow> whole_records c = []" "length c < sizeof_record \<Longrightarrow> rest_of c = c"
  by (simp_all add: whole_records_def rest_of_def)

lemma records_step:
  assumes "sizeof_record \<le> length c"
  shows "whole_records c = take sizeof_record c @ whole_records (drop sizeof_record c)"
    and "rest_of c = rest_of (drop sizeof_record c)"
proof -
  have "length c div sizeof_record = Suc (length (drop sizeof_record c) div sizeof_record)"
    using assms by (simp add: le_div_geq)
  then show "whole_records c = take sizeof_record c @ whole_records (drop sizeof_record c)"
    and "rest_of c = rest_of (drop sizeof_record c)"
    by (simp_all add: whole_records_def rest_of_def take_add drop_drop add.commute)
qed

lemma same_records_step:
  assumes "sizeof_record \<le> length ca" and "sizeof_record \<le> length cb"
  shows "same_records pa pb ca cb \<longleftrightarrow> take sizeof_record ca = take sizeof_record cb \<and>
    same_records pa pb (drop sizeof_record ca) (drop sizeof_record cb)"
proof -
  have "length (take sizeof_record ca) = length (take sizeof_record cb)" using assms by simp
  then show ?thesis
    unfolding same_records_def records_step [OF assms(1)] records_step [OF assms(2)] by auto
qed

lemma same_records_lengths:
  "length ca < sizeof_record \<Longrightarrow> sizeof_record \<le> length cb \<Longrightarrow> \<not> same_records pa pb ca cb"
  "sizeof_record \<le> length ca \<Longrightarrow> length cb < sizeof_record \<Longrightarrow> \<not> same_records pa pb ca cb"
  by (auto simp: same_records_def short_records records_step dest: arg_cong [where f = length])

lemma same_records_whole:
  assumes "sizeof_record dvd length ca" and "sizeof_record dvd length cb" and "pa [] = []" and "pb [] = []"
  shows "same_records pa pb ca cb \<longleftrightarrow> ca = cb"
  using assms by (simp add: same_records_def whole_records_def rest_of_def)

lemma data_compare_loop:
  assumes "script s = in_turn (record_reads pa ca) (record_reads pb cb) @ rest" and "logfp s = Some lf"
  shows "\<exists>t. loop (data_compare_body fa fb) n s = Done (if same_records pa pb ca cb then 0 else 1) t"
  using assms
proof (induction pa ca arbitrary: cb s n rule: record_reads.induct)
  case (1 pa ca)
  note reads = record_reads.simps [of pa ca] record_reads.simps [of pb cb]
  consider (both) "length ca < sizeof_record" "length cb < sizeof_record"
    | (first) "length ca < sizeof_record" "sizeof_record \<le> length cb"
    | (second) "sizeof_record \<le> length ca" "length cb < sizeof_record"
    | (none) "sizeof_record \<le> length ca" "sizeof_record \<le> length cb"
    by linarith
  then show ?case
  proof cases
    case both
    with 1 reads show ?thesis
      by (subst dc.unfold) (simp add: data_compare_body_def Let_def in_turn_def prog_simps
          rec_read_zero_filled short_records same_records_def)
  next
    case first
    with 1 reads show ?thesis
      by (subst dc.unfold) (simp add: data_compare_body_def Let_def in_turn_def prog_simps
          same_records_lengths)
  next
    case second
    with 1 reads show ?thesis
      by (subst dc.unfold) (simp add: data_compare_body_def Let_def in_turn_def prog_simps
          same_records_lengths)
  next
    case none
    let ?r = "\<lambda>c. \<lparr>rv = 1, er = 0, rdat = take sizeof_record c, outs = []\<rparr>"
    show ?thesis
    proof (cases "take sizeof_record ca = take sizeof_record cb")
      case False
      with none 1 reads show ?thesis
        by (subst dc.unfold) (simp add: data_compare_body_def Let_def in_turn_def prog_simps
            rec_read_zero_filled zero_filled_full same_records_step)
    next
      case True
      let ?u = "adv s [Did (Stdio (Fprintf 195 [I (n + 1)])), Did (Stdio (Fflush lf)),
        Got (Stdio (Fread fa sizeof_record)) (?r ca), Got (Stdio (Fread fb sizeof_record)) (?r cb)]
        (in_turn (record_reads pa (drop sizeof_record ca)) (record_reads pb (drop sizeof_record cb)) @ rest) 0"
      from none True 1 reads have "data_compare_body fa fb n s = Done (Inl (n + 1)) ?u"
        by (simp add: data_compare_body_def Let_def in_turn_def prog_simps rec_read_zero_filled zero_filled_full)
      moreover have "\<exists>t. loop (data_compare_body fa fb) (n + 1) ?u =
          Done (if same_records pa pb (drop sizeof_record ca) (drop sizeof_record cb) then 0 else 1) t"
        using none 1 by (intro 1(1)) simp_all
      ultimately show ?thesis
        using none True by (subst dc.unfold) (simp add: bind_def same_records_step)
    qed
  qed
qed


definition reads_of :: "string \<Rightarrow> string \<Rightarrow> resp list" where
  "reads_of ca cb = in_turn (record_reads id ca) (record_reads id cb)"

lemma short_contents:
  "length c < sizeof_record \<Longrightarrow> whole_records c = [] \<and> rest_of c = c"
  by (simp add: short_records)


section \<open>Records delivered and written\<close>

definition rec_answer :: "string \<Rightarrow> resp" where
  "rec_answer b = \<lparr>rv = 1, er = 0, rdat = b, outs = []\<rparr>"

lemma rec_answer_sel [simp]: "rv (rec_answer b) = 1" "er (rec_answer b) = 0" "rdat (rec_answer b) = b"
  by (simp_all add: rec_answer_def)

lemma rec_read_answer: "length b = sizeof_record \<Longrightarrow> rec_read (rec_answer b) = b"
  by (simp add: rec_read_def)

text \<open>What a trace wrote to a stream.\<close>

definition written_by :: "int \<Rightarrow> event \<Rightarrow> string list" where
  "written_by fp e =
     (case e of Got (Stdio (Fwrite f b)) r \<Rightarrow> if f = fp \<and> rv r = 1 then [b] else [] | _ \<Rightarrow> [])"

definition written :: "int \<Rightarrow> event list \<Rightarrow> string list" where
  "written fp es = concat (map (written_by fp) es)"

lemma written_simps [simp]:
  "written fp [] = []" "written fp (e # es) = written_by fp e @ written fp es"
  "written fp (es @ fs) = written fp es @ written fp fs"
  by (simp_all add: written_def)

end
