(* ===== verification/Streams.thy ===== *)
theory Streams
  imports Libcrtest_Files
begin

text \<open>
  The stdio streams \<open>copy_data\<close> (libcrtest/common.c) works on, as their manual pages describe them,
  and \<open>copy_data\<close> against them. A file is its bytes. A stream is a file with an access mode, a
  position, bytes that are written but not flushed yet, and the end-of-file and error indicators.
  The mode string of \<open>fopen\<close> decides what the stream can do: reading a stream that is open for
  writing only delivers nothing, sets the error indicator and the error EBADF.
\<close>

section \<open>State\<close>

record stream =
  path :: string
  readable :: bool
  writable :: bool
  pos :: nat
  unflushed :: string
  eof :: bool
  err :: bool

record stdio =
  files :: "string \<Rightarrow> string option"
  streams :: "int \<Rightarrow> stream option"

text \<open>
  The mode strings of \<open>fopen\<close> (the two appending ones apart): whether the stream can be read and
  written, and whether opening it empties or creates the file.
\<close>

definition mode_known :: "string \<Rightarrow> bool" where "mode_known m \<longleftrightarrow> m \<in> {''r'', ''r+'', ''w'', ''w+''}"
definition mode_read :: "string \<Rightarrow> bool" where "mode_read m \<longleftrightarrow> m \<in> {''r'', ''r+'', ''w+''}"
definition mode_write :: "string \<Rightarrow> bool" where "mode_write m \<longleftrightarrow> m \<in> {''r+'', ''w'', ''w+''}"
definition mode_truncates :: "string \<Rightarrow> bool" where "mode_truncates m \<longleftrightarrow> m \<in> {''w'', ''w+''}"

definition opened :: "string \<Rightarrow> string \<Rightarrow> int \<Rightarrow> stdio \<Rightarrow> stdio" where
  "opened p m fp k =
     (let c = (case files k p of None \<Rightarrow> [] | Some c \<Rightarrow> if mode_truncates m then [] else c) in
      k\<lparr>files := (files k)(p := Some c),
        streams := (streams k)(fp := Some \<lparr>path = p, readable = mode_read m, writable = mode_write m,
          pos = 0, unflushed = [], eof = False, err = False\<rparr>)\<rparr>)"

text \<open>Opening can fail for reasons of its own; on a missing file it does, unless the mode creates it.\<close>

definition st_fopen :: "string \<Rightarrow> string \<Rightarrow> resp \<Rightarrow> stdio \<Rightarrow> stdio option" where
  "st_fopen p m r k =
     (if rv r < 0 then Some k
      else if streams k (rv r) \<noteq> None \<or> \<not> mode_known m \<or> files k p = None \<and> \<not> mode_truncates m then None
      else Some (opened p m (rv r) k))"

definition contents :: "stream \<Rightarrow> stdio \<Rightarrow> string" where
  "contents f k = (case files k (path f) of None \<Rightarrow> [] | Some c \<Rightarrow> c)"

text \<open>
  \<open>fread\<close> of one element: delivered whole, or the end of the file is reached and what was stored is
  the answer's affair, nothing when no byte was left.
\<close>

definition st_fread :: "int \<Rightarrow> nat \<Rightarrow> resp \<Rightarrow> stdio \<Rightarrow> stdio option" where
  "st_fread fp n r k =
     (case streams k fp of
        None \<Rightarrow> None
      | Some f \<Rightarrow>
          let left = drop (pos f) (contents f k) in
          if \<not> readable f
          then if rv r = 0 \<and> er r = EBADF \<and> rdat r = []
               then Some (k\<lparr>streams := (streams k)(fp := Some (f\<lparr>err := True\<rparr>))\<rparr>) else None
          else if n \<le> length left
          then if rv r = 1 \<and> rdat r = take n left
               then Some (k\<lparr>streams := (streams k)(fp := Some (f\<lparr>pos := pos f + n\<rparr>))\<rparr>) else None
          else if rv r = 0 \<and> (left = [] \<longrightarrow> rdat r = [])
          then Some (k\<lparr>streams := (streams k)(fp := Some (f\<lparr>pos := pos f + length left, eof := True\<rparr>))\<rparr>)
          else None)"

text \<open>\<open>fwrite\<close> of one element takes it into the buffer, or fails.\<close>

definition st_fwrite :: "int \<Rightarrow> string \<Rightarrow> resp \<Rightarrow> stdio \<Rightarrow> stdio option" where
  "st_fwrite fp b r k =
     (case streams k fp of
        None \<Rightarrow> None
      | Some f \<Rightarrow>
          if writable f \<and> rv r = 1
          then Some (k\<lparr>streams := (streams k)(fp := Some (f\<lparr>unflushed := unflushed f @ b\<rparr>))\<rparr>)
          else if rv r = 0 then Some (k\<lparr>streams := (streams k)(fp := Some (f\<lparr>err := True\<rparr>))\<rparr>)
          else None)"

definition flushed :: "int \<Rightarrow> stdio \<Rightarrow> stdio" where
  "flushed fp k =
     (case streams k fp of
        None \<Rightarrow> k
      | Some f \<Rightarrow>
          let c = contents f k; b = unflushed f in
          if b = [] then k
          else k\<lparr>files := (files k)(path f := Some (take (pos f) c @ b @ drop (pos f + length b) c)),
                 streams := (streams k)(fp := Some (f\<lparr>pos := pos f + length b, unflushed := []\<rparr>))\<rparr>)"

definition rewound :: "int \<Rightarrow> stdio \<Rightarrow> stdio" where
  "rewound fp k0 =
     (let k = flushed fp k0 in
      case streams k fp of
        None \<Rightarrow> k
      | Some f \<Rightarrow> k\<lparr>streams := (streams k)(fp := Some (f\<lparr>pos := 0, eof := False, err := False\<rparr>))\<rparr>)"

definition closed :: "int \<Rightarrow> stdio \<Rightarrow> stdio" where
  "closed fp k0 = (let k = flushed fp k0 in k\<lparr>streams := (streams k)(fp := None)\<rparr>)"

definition st_indicator :: "(stream \<Rightarrow> bool) \<Rightarrow> int \<Rightarrow> resp \<Rightarrow> stdio \<Rightarrow> stdio option" where
  "st_indicator ind fp r k =
     (case streams k fp of None \<Rightarrow> None | Some f \<Rightarrow> if (rv r \<noteq> 0) = ind f then Some k else None)"

section \<open>The kernel\<close>

definition stdio_answers :: "call \<Rightarrow> resp \<Rightarrow> stdio \<Rightarrow> stdio option" where
  "stdio_answers c r k =
     (case c of
        Stdio i \<Rightarrow>
          (case i of
             Fopen p m \<Rightarrow> st_fopen p m r k
           | Fread fp n \<Rightarrow> st_fread fp n r k
           | Fwrite fp b \<Rightarrow> st_fwrite fp b r k
           | Feof fp \<Rightarrow> st_indicator eof fp r k
           | Ferror fp \<Rightarrow> st_indicator err fp r k
           | Fclose fp \<Rightarrow> Some (closed fp k)
           | _ \<Rightarrow> Some k)
      | _ \<Rightarrow> Some k)"

definition stdio_effect :: "call \<Rightarrow> stdio \<Rightarrow> stdio" where
  "stdio_effect c k =
     (case c of
        Stdio i \<Rightarrow>
          (case i of Fflush fp \<Rightarrow> flushed fp k | Rewind fp \<Rightarrow> rewound fp k | Fclose fp \<Rightarrow> closed fp k | _ \<Rightarrow> k)
      | _ \<Rightarrow> k)"

definition stdio_kernel :: "stdio kernel" where
  "stdio_kernel = \<lparr>answers = stdio_answers, effect = stdio_effect\<rparr>"

lemma stdio_kernel_sel [simp]: "answers stdio_kernel = stdio_answers" "effect stdio_kernel = stdio_effect"
  by (simp_all add: stdio_kernel_def)

lemma stdio_answer_simps:
  "stdio_answers (Stdio (Fopen p m)) r k = st_fopen p m r k"
  "stdio_answers (Stdio (Fread fp n)) r k = st_fread fp n r k"
  "stdio_answers (Stdio (Fwrite fp b)) r k = st_fwrite fp b r k"
  "stdio_answers (Stdio (Feof fp)) r k = st_indicator eof fp r k"
  "stdio_answers (Unistd u) r k = Some k"
  "stdio_effect (Stdio (Fprintf n as)) k = k"
  "stdio_effect (Stdio (Fflush fp)) k = flushed fp k"
  "stdio_effect (Stdio (Rewind fp)) k = rewound fp k"
  by (simp_all add: stdio_answers_def stdio_effect_def)

section \<open>Between the turns of the copy\<close>

lemma appending_data_compare_body [append_intros]: "appending (data_compare_body f g n)"
  unfolding data_compare_body_def Let_def by (intro append_intros)

lemma appending_copy_body [append_intros]: "appending (copy_body f g n)"
  unfolding copy_body_def by (intro append_intros)

lemma appending_data_compare [append_intros]: "appending (data_compare f g)"
  unfolding data_compare_def by (intro append_intros dc.appending_loop)

lemma appending_copy_check [append_intros]: "appending (copy_check f g)"
  unfolding copy_check_def by (intro append_intros)

text \<open>The stream of the destination, \<open>n\<close> bytes into the file and with the bytes \<open>b\<close> to flush.\<close>

definition dest_stream :: "string \<Rightarrow> nat \<Rightarrow> string \<Rightarrow> stream" where
  "dest_stream p n b = \<lparr>path = p, readable = False, writable = True, pos = n, unflushed = b, eof = False, err = False\<rparr>"

definition src_stream :: "string \<Rightarrow> nat \<Rightarrow> bool \<Rightarrow> stream" where
  "src_stream p n e = \<lparr>path = p, readable = True, writable = False, pos = n, unflushed = [], eof = e, err = False\<rparr>"

lemmas stream_defs = dest_stream_def src_stream_def contents_def Let_def

text \<open>
  \<open>n\<close> records of the contents \<open>c\<close> are in the destination, with the bytes \<open>b\<close> to flush; the source is
  read up to \<open>p\<close>. No other stream is open than the two.
\<close>

definition copied :: "string \<Rightarrow> string \<Rightarrow> string \<Rightarrow> int \<Rightarrow> int \<Rightarrow> nat \<Rightarrow> bool \<Rightarrow> nat \<Rightarrow> string \<Rightarrow> stdio \<Rightarrow> bool" where
  "copied src dest c fs fd n e p b k \<longleftrightarrow>
     files k src = Some c \<and> files k dest = Some (take (n * sizeof_record) c) \<and>
     n * sizeof_record \<le> length c \<and> fs \<noteq> fd \<and> src \<noteq> dest \<and>
     streams k fs = Some (src_stream src p e) \<and>
     streams k fd = Some (dest_stream dest (n * sizeof_record) b) \<and>
     (\<forall>fp. fp \<noteq> fs \<longrightarrow> fp \<noteq> fd \<longrightarrow> streams k fp = None)"

lemma copied_fread:
  assumes "copied src dest c fs fd n False (n * sizeof_record) [] k" and "st_fread fs sizeof_record r k = Some k'"
  shows "rv r = 0 \<and> length c < Suc n * sizeof_record \<and> copied src dest c fs fd n True (length c) [] k' \<or>
    rv r = 1 \<and> length (rdat r) = sizeof_record \<and> Suc n * sizeof_record \<le> length c \<and>
    rdat r = take sizeof_record (drop (n * sizeof_record) c) \<and>
    copied src dest c fs fd n False (Suc n * sizeof_record) [] k'"
  using assms by (auto simp: copied_def st_fread_def stream_defs add.commute split: if_splits)

lemma copied_fwrite:
  assumes "copied src dest c fs fd n e p [] k" and "st_fwrite fd b r k = Some k'"
  shows "rv r = 1 \<and> copied src dest c fs fd n e p b k' \<or> rv r \<noteq> 1"
  using assms by (auto simp: copied_def st_fwrite_def stream_defs split: if_splits)

lemma copied_flush:
  assumes "copied src dest c fs fd n e p b k" and "b = take sizeof_record (drop (n * sizeof_record) c)"
    and "sizeof_record + n * sizeof_record \<le> length c"
  shows "copied src dest c fs fd (Suc n) e p [] (flushed fd k)"
proof -
  have "length b = sizeof_record" using assms(2,3) by simp
  moreover from this have "b \<noteq> []" by (auto simp: sizeof_record_def)
  moreover have "take (n * sizeof_record + sizeof_record) c = take (n * sizeof_record) c @ b"
    using assms(2) by (simp add: take_add)
  ultimately show ?thesis
    using assms(1,3) by (simp add: copied_def flushed_def stream_defs add.commute)
qed

lemma copied_flush_nothing:
  "copied src dest c fs fd n e p [] k \<Longrightarrow> flushed fp k = k"
  by (cases "fp = fs \<or> fp = fd") (auto simp: copied_def flushed_def stream_defs)

lemma copied_feof:
  "copied src dest c fs fd n e p b k \<Longrightarrow> st_indicator eof fs r k = Some k' \<Longrightarrow> k' = k \<and> (rv r \<noteq> 0) = e"
  by (auto simp: copied_def st_indicator_def stream_defs split: if_splits)

lemma copied_opened:
  assumes "files k src = Some c" and "src \<noteq> dest" and "streams k = (\<lambda>_. None)"
    and "st_fopen src ''r'' r k = Some k1" and "\<not> rv r < 0"
    and "st_fopen dest ''w'' r' k1 = Some k2" and "\<not> rv r' < 0"
  shows "copied src dest c (rv r) (rv r') 0 False 0 [] k2"
  using assms
  by (auto simp: copied_def st_fopen_def opened_def stream_defs mode_known_def mode_read_def mode_write_def
      mode_truncates_def split: if_splits option.splits)

section \<open>copy_data\<close>

lemma wp_leave:
  assumes "logfp s = Some lf" and "E c (closed lf (flushed lf k))"
  shows "wp stdio_kernel (do_exit c) Q E k s"
  unfolding do_exit_def using assms
  by (intro wp_rules append_intros)
    (auto intro!: wp_rules append_intros simp: stdio_effect_def split: option.split)

lemma wp_sync:
  assumes "logfp s = Some lf"
  shows "wp stdio_kernel (do_sync fp) (\<lambda>_ k' t. k' = flushed fp k \<and> logfp t = Some lf) E k s"
  unfolding do_sync_def
  by (intro wp_rules append_intros) (auto intro!: wp_rules append_intros simp: assms stdio_answer_simps)

text \<open>The process leaves with status 2, or with status 3 and the whole records in the destination.\<close>

definition copy_end :: "string \<Rightarrow> string \<Rightarrow> int \<Rightarrow> stdio \<Rightarrow> bool" where
  "copy_end dest c e k \<longleftrightarrow> e = 2 \<or> e = 3 \<and> files k dest = Some (whole_records c)"

definition all_copied :: "string \<Rightarrow> string \<Rightarrow> string \<Rightarrow> int \<Rightarrow> int \<Rightarrow> stdio \<Rightarrow> bool" where
  "all_copied src dest c fs fd k \<longleftrightarrow>
     (\<exists>n. length c < Suc n * sizeof_record \<and> copied src dest c fs fd n True (length c) [] k)"

lemma wp_copy_turn:
  assumes "copied src dest c fs fd n False (n * sizeof_record) [] k" and "logfp s = Some lf"
  shows "wp stdio_kernel (copy_body fs fd (int n))
    (\<lambda>r k' t. logfp t = Some lf \<and> (case r of
        Inl m \<Rightarrow> m = int (Suc n) \<and> copied src dest c fs fd (Suc n) False (Suc n * sizeof_record) [] k'
      | Inr _ \<Rightarrow> all_copied src dest c fs fd k')) (copy_end dest c) k s"
  unfolding copy_body_def
proof (rule wp_sys, goal_cases)
  case (1 r rs k1)
  from copied_fread [OF assms(1)] 1(2)
  consider (finished) "rv r = 0" "length c < Suc n * sizeof_record" "copied src dest c fs fd n True (length c) [] k1"
    | (full) "rv r = 1" "length (rdat r) = sizeof_record" "Suc n * sizeof_record \<le> length c"
      "rdat r = take sizeof_record (drop (n * sizeof_record) c)"
      "copied src dest c fs fd n False (Suc n * sizeof_record) [] k1"
    by (auto simp: stdio_answer_simps)
  then show ?case
  proof cases
    case finished
    then have "all_copied src dest c fs fd k1" by (auto simp: all_copied_def)
    with finished show ?thesis
      by (auto intro!: wp_rules append_intros wp_seq [OF wp_sync [where lf = lf]] simp: assms(2) stdio_answer_simps
          copied_flush_nothing [OF finished(3)] dest!: copied_feof [OF finished(3)])
  next
    case full
    then have "rec_read r = rdat r" by (simp add: rec_read_zero_filled zero_filled_def)
    with full show ?thesis
      by (auto intro!: wp_rules append_intros wp_leave [where lf = lf] wp_seq [OF wp_sync [where lf = lf]]
          simp: assms(2) stdio_answer_simps copy_end_def copied_flush_nothing [OF full(5)] dest!: copied_fwrite [OF full(5)] intro!: copied_flush [OF _ refl])
  qed
qed (intro append_intros)

lemma wp_copy_loop:
  assumes "copied src dest c fs fd 0 False 0 [] k" and "logfp (s :: 'g proc) = Some lf"
  shows "wp stdio_kernel (loop (copy_body fs fd) 0)
    (\<lambda>_ k' t. logfp t = Some lf \<and> all_copied src dest c fs fd k') (copy_end dest c) k s"
proof (rule cp.wp_loop [where Inv = "\<lambda>m k' t. logfp t = Some lf \<and>
      (\<exists>n. m = int n \<and> copied src dest c fs fd n False (n * sizeof_record) [] k')"])
  fix m k' and t :: "'g proc"
  assume "logfp t = Some lf \<and> (\<exists>n. m = int n \<and> copied src dest c fs fd n False (n * sizeof_record) [] k')"
  then obtain n where n: "logfp t = Some lf" "m = int n" "copied src dest c fs fd n False (n * sizeof_record) [] k'"
    by blast
  show "wp stdio_kernel (copy_body fs fd m) (\<lambda>r k2 u. case r of
      Inl m' \<Rightarrow> logfp u = Some lf \<and> (\<exists>n. m' = int n \<and> copied src dest c fs fd n False (n * sizeof_record) [] k2)
    | Inr b \<Rightarrow> logfp u = Some lf \<and> all_copied src dest c fs fd k2) (copy_end dest c) k' t"
    unfolding n(2) by (rule wp_mono [OF wp_copy_turn [OF n(3,1)]])
      (auto split: sum.splits intro!: exI [of _ "Suc n"])
qed (use assms append_intros in auto)

text \<open>Everything is copied and both streams are at their start: the first turn finds a difference.\<close>

definition at_start :: "string \<Rightarrow> string \<Rightarrow> string \<Rightarrow> int \<Rightarrow> int \<Rightarrow> stdio \<Rightarrow> bool" where
  "at_start src dest c fs fd k \<longleftrightarrow>
     files k src = Some c \<and> files k dest = Some (whole_records c) \<and> fs \<noteq> fd \<and>
     streams k fs = Some (src_stream src 0 False) \<and> streams k fd = Some (dest_stream dest 0 []) \<and>
     (\<forall>fp. fp \<noteq> fs \<longrightarrow> fp \<noteq> fd \<longrightarrow> streams k fp = None)"

lemma whole_records_eq:
  assumes "length c < Suc n * sizeof_record" and "n * sizeof_record \<le> length c"
  shows "take (n * sizeof_record) c = whole_records c"
proof -
  have "length c div sizeof_record = n" using assms by (intro div_nat_eqI) (simp_all add: mult.commute)
  then show ?thesis by (simp add: whole_records_def)
qed

lemma all_copied_rewound:
  assumes "all_copied src dest c fs fd k"
  shows "at_start src dest c fs fd (rewound fd (rewound fs k))"
proof -
  from assms obtain n where n: "length c < Suc n * sizeof_record" "copied src dest c fs fd n True (length c) [] k"
    by (auto simp: all_copied_def)
  then have "take (n * sizeof_record) c = whole_records c" by (intro whole_records_eq) (simp_all add: copied_def)
  with n(2) show ?thesis
    by (auto simp: copied_def at_start_def rewound_def flushed_def stream_defs)
qed

text \<open>With nothing to flush, flushing and closing leave the files alone.\<close>

definition all_flushed :: "stdio \<Rightarrow> bool" where
  "all_flushed k \<longleftrightarrow> (\<forall>fp f. streams k fp = Some f \<longrightarrow> unflushed f = [])"

lemma all_flushed_same:
  assumes "all_flushed k"
  shows "flushed fp k = k" and "files (closed fp k) = files k"
  using assms by (auto simp: all_flushed_def flushed_def closed_def Let_def split: option.split)

lemma at_start_flushed: "at_start src dest c fs fd k \<Longrightarrow> all_flushed k"
  unfolding all_flushed_def
proof (intro allI impI)
  fix fp f
  assume "at_start src dest c fs fd k" and "streams k fp = Some f"
  then show "unflushed f = []"
    by (cases "fp = fs"; cases "fp = fd") (auto simp: at_start_def stream_defs)
qed

lemma fread_flushed: "all_flushed k \<Longrightarrow> st_fread fp n r k = Some k' \<Longrightarrow> all_flushed k' \<and> files k' = files k"
  by (auto simp: all_flushed_def st_fread_def Let_def split: option.splits if_splits)

lemma at_start_reads:
  assumes "at_start src dest c fs fd k" and "st_fread fs sizeof_record r k = Some k1"
    and "st_fread fd sizeof_record r' k1 = Some k2" and "sizeof_record \<le> length c"
  shows "rv r = 1 \<and> rv r' = 0 \<and> files (closed fp (flushed fp (flushed fq k2))) dest = Some (whole_records c)"
proof -
  note f1 = fread_flushed [OF at_start_flushed [OF assms(1)] assms(2)]
  note f2 = fread_flushed [OF conjunct1 [OF f1] assms(3)]
  have s1: "rv r = 1" using assms(1,2,4) by (auto simp: at_start_def st_fread_def stream_defs split: if_splits)
  have "streams k1 fd = Some (dest_stream dest 0 [])"
    using assms(1,2) by (auto simp: at_start_def st_fread_def stream_defs split: if_splits)
  then have "rv r' = 0" using assms(3) by (auto simp: st_fread_def stream_defs split: if_splits)
  with s1 f1 f2 assms(1) show ?thesis by (simp add: all_flushed_same at_start_def)
qed

lemma wp_compare:
  assumes "all_copied src dest c fs fd k" and "logfp (s :: 'g proc) = Some lf" and "sizeof_record \<le> length c"
  shows "wp stdio_kernel (data_compare fs fd)
    (\<lambda>rc k' t. rc = 1 \<and> logfp t = Some lf \<and> files (closed lf (flushed lf k')) dest = Some (whole_records c)) E k s"
proof -
  have "wp stdio_kernel (loop (data_compare_body fs fd) 0)
    (\<lambda>rc k' t. rc = 1 \<and> logfp t = Some lf \<and> files (closed lf (flushed lf k')) dest = Some (whole_records c)) E k1 t"
    if "logfp t = Some lf" and "at_start src dest c fs fd k1" for k1 and t :: "'g proc"
  proof (rule dc.wp_loop [where Inv = "\<lambda>_ k1 t. logfp t = Some lf \<and> at_start src dest c fs fd k1"])
    fix a k1 and t :: "'g proc"
    assume i: "logfp t = Some lf \<and> at_start src dest c fs fd k1"
    note f = all_flushed_same(1) [OF at_start_flushed [OF conjunct2 [OF i]]] and d = at_start_reads [OF conjunct2 [OF i] _ _ assms(3)]
    from i show "wp stdio_kernel (data_compare_body fs fd a) (\<lambda>r k' u. case r of
        Inl a' \<Rightarrow> logfp u = Some lf \<and> at_start src dest c fs fd k'
      | Inr b \<Rightarrow> b = 1 \<and> logfp u = Some lf \<and>
          files (closed lf (flushed lf k')) dest = Some (whole_records c)) E k1 t"
      unfolding data_compare_body_def Let_def
      by (intro wp_rules append_intros) (auto simp: f stdio_answer_simps dest: d)
  qed (use that append_intros in auto)
  then show ?thesis
    unfolding data_compare_def using all_copied_rewound [OF assms(1)] assms(2)
    by (intro wp_rules append_intros dc.appending_loop) (auto simp: stdio_answer_simps)
qed

lemma wp_copy_check:
  assumes "all_copied src dest c fs fd k" and "logfp s = Some lf" and "sizeof_record \<le> length c"
  shows "wp stdio_kernel (copy_check fs fd) (\<lambda>_ _ _. False) (copy_end dest c) k s"
  unfolding copy_check_def
  by (rule wp_seq [OF wp_compare [OF assms]])
    (auto intro!: wp_leave [where lf = lf] append_intros simp: copy_end_def)

lemma wp_copy_data:
  assumes "logfp s = Some lf" and "files k src = Some c" and "streams k = (\<lambda>_. None)"
    and "src \<noteq> dest" and "sizeof_record \<le> length c"
  shows "wp stdio_kernel (copy_data src dest) (\<lambda>_ _ _. False) (copy_end dest c) k s"
  unfolding copy_data_def andthen_def
  by (intro wp_rules append_intros cp.appending_loop wp_seq [OF wp_copy_loop [where lf = lf and src = src]]
      wp_leave [where lf = lf] copied_opened [OF assms(2,4,3)] wp_copy_check [where lf = lf and src = src])
    (auto simp: assms copy_end_def stdio_answer_simps)


definition one_record :: string where
  "one_record = replicate sizeof_record (CHR ''x'')"

definition example_copy :: "unit proc" where
  "example_copy = start [ok 5, ok 6, rec_answer one_record, ok 1, ok 0, ok 0, ok 1, ok 0,
     rec_answer one_record, (ok 0)\<lparr>er := EBADF\<rparr>] (Some 3) ()"

definition example_files :: stdio where
  "example_files = \<lparr>files = [''a'' \<mapsto> one_record], streams = \<lambda>_. None\<rparr>"

lemma example_copy_ends:
  "case copy_data ''a'' ''b'' example_copy of Exited e t \<Rightarrow> e = 3 | _ \<Rightarrow> False"
  by code_simp


end
