(* ===== verification/Getopt.thy ===== *)
theory Getopt
  imports CR_Prelude "HOL-Library.Sublist"
begin

text \<open>
  getopt(3) and getopt_long(3) as the programs use them: the whole sequence of options that
  successive calls return for an argument vector (without the program name), each with its
  \<open>optarg\<close>, and the arguments left from \<open>optind\<close> on. Options are short clusters (\<open>-ab\<close>,
  \<open>-nARG\<close>, \<open>-n ARG\<close>), long options (\<open>--num=3\<close>, \<open>--num 3\<close>, any unambiguous abbreviation), and
  \<open>--\<close> ends them; other arguments are moved behind the options. An unknown option, or a
  missing argument, is returned as a question mark.
\<close>

text \<open>A long option: its name, whether it takes an argument (0 no, 1 yes, 2 if one is attached), the value returned.\<close>

type_synonym longopt = "string \<times> nat \<times> char"

type_synonym options = "(char \<times> string option) list"

text \<open>Whether a short option takes an argument: 0 no, 1 yes, 2 if one is attached.\<close>

fun short_mode :: "string \<Rightarrow> char \<Rightarrow> nat option" where
  "short_mode [] c = None"
| "short_mode (x # xs) c =
     (if x = c \<and> c \<noteq> CHR '':''
      then Some (length (takeWhile (\<lambda>y. y = CHR '':'') xs))
      else short_mode xs c)"

definition long_match :: "longopt list \<Rightarrow> string \<Rightarrow> longopt option" where
  "long_match ls name =
     (case filter (\<lambda>(n, _). n = name) ls of
        l # _ \<Rightarrow> Some l
      | [] \<Rightarrow> (case filter (\<lambda>(n, _). prefix name n) ls of
                l # r \<Rightarrow> if list_all (\<lambda>l'. snd l' = snd l) r then Some l else None
              | [] \<Rightarrow> None))"

definition long_option :: "longopt list \<Rightarrow> string \<Rightarrow> string list \<Rightarrow> (char \<times> string option) \<times> string list" where
  "long_option ls a args =
     (let name = takeWhile (\<lambda>c. c \<noteq> CHR ''='') a; val = dropWhile (\<lambda>c. c \<noteq> CHR ''='') a in
      case long_match ls name of
        None \<Rightarrow> ((CHR ''?'', None), args)
      | Some (_, 0, v) \<Rightarrow> (if val = [] then (v, None) else (CHR ''?'', None), args)
      | Some (_, m, v) \<Rightarrow>
          if val \<noteq> [] then ((v, Some (tl val)), args)
          else if m \<noteq> 1 then ((v, None), args)
          else (case args of [] \<Rightarrow> ((CHR ''?'', None), []) | b # bs \<Rightarrow> ((v, Some b), bs)))"

definition with_opt :: "'a \<Rightarrow> 'a list \<times> 'b \<Rightarrow> 'a list \<times> 'b" where
  "with_opt x r = (x # fst r, snd r)"

definition arg_weight :: "string list \<Rightarrow> nat" where
  "arg_weight as = sum_list (map (\<lambda>a. length a + 1) as)"

lemma long_option_weight: "arg_weight (snd (long_option ls a as)) \<le> arg_weight as"
  by (auto simp: long_option_def arg_weight_def Let_def split: option.split list.split nat.split prod.split)

function getopt_all :: "string \<Rightarrow> longopt list \<Rightarrow> string \<Rightarrow> string list \<Rightarrow> options \<times> string list" where
  "getopt_all os ls (c # cl) args =
     (case short_mode os c of
        None \<Rightarrow> with_opt (CHR ''?'', None) (getopt_all os ls cl args)
      | Some 0 \<Rightarrow> with_opt (c, None) (getopt_all os ls cl args)
      | Some (Suc m) \<Rightarrow>
          if cl \<noteq> [] then with_opt (c, Some cl) (getopt_all os ls [] args)
          else if m \<noteq> 0 then with_opt (c, None) (getopt_all os ls [] args)
          else (case args of
                  [] \<Rightarrow> ([(CHR ''?'', None)], [])
                | b # bs \<Rightarrow> with_opt (c, Some b) (getopt_all os ls [] bs)))"
| "getopt_all os ls [] [] = ([], [])"
| "getopt_all os ls [] (a # as) =
     (if a = ''--'' then ([], as)
      else if take 2 a = ''--'' \<and> ls \<noteq> [] then
        with_opt (fst (long_option ls (drop 2 a) as)) (getopt_all os ls [] (snd (long_option ls (drop 2 a) as)))
      else if take 1 a = ''-'' \<and> length a \<noteq> 1 then getopt_all os ls (tl a) as
      else let (os', rest) = getopt_all os ls [] as in (os', a # rest))"
  by pat_completeness auto

termination
  using long_option_weight
  by (relation "measure (\<lambda>(os, ls, cl, as). length cl + arg_weight as)")
    (auto simp: arg_weight_def le_imp_less_Suc trans_le_add2)

definition getopt :: "string \<Rightarrow> string list \<Rightarrow> options \<times> string list" where
  "getopt os args = getopt_all os [] [] args"

definition getopt_long :: "string \<Rightarrow> longopt list \<Rightarrow> string list \<Rightarrow> options \<times> string list" where
  "getopt_long os ls args = getopt_all os ls [] args"

end
