(* ===== verification/Fileio1.thy ===== *)
theory Fileio1
  imports Libcrtest_Files Getopt
begin

text \<open>
  fileio/fileio1.c: creates a file of records, or copies one record by record while it is
  checkpointed. The program has its own \<open>do_sync\<close>, \<open>do_exit\<close> and \<open>copy_data\<close> and links
  \<open>close_all_fds\<close> of libcrtest.
\<close>

section \<open>Names\<close>

record names =
  log_fnam :: string
  slowdown_fnam :: string
  ckptready_fnam :: string
  copydone_fnam :: string

type_synonym 'a fprog = "(names, 'a) prog"

definition NUM_RECS :: nat where "NUM_RECS = 1024"

definition setup_filenames :: "string option \<Rightarrow> names" where
  "setup_filenames dir =
     (let nm = (\<lambda>f. snprintf 400 (case dir of Some d \<Rightarrow> d @ ''/'' @ f | None \<Rightarrow> f)) in
      \<lparr>log_fnam = nm ''log.fileio1'', slowdown_fnam = nm ''slow-down-fileio'',
       ckptready_fnam = nm ''checkpoint.ready'', copydone_fnam = nm ''copy.done''\<rparr>)"

section \<open>Operations\<close>

definition usage :: "string \<Rightarrow> 'a fprog" where
  "usage argv0 =
     andthen (block [fprintf 57 [S argv0], fprintf 58 [], fprintf 60 [S argv0], fprintf 61 [],
                     fprintf 63 [S argv0], fprintf 64 [], flush_log])
       (exit_with 1)"

definition do_sync :: "int \<Rightarrow> unit fprog" where
  "do_sync fp =
     andthen (emit (Stdio (Fflush fp))) (
     bind (sysv (Unistd (Fsync fp))) (\<lambda>rc.
     bind (gets logfp) (\<lambda>lf.
     if rc \<noteq> 0 \<and> Some fp \<noteq> lf
     then bind (gets errno) (\<lambda>e. fprintf 88 [I e])
     else return ())))"

text \<open>With a null \<open>logfp\<close>, \<open>fileno(logfp)\<close> dereferences it.\<close>

definition do_exit :: "int \<Rightarrow> 'a fprog" where
  "do_exit status =
     bind (gets (\<lambda>s. ckptready_fnam (glob s))) (\<lambda>f.
     andthen (emit (Unistd (Unlink f))) (
     bind (gets logfp) (\<lambda>lf.
     case lf of None \<Rightarrow> crash
     | Some l \<Rightarrow> andthen (block [do_sync l, emit (Stdio (Fclose l))]) (exit_with status))))"

text \<open>The bytes of \<open>struct record\<close> with the given id and data, the rest of the data zero.\<close>

definition le32 :: "int \<Rightarrow> string" where
  "le32 i = map (\<lambda>k. char_of (nat (i div 256 ^ k mod 256))) [0..<4]"

definition rec_image :: "int \<Rightarrow> string \<Rightarrow> string" where
  "rec_image i d = le32 i @ take 256 (d @ replicate 256 NUL)"

definition rec_number :: "nat \<Rightarrow> string" where
  "rec_number i = rec_image (int i) (''Record number: '' @ dec_nat i)"

definition create_data :: "string \<Rightarrow> int fprog" where
  "create_data destfile =
     andthen (fprintf 107 [S destfile]) (
     bind (sysv (Stdio (Fopen destfile ''w''))) (\<lambda>destfp.
     if destfp < 0 then bind (gets errno) (\<lambda>e. andthen (fprintf 111 [S destfile, I e]) (do_exit 2))
     else
       andthen (block
         [foreach (\<lambda>i.
            bind (sysv (Stdio (Fwrite destfp (rec_number i)))) (\<lambda>w.
            if w \<noteq> 1 then bind (gets errno) (\<lambda>e. andthen (fprintf 121 [I (int i), I e]) (do_exit 2))
            else return ())) [0..<NUM_RECS],
          do_sync destfp])
         (do_exit 0)))"

definition slow_down :: "int \<Rightarrow> unit fprog" where
  "slow_down recno =
     bind (gets (\<lambda>s. slowdown_fnam (glob s))) (\<lambda>f.
     bind (access f) (\<lambda>rc.
     if rc = 0 then
       (let num_skip = (if recno > 100 then c_div recno 10 else 10) in
        if c_mod recno num_skip = 0 then emit (Proc (Sleep 1)) else return ())
     else bind (gets errno) (\<lambda>e.
       if e \<noteq> ENOENT then andthen (fprintf 154 [S f, I e]) (do_exit 1) else return ())))"

definition copy_body :: "int \<Rightarrow> int \<Rightarrow> int \<Rightarrow> (int + 'a) fprog" where
  "copy_body srcfp destfp num =
     bind (sys (Stdio (Fread srcfp sizeof_record))) (\<lambda>r.
     if rv r = 0 then
       bind (sysv (Stdio (Feof srcfp))) (\<lambda>eof.
       andthen
         (if eof \<noteq> 0 then block [fprintf 191 [I num], do_sync destfp]
          else bind (sysv (Stdio (Ferror srcfp))) (\<lambda>e. fprintf 194 [I num, I e])) (
       bind (gets (\<lambda>s. copydone_fnam (glob s))) (\<lambda>f.
       bind (sysv (Unistd (Creat f MODE_0666))) (\<lambda>fd.
       if fd < 0 then bind (gets errno) (\<lambda>e. andthen (fprintf 202 [S f, I e]) (do_exit 1))
       else andthen (emit (Unistd (Close fd))) (do_exit 0)))))
     else
       andthen (block [fprintf 210 [I num, I (rec_id (rec_read r)), S (rec_data (rec_read r))], flush_log]) (
       bind (sysv (Stdio (Fwrite destfp (rec_read r)))) (\<lambda>w.
       if w \<noteq> 1 then bind (gets errno) (\<lambda>e. andthen (fprintf 215 [I num, I e]) (do_exit 2))
       else andthen (block [do_sync destfp, slow_down (num + 1)]) (return (Inl (num + 1))))))"

definition copy_data :: "string \<Rightarrow> string \<Rightarrow> int fprog" where
  "copy_data srcfile destfile =
     andthen (fprintf 169 [S srcfile, S destfile]) (
     bind (sysv (Stdio (Fopen srcfile ''r''))) (\<lambda>srcfp.
     if srcfp < 0 then bind (gets errno) (\<lambda>e. andthen (fprintf 173 [S srcfile, I e]) (do_exit 2))
     else bind (sysv (Stdio (Fopen destfile ''w''))) (\<lambda>destfp.
     if destfp < 0 then bind (gets errno) (\<lambda>e. andthen (fprintf 180 [S destfile, I e]) (do_exit 2))
     else loop (copy_body srcfp destfp) 0)))"

definition verify_data :: "string \<Rightarrow> string \<Rightarrow> int fprog" where
  "verify_data srcfile destfile = andthen (fprintf 237 [S srcfile, S destfile]) (do_exit 0)"

section \<open>The main program\<close>

datatype test_mode = NoMode | CREATE_DATA | COPY_DATA | VERIFY_DATA

text \<open>
  What the option loop has set: the mode, \<open>srcfile\<close> and \<open>destfile\<close>; \<open>Inl\<close> when it met an
  option that ends in \<open>usage\<close>. Every option of \<open>C:c:v:\<close> has an argument.
\<close>

fun scan_opts :: "options \<Rightarrow> test_mode \<times> string option \<times> string option \<Rightarrow>
    unit + test_mode \<times> string option \<times> string option" where
  "scan_opts [] st = Inr st"
| "scan_opts ((c, a) # os) (mode, src, dst) =
     (if c = CHR ''C'' then scan_opts os (CREATE_DATA, src, a)
      else if c = CHR ''c'' then scan_opts os (COPY_DATA, a, dst)
      else if c = CHR ''v'' then scan_opts os (VERIFY_DATA, a, dst)
      else Inl ())"

definition run_mode :: "string \<Rightarrow> options \<times> string list \<Rightarrow> int fprog" where
  "run_mode argv0 parsed =
     (case scan_opts (fst parsed) (NoMode, None, None) of
        Inl _ \<Rightarrow> usage argv0
      | Inr (NoMode, _) \<Rightarrow> usage argv0
      | Inr (CREATE_DATA, _, dst) \<Rightarrow> create_data (the dst)
      | Inr (mode, src, _) \<Rightarrow>
          (case snd parsed of
             [] \<Rightarrow> andthen (fprintf 308 []) (do_exit 1)
           | dst # _ \<Rightarrow> if mode = COPY_DATA then copy_data (the src) dst
                       else verify_data (the src) dst))"

definition main :: "string list \<Rightarrow> int fprog" where
  "main argv0 =
     (let shift = (2 < length argv0 \<and> argv0 ! 1 = ''-d'');
          mydir = (if shift then Some (argv0 ! 2) else None);
          argv = (if shift then drop 2 argv0 else argv0);
          names = setup_filenames mydir in
      andthen (modify (\<lambda>s. s\<lparr>glob := names\<rparr>)) (
      bind (sysv (Stdio (Fopen (log_fnam names) ''w''))) (\<lambda>fp.
      if fp < 0 then andthen (emit (Stdio (Perror 268))) (exit_with 1)
      else
        andthen (block [modify (\<lambda>s. s\<lparr>logfp := Some fp\<rparr>), emit (Stdio (Printf 275 [S (log_fnam names)])),
                        close_all_fds]) (
        bind (sysv (Unistd (Creat (ckptready_fnam names) MODE_0666))) (\<lambda>fd.
        if fd < 0 then bind (gets errno) (\<lambda>e. andthen (fprintf 283 [S (ckptready_fnam names), I e]) (do_exit 1))
        else andthen (emit (Unistd (Close fd))) (run_mode (hd argv) (getopt ''C:c:v:'' (tl argv))))))))"

section \<open>Records round trip\<close>

lemma length_le32 [simp]: "length (le32 i) = 4"
  by (simp add: le32_def)

lemma length_rec_number: "length (rec_number i) = sizeof_record"
  by (simp add: rec_number_def rec_image_def sizeof_record_def min_def) arith

lemma le32_bytes:
  assumes "0 \<le> i" and "i < 4294967296"
  shows "(\<Sum>k \<leftarrow> [0..<4]. of_char (le32 i ! k) * 256 ^ k) = i"
proof -
  have c: "(of_char (char_of (nat (j mod 256)) :: char) :: int) = j mod 256" for j :: int
  proof -
    have "nat (j mod 256) < 256" by (simp add: nat_less_iff)
    then have "(of_char (char_of (nat (j mod 256)) :: char) :: nat) = nat (j mod 256)"
      by (simp add: take_bit_nat_eq_self)
    from arg_cong [OF this, of int] show ?thesis by (simp only: of_nat_of_char)
  qed
  let ?a = "i div 256" and ?b = "i div 256 div 256" and ?c = "i div 256 div 256 div 256"
  have "0 \<le> ?c" and "?c < 256" using assms by simp_all
  then have "?c mod 256 = ?c" by simp
  moreover have "(\<Sum>k \<leftarrow> [0..<4]. of_char (le32 i ! k) * 256 ^ k) =
      i mod 256 + ?a mod 256 * 256 + ?b mod 256 * 65536 + ?c mod 256 * 16777216"
    by (simp add: le32_def upt_rec c flip: zdiv_zmult2_eq)
  ultimately show ?thesis
    using div_mult_mod_eq [of i 256] div_mult_mod_eq [of ?a 256] div_mult_mod_eq [of ?b 256]
    by linarith
qed

lemma rec_id_image:
  assumes "0 \<le> i" and "i < 2147483648"
  shows "rec_id (rec_image i d) = i"
proof -
  have "(\<Sum>k \<leftarrow> [0..<4]. of_char (rec_image i d ! k) * 256 ^ k) =
      (\<Sum>k \<leftarrow> [0..<4]. of_char (le32 i ! k) * (256 :: int) ^ k)"
    by (rule arg_cong [where f = sum_list], rule map_cong) (simp_all add: rec_image_def nth_append)
  with assms show ?thesis by (simp add: rec_id_def le32_bytes to_int32_id)
qed

lemma takeWhile_replicate_NUL [simp]: "takeWhile (\<lambda>c. c \<noteq> NUL) (replicate n NUL) = []"
  by (cases n) simp_all

lemma rec_data_image:
  assumes "length d < 256" and "NUL \<notin> set d"
  shows "rec_data (rec_image i d) = d"
  using assms
  by (simp add: rec_data_def rec_image_def cstr_def takeWhile_append2 takeWhile_append)

lemma dec_nat_not_NUL: "NUL \<notin> set (dec_nat i)"
  using dec_nat_isdigit [of NUL i] by (auto simp: isdigit_def NUL_def)

lemma rec_number_contents:
  assumes "i < NUM_RECS"
  shows "rec_id (rec_number i) = int i" and "rec_data (rec_number i) = ''Record number: '' @ dec_nat i"
proof -
  from assms have "length (dec_nat i) \<le> 4"
    by (intro length_dec_nat) (simp_all add: NUM_RECS_def)
  then show "rec_data (rec_number i) = ''Record number: '' @ dec_nat i"
    using dec_nat_not_NUL [of i]
    by (simp only: rec_number_def) (rule rec_data_image, simp_all add: NUL_def)
  from assms show "rec_id (rec_number i) = int i"
    by (simp add: rec_number_def rec_id_image NUM_RECS_def)
qed

section \<open>Creating the data\<close>

lemma run_do_exit:
  assumes "script s = r # rest" and "logfp s = Some lf"
  shows "do_exit c s = Exited c (adv s [Did (Unistd (Unlink (ckptready_fnam (glob s)))),
    Did (Stdio (Fflush lf)), Got (Unistd (Fsync lf)) r, Did (Stdio (Fclose lf))] rest (er r))"
  using assms by (simp add: do_exit_def do_sync_def prog_simps)

definition write_recs :: "int \<Rightarrow> nat list \<Rightarrow> unit fprog" where
  "write_recs destfp is =
     foreach (\<lambda>i.
       bind (sysv (Stdio (Fwrite destfp (rec_number i)))) (\<lambda>w.
       if w \<noteq> 1 then bind (gets errno) (\<lambda>e. andthen (fprintf 121 [I (int i), I e]) (do_exit 2))
       else return ())) is"

lemma write_recs_ok:
  assumes "script s = replicate (length is) (ok 1) @ rest" and "errno s = 0"
  shows "write_recs destfp is s =
    Done () (adv s (map (\<lambda>i. Got (Stdio (Fwrite destfp (rec_number i))) (ok 1)) is) rest 0)"
  using assms
proof (induction "is" arbitrary: s)
  case Nil
  then show ?case by (simp add: write_recs_def prog_simps flip: adv_nothing)
next
  case (Cons i js)
  let ?u = "adv s [Got (Stdio (Fwrite destfp (rec_number i))) (ok 1)] (replicate (length js) (ok 1) @ rest) 0"
  have "write_recs destfp (i # js) s = write_recs destfp js ?u"
    using Cons.prems by (simp add: write_recs_def prog_simps)
  also have "\<dots> = Done () (adv ?u (map (\<lambda>i. Got (Stdio (Fwrite destfp (rec_number i))) (ok 1)) js) rest 0)"
    by (rule Cons.IH) simp_all
  finally show ?case by simp
qed

lemma written_writes:
  "written fp (map (\<lambda>i. Got (Stdio (Fwrite fp (f i))) (ok 1)) is) = map f is"
  by (induction "is") (simp_all add: written_by_def)

text \<open>
  \<^bold>\<open>C12.\<close> \<open>fileio1 -C\<close>: when every write succeeds \<open>create_data\<close> writes 1024 records of 260 bytes,
  numbered from 0, each reading back as its number and the text "Record number: i", removes
  checkpoint.ready and ends with status 0.
\<close>

theorem create_data_writes:
  assumes "script s = ok fd # replicate NUM_RECS (ok 1) @ y # z # rest" and "0 \<le> fd" and "rv y = 0"
    and "logfp s = Some lf" and "i < NUM_RECS"
  shows "\<exists>t. create_data destfile s = Exited 0 t \<and>
    written fd (since s t) = map rec_number [0..<NUM_RECS] \<and>
    length (rec_number i) = sizeof_record \<and> rec_id (rec_number i) = int i \<and>
    rec_data (rec_number i) = ''Record number: '' @ dec_nat i \<and>
    Did (Unistd (Unlink (ckptready_fnam (glob s)))) \<in> set (since s t)"
proof -
  let ?u = "adv s [Did (Stdio (Fprintf 107 [S destfile])), Got (Stdio (Fopen destfile ''w'')) (ok fd)]
    (replicate NUM_RECS (ok 1) @ y # z # rest) 0"
  let ?es = "map (\<lambda>i. Got (Stdio (Fwrite fd (rec_number i))) (ok 1)) [0..<NUM_RECS]"
  have "create_data destfile s = bind (write_recs fd [0..<NUM_RECS])
      (\<lambda>_. bind (do_sync fd) (\<lambda>_. do_exit 0)) ?u"
    using assms by (simp add: create_data_def write_recs_def prog_simps)
  also have "\<dots> = bind (do_sync fd) (\<lambda>_. do_exit 0) (adv ?u ?es (y # z # rest) 0)"
    by (subst bind_def, subst write_recs_ok [where rest = "y # z # rest"]) simp_all
  also have "\<dots> = do_exit 0 (adv ?u (?es @ [Did (Stdio (Fflush fd)), Got (Unistd (Fsync fd)) y]) (z # rest) (er y))"
    using assms by (simp add: do_sync_def prog_simps)
  finally show ?thesis
    using assms by (simp add: run_do_exit [where r = z and rest = rest and lf = lf] written_writes
        written_by_def rec_number_contents length_rec_number)
qed

theorem create_data_writes_witness:
  "\<exists>t. create_data ''f'' (start (ok 5 # replicate NUM_RECS (ok 1) @ [ok 0, ok 0]) (Some 3)
      (setup_filenames None)) = Exited 0 t \<and> written 5 (trace t) = map rec_number [0..<NUM_RECS]"
proof -
  let ?s = "start (ok 5 # replicate NUM_RECS (ok 1) @ [ok 0, ok 0]) (Some 3) (setup_filenames None)"
  have "\<exists>t. create_data ''f'' ?s = Exited 0 t \<and> written 5 (since ?s t) = map rec_number [0..<NUM_RECS] \<and>
      length (rec_number 0) = sizeof_record \<and> rec_id (rec_number 0) = int 0 \<and>
      rec_data (rec_number 0) = ''Record number: '' @ dec_nat 0 \<and>
      Did (Unistd (Unlink (ckptready_fnam (glob ?s)))) \<in> set (since ?s t)"
    by (rule create_data_writes [where y = "ok 0" and z = "ok 0" and rest = "[]" and lf = 3])
      (simp_all add: NUM_RECS_def)
  then show ?thesis by (auto simp: since_def)
qed

section \<open>Copying the data\<close>

lemma fileio1_shrinking_do_sync [shrink_intros]: "shrinking (do_sync fp)"
  unfolding do_sync_def by (intro shrink_intros)

lemma fileio1_shrinking_do_exit [shrink_intros]: "shrinking (do_exit c)"
  by (auto simp: do_exit_def intro!: shrink_intros split: option.split)

lemma shrinking_slow_down [shrink_intros]: "shrinking (slow_down n)"
  unfolding slow_down_def Let_def by (intro shrink_intros)

lemma fileio1_consuming_copy_body: "consuming (copy_body srcfp destfp num)"
  unfolding copy_body_def by (auto intro!: consuming_bind consuming_sys shrink_intros)

interpretation fc: script_loop "copy_body srcfp destfp" for srcfp destfp
  by (rule script_loopI) (rule fileio1_consuming_copy_body)

definition sleeps_after :: "int \<Rightarrow> bool" where
  "sleeps_after n \<longleftrightarrow> c_mod n (if n > 100 then c_div n 10 else 10) = 0"

lemma run_slow_down:
  assumes "script s = a # rest" and "rv a = 0 \<or> er a = ENOENT"
  shows "bind (slow_down n) k s = k () (adv s
    (Got_access (slowdown_fnam (glob s)) a # (if rv a = 0 \<and> sleeps_after n then [Did (Proc (Sleep 1))] else []))
    rest (er a))"
  using assms by (auto simp: slow_down_def sleeps_after_def Let_def prog_simps)

definition turn_events :: "names \<Rightarrow> int \<Rightarrow> int \<Rightarrow> int \<Rightarrow> int \<Rightarrow> string \<Rightarrow> resp \<Rightarrow> event list" where
  "turn_events g lf srcfp destfp num b a =
     [Got (Stdio (Fread srcfp sizeof_record)) (rec_answer b),
      Did (Stdio (Fprintf 210 [I num, I (rec_id b), S (rec_data b)])), Did (Stdio (Fflush lf)),
      Got (Stdio (Fwrite destfp b)) (ok 1), Did (Stdio (Fflush destfp)), Got (Unistd (Fsync destfp)) (ok 0),
      Got_access (slowdown_fnam g) a]
     @ (if rv a = 0 \<and> sleeps_after (num + 1) then [Did (Proc (Sleep 1))] else [])"

text \<open>The answers for copying the records \<open>bs\<close>; after each the slow-down file is looked for.\<close>

definition copy_answers :: "(string \<times> resp) list \<Rightarrow> resp \<Rightarrow> resp \<Rightarrow> resp list" where
  "copy_answers bs cd z =
     concat (map (\<lambda>(b, a). [rec_answer b, ok 1, ok 0, a]) bs) @ [ok 0, ok 1, ok 0, cd, z]"

lemma fileio1_copy_loop:
  assumes "script s = copy_answers bs cd z @ rest" and "logfp s = Some lf" and "0 \<le> rv cd"
    and "\<forall>(b, a) \<in> set bs. length b = sizeof_record \<and> (rv a = 0 \<or> er a = ENOENT)"
  shows "\<exists>es u. (loop (copy_body srcfp destfp) num :: int fprog) s = Exited 0 u \<and> trace u = trace s @ es \<and>
    written destfp es = map fst bs \<and>
    Got (Unistd (Creat (copydone_fnam (glob s)) MODE_0666)) cd \<in> set es"
  using assms
proof (induction bs arbitrary: s num)
  case Nil
  then show ?case
    by (subst fc.unfold)
      (simp add: copy_answers_def copy_body_def do_sync_def prog_simps
        bind_def [of "do_exit _"] run_do_exit [where r = z and rest = rest and lf = lf] written_by_def)
next
  case (Cons ba bs)
  obtain b a where ba: "ba = (b, a)" by fastforce
  let ?e = "turn_events (glob s) lf srcfp destfp num b a"
  let ?u = "adv s ?e (copy_answers bs cd z @ rest) (er a)"
  from Cons.prems ba have "(copy_body srcfp destfp num :: (int + int) fprog) s = Done (Inl (num + 1)) ?u"
    by (simp add: copy_body_def copy_answers_def turn_events_def do_sync_def prog_simps rec_read_answer
        run_slow_down [where a = a])
  then have "(loop (copy_body srcfp destfp) num :: int fprog) s = loop (copy_body srcfp destfp) (num + 1) ?u"
    by (subst fc.unfold) (simp add: bind_def)
  moreover have "\<exists>es u. (loop (copy_body srcfp destfp) (num + 1) :: int fprog) ?u = Exited 0 u \<and>
      trace u = trace ?u @ es \<and> written destfp es = map fst bs \<and>
      Got (Unistd (Creat (copydone_fnam (glob ?u)) MODE_0666)) cd \<in> set es"
    by (rule Cons.IH) (use Cons.prems in simp_all)
  moreover have "written destfp ?e = [b]" by (simp add: turn_events_def written_by_def)
  ultimately show ?case using ba by fastforce
qed



end
