(* ===== verification/Notification.thy ===== *)
theory Notification
  imports Libcrtest
begin

text \<open>
  The eventfd notification of libcrtest/common.c (\<open>setup_notification\<close>, \<open>wait_for_events\<close>,
  \<open>notify_one_event\<close>) and the protocol the test programs build on it: children announce
  that they are ready, the parent waits for a number of announcements.
\<close>

section \<open>The operations\<close>

definition setup_notification :: "('g, int) prog" where
  "setup_notification =
     bind (sysv (Ipc (Eventfd 0 0))) (\<lambda>efd.
     if efd < 0 then bind (gets errno) (\<lambda>e. andthen (fprintf 413 [I e]) (do_exit 1))
     else return efd)"

text \<open>
  The counter is an unsigned 64-bit integer: the sum wraps around. The first out-parameter
  of a \<open>read\<close> is the value it stored.
\<close>

definition wait_for_events_body :: "int \<Rightarrow> u64 \<Rightarrow> u64 \<Rightarrow> ('g, u64 + unit) prog" where
  "wait_for_events_body efd total_ev count =
     andthen (block [fprintf 429 [I efd, I (uint total_ev)], flush_log]) (
     bind (sys (Ipc (ReadU64 efd))) (\<lambda>r.
     if rv r \<noteq> 8 then andthen (fprintf 435 [I (er r)]) (do_exit 1)
     else let events = word_of_int (out 0 r) in
       andthen (fprintf 439 [I efd, I (uint events)])
         (let count = count + events in
          if count < total_ev then return (Inl count) else return (Inr ()))))"

definition wait_for_events :: "int \<Rightarrow> u64 \<Rightarrow> ('g, unit) prog" where
  "wait_for_events efd total_ev = loop (wait_for_events_body efd total_ev) 0"

definition notify_one_event :: "int \<Rightarrow> ('g, unit) prog" where
  "notify_one_event efd =
     andthen (block [fprintf 454 [I efd], flush_log]) (
     bind (sys (Ipc (WriteU64 efd 1))) (\<lambda>r.
     if rv r \<noteq> 8 then andthen (fprintf 459 [I (er r)]) (do_exit 1)
     else return ()))"

lemma consuming_wait_for_events_body: "consuming (wait_for_events_body efd total_ev count)"
  unfolding wait_for_events_body_def andthen_def Let_def
  by (rule consuming_bind2) (auto intro!: consuming_bind consuming_sys shrink_intros)

interpretation wfe: script_loop "wait_for_events_body efd total_ev"
  for efd total_ev
  by (rule script_loopI) (rule consuming_wait_for_events_body)

section \<open>What the waiter does with the values it reads\<close>

definition read_events :: "int \<Rightarrow> int \<Rightarrow> u64 \<Rightarrow> resp \<Rightarrow> event list" where
  "read_events lf efd total_ev r =
     [Did (Stdio (Fprintf 429 [I efd, I (uint total_ev)])), Did (Stdio (Fflush lf)),
      Got (Ipc (ReadU64 efd)) r,
      Did (Stdio (Fprintf 439 [I efd, I (uint (word_of_int (out 0 r) :: u64))]))]"

abbreviation ev_val :: "resp \<Rightarrow> u64" where
  "ev_val r \<equiv> word_of_int (out 0 r)"

lemma wait_for_events_turn:
  assumes "script s = r # rest" and "logfp s = Some lf" and "rv r = 8"
  shows "wait_for_events_body efd total_ev count s =
    Done (if count + ev_val r < total_ev then Inl (count + ev_val r) else Inr ())
      (adv s (read_events lf efd total_ev r) rest (er r))"
  using assms by (simp add: wait_for_events_body_def read_events_def prog_simps Let_def)

text \<open>
  \<open>reaches total_ev c rs\<close>: the running sum, from \<open>c\<close>, of the values in \<open>rs\<close> stays below
  \<open>total_ev\<close> before the last of them and is at least \<open>total_ev\<close> with it.
\<close>

fun reaches :: "u64 \<Rightarrow> u64 \<Rightarrow> resp list \<Rightarrow> bool" where
  "reaches total_ev c [] \<longleftrightarrow> False"
| "reaches total_ev c (r # rs) \<longleftrightarrow>
     (if c + ev_val r < total_ev then reaches total_ev (c + ev_val r) rs else rs = [])"

lemma wait_for_events_loop:
  assumes "script s = rs @ rest" and "logfp s = Some lf"
    and "\<forall>r \<in> set rs. rv r = 8" and "reaches total_ev c rs"
  shows "loop (wait_for_events_body efd total_ev) c s =
    Done () (adv s (concat (map (read_events lf efd total_ev) rs)) rest (er (last rs)))"
  using assms
proof (induction rs arbitrary: s c)
  case Nil
  then show ?case by simp
next
  case (Cons r rs)
  from Cons.prems have turn: "wait_for_events_body efd total_ev c s =
      Done (if c + ev_val r < total_ev then Inl (c + ev_val r) else Inr ())
        (adv s (read_events lf efd total_ev r) (rs @ rest) (er r))"
    by (intro wait_for_events_turn) auto
  show ?case
  proof (cases "c + ev_val r < total_ev")
    case True
    with Cons.prems have "rs \<noteq> []" by auto
    with True Cons turn show ?thesis by (subst wfe.unfold) (simp add: bind_def)
  next
    case False
    with Cons.prems turn show ?thesis by (subst wfe.unfold) (simp add: bind_def prog_simps)
  qed
qed

text \<open>
  \<open>wait_for_events\<close> reads the eventfd until the 64-bit running total_ev of the values read
  first reaches \<open>total\<close>, and returns then: it neither stops earlier nor reads once more.
\<close>

theorem wait_for_events_returns:
  assumes "script s = rs @ rest" and "logfp s = Some lf"
    and "\<forall>r \<in> set rs. rv r = 8" and "reaches total_ev 0 rs"
  shows "wait_for_events efd total_ev s =
    Done () (adv s (concat (map (read_events lf efd total_ev) rs)) rest (er (last rs)))"
  unfolding wait_for_events_def using assms by (rule wait_for_events_loop)

lemma run_wait_for_events:
  assumes "script s = rs @ rest" and "logfp s = Some lf"
    and "\<forall>r \<in> set rs. rv r = 8" and "reaches total_ev 0 rs"
  shows "bind (wait_for_events efd total_ev) k s =
    k () (adv s (concat (map (read_events lf efd total_ev) rs)) rest (er (last rs)))"
  using wait_for_events_loop [OF assms] by (simp add: wait_for_events_def bind_def)

definition event_answer :: "int \<Rightarrow> resp" where
  "event_answer v = \<lparr>rv = 8, er = 0, rdat = [], outs = [v]\<rparr>"

lemma event_answer_sel [simp]:
  "rv (event_answer v) = 8" "er (event_answer v) = 0" "out 0 (event_answer v) = v"
  by (simp_all add: event_answer_def out_def)

theorem wait_for_events_returns_witness:
  "wait_for_events 5 3 (start [event_answer 1, event_answer 2, ok 0] (Some 4) ()) =
    Done () (adv (start [event_answer 1, event_answer 2, ok 0] (Some 4) ())
      (read_events 4 5 3 (event_answer 1) @ read_events 4 5 3 (event_answer 2)) [ok 0] 0)"
  by (subst wait_for_events_returns [where rs = "[event_answer 1, event_answer 2]"
        and rest = "[ok 0]" and lf = 4]) simp_all

section \<open>The protocol: many notifiers, one waiter\<close>

text \<open>
  One eventfd shared by processes that call \<open>notify_one_event\<close> and one process inside
  \<open>wait_for_events\<close>. The counter is the kernel's; its two rules are those of eventfd(2): a
  write adds the value written, a read of a counter that is not zero returns the counter and
  sets it to zero (and waits while it is zero). What is written, and what the waiter makes of
  the value read, is what the programs above do: each step is a run of
  \<open>notify_one_event\<close> or one turn of the waiter's loop, in any process state.
\<close>

record ev_sys =
  counter :: nat
  sent :: nat
  waiter :: "u64 + unit"

definition ev_init :: ev_sys where
  "ev_init = \<lparr>counter = 0, sent = 0, waiter = Inl 0\<rparr>"

inductive ev_step :: "int \<Rightarrow> u64 \<Rightarrow> ev_sys \<Rightarrow> ev_sys \<Rightarrow> bool" for efd total_ev where
  notify:
    "notify_one_event efd (p :: unit proc) = Done () q \<Longrightarrow>
     Got (Ipc (WriteU64 efd v)) r \<in> set (since p q) \<Longrightarrow>
     ev_step efd total_ev s (s\<lparr>counter := counter s + unat v, sent := sent s + 1\<rparr>)"
| read_turn:
    "waiter s = Inl c \<Longrightarrow> 0 < counter s \<Longrightarrow>
     wait_for_events_body efd total_ev c (p :: unit proc) = Done w q \<Longrightarrow>
     Got (Ipc (ReadU64 efd)) r \<in> set (since p q) \<Longrightarrow> out 0 r = int (counter s) \<Longrightarrow>
     ev_step efd total_ev s (s\<lparr>counter := 0, waiter := w\<rparr>)"

inductive ev_reach :: "int \<Rightarrow> u64 \<Rightarrow> ev_sys \<Rightarrow> bool" for efd total_ev where
  init: "ev_reach efd total_ev ev_init"
| step: "ev_reach efd total_ev s \<Longrightarrow> ev_step efd total_ev s t \<Longrightarrow> ev_reach efd total_ev t"

lemma notify_writes_one:
  assumes "notify_one_event efd p = Done () q" and "Got (Ipc (WriteU64 efd v)) r \<in> set (since p q)"
  shows "v = 1"
  using assms
  by (auto simp: notify_one_event_def do_exit_def prog_simps
      split: list.splits if_splits option.splits)

lemma wait_turn_adds:
  assumes "wait_for_events_body efd total_ev c p = Done w q"
    and "Got (Ipc (ReadU64 efd)) r \<in> set (since p q)"
  shows "w = (if c + ev_val r < total_ev then Inl (c + ev_val r) else Inr ())"
  using assms
  by (auto simp: wait_for_events_body_def do_exit_def prog_simps Let_def
      split: list.splits if_splits option.splits)

text \<open>Notifications are neither lost nor made up.\<close>

definition ev_inv :: "u64 \<Rightarrow> ev_sys \<Rightarrow> bool" where
  "ev_inv total_ev s \<longleftrightarrow> sent s < 2 ^ 64 \<longrightarrow>
     (case waiter s of
        Inl c \<Rightarrow> counter s + unat c = sent s \<and> c < total_ev
      | Inr _ \<Rightarrow> unat total_ev \<le> sent s)"

lemma ev_step_inv:
  assumes "ev_step efd total_ev s t" and "ev_inv total_ev s"
  shows "ev_inv total_ev t"
  using assms
proof (cases rule: ev_step.cases)
  case (notify p q v r)
  then have "v = 1" by (intro notify_writes_one)
  with notify assms(2) show ?thesis by (auto simp: ev_inv_def split: sum.splits)
next
  case (read_turn c p w q r)
  then have w: "w = (if c + ev_val r < total_ev then Inl (c + ev_val r) else Inr ())"
    by (intro wait_turn_adds)
  show ?thesis
    unfolding ev_inv_def
  proof
    assume "sent t < 2 ^ 64"
    with read_turn have small: "sent s < 2 ^ 64" by simp
    with read_turn assms(2) have inv: "counter s + unat c = sent s" by (simp add: ev_inv_def)
    with small have cs: "counter s < 2 ^ 64" by simp
    have "ev_val r = (of_nat (counter s) :: u64)" using read_turn by simp
    then have "unat (ev_val r :: u64) = counter s"
      using cs by (simp add: unat_of_nat take_bit_nat_eq_self)
    with inv small unat_u64_add [of c "ev_val r"] have "unat (c + ev_val r) = sent s" by linarith
    with w read_turn show "case waiter t of
        Inl c \<Rightarrow> counter t + unat c = sent t \<and> c < total_ev | Inr _ \<Rightarrow> unat total_ev \<le> sent t"
      by (auto simp: word_less_nat_alt)
  qed
qed

lemma ev_reach_inv: "ev_reach efd total_ev s \<Longrightarrow> 0 < total_ev \<Longrightarrow> ev_inv total_ev s"
proof (induction rule: ev_reach.induct)
  case init
  then show ?case by (simp add: ev_inv_def ev_init_def)
next
  case (step s t)
  then show ?case by (blast intro: ev_step_inv)
qed

text \<open>
  \<^bold>\<open>C4.\<close> In every reachable state of notifiers and a waiter on one eventfd, the waiter has
  returned from \<open>wait_for_events(efd, total)\<close> only if at least \<open>total\<close> notifications were sent;
  and while it still waits although that many were sent, the eventfd is readable, so that it is
  never stuck. (Fewer than \<open>2^64\<close> notifications, so that the 64-bit counter does not wrap.)
\<close>

theorem notification_barrier:
  assumes "ev_reach efd total_ev s" and "0 < total_ev" and "sent s < 2 ^ 64"
  shows "(waiter s = Inr () \<longrightarrow> unat total_ev \<le> sent s) \<and>
    (waiter s = Inl c \<and> unat total_ev \<le> sent s \<longrightarrow> 0 < counter s)"
proof -
  from ev_reach_inv [OF assms(1,2)] have "ev_inv total_ev s" .
  with assms(3) show ?thesis by (auto simp: ev_inv_def word_less_nat_alt split: sum.splits)
qed

text \<open>A run: two notifications, then one read.\<close>

lemma ev_notify_step:
  "ev_step efd total_ev s (s\<lparr>counter := counter s + 1, sent := sent s + 1\<rparr>)"
proof -
  let ?p = "start [ok 8] (Some 3) ()"
  let ?q = "adv ?p [Did (Stdio (Fprintf 454 [I efd])), Did (Stdio (Fflush 3)),
      Got (Ipc (WriteU64 efd 1)) (ok 8)] [] 0"
  have "notify_one_event efd ?p = Done () ?q"
    by (simp add: notify_one_event_def prog_simps)
  from ev_step.notify [OF this, of 1 "ok 8"] show ?thesis by simp
qed

lemma ev_read_step:
  assumes "waiter s = Inl c" and "0 < counter s"
  shows "ev_step efd total_ev s
    (s\<lparr>counter := 0, waiter := (if c + of_nat (counter s) < total_ev
       then Inl (c + of_nat (counter s)) else Inr ())\<rparr>)"
proof -
  let ?r = "event_answer (int (counter s))"
  let ?p = "start [?r] (Some 3) ()"
  have "wait_for_events_body efd total_ev c ?p =
      Done (if c + of_nat (counter s) < total_ev then Inl (c + of_nat (counter s)) else Inr ())
        (adv ?p (read_events 3 efd total_ev ?r) [] 0)"
    by (subst wait_for_events_turn [where r = ?r and rest = "[]" and lf = 3]) simp_all
  from ev_step.read_turn [OF assms this, of ?r] show ?thesis
    by (simp add: read_events_def)
qed

lemma ev_run_two: "ev_reach efd 2 \<lparr>counter = 0, sent = 2, waiter = Inr ()\<rparr>"
proof -
  have "ev_reach efd 2 \<lparr>counter = 1, sent = 1, waiter = Inl 0\<rparr>"
    using ev_reach.step [OF ev_reach.init ev_notify_step] by (simp add: ev_init_def)
  from ev_reach.step [OF this ev_notify_step]
  have "ev_reach efd 2 \<lparr>counter = 2, sent = 2, waiter = Inl 0\<rparr>"
    by (simp add: numeral_2_eq_2)
  from ev_reach.step [OF this ev_read_step [of _ 0]] show ?thesis by simp
qed

theorem notification_barrier_witness:
  "ev_reach 5 2 \<lparr>counter = 0, sent = 2, waiter = Inr ()\<rparr> \<and> unat (2 :: u64) \<le> (2 :: nat)"
  using notification_barrier [OF ev_run_two, of 0] ev_run_two by simp

end
