(* ===== verification/RecordLocks.thy ===== *)
theory RecordLocks
  imports Libcrtest_Files Notification
begin

text \<open>
  POSIX record locks: what the two file lock tests share (the constants, the calls) and the
  rules of fcntl(2) for such locks, byte by byte.
\<close>

section \<open>Constants\<close>

definition F_RDLCK :: int where "F_RDLCK = 0"
definition F_WRLCK :: int where "F_WRLCK = 1"
definition F_UNLCK :: int where "F_UNLCK = 2"
definition F_GETLK :: int where "F_GETLK = 5"
definition F_SETLK :: int where "F_SETLK = 6"
definition F_SETLKW :: int where "F_SETLKW = 7"
definition O_RDWR_CREAT_TRUNC :: int where "O_RDWR_CREAT_TRUNC = 2 + 64 + 512"

text \<open>The octal bits S_ISGID and S_IXGRP.\<close>

definition S_ISGID :: int where "S_ISGID = 1024"
definition S_IXGRP :: int where "S_IXGRP = 8"

lemmas lock_consts = F_RDLCK_def F_WRLCK_def F_UNLCK_def F_GETLK_def F_SETLK_def F_SETLKW_def

section \<open>Calls\<close>

abbreviation fcntl_lock :: "int \<Rightarrow> int \<Rightarrow> int \<Rightarrow> int \<Rightarrow> int \<Rightarrow> ('g, resp) prog" where
  "fcntl_lock fd cmd t a n \<equiv> sys (Unistd (Fcntl fd cmd [t, a, n]))"

definition u64_arg :: "int \<Rightarrow> arg" where
  "u64_arg i = I (uint (word_of_int i :: u64))"

text \<open>\<open>kill(getppid(), SIGUSR1); do_exit(1);\<close>\<close>

definition tell_parent :: "('g, 'a) prog" where
  "tell_parent = bind (sysv (Proc Getppid)) (\<lambda>pp. andthen (emit (Proc (Kill pp SIGUSR1))) (do_exit 1))"

section \<open>The rules of fcntl(2)\<close>

text \<open>
  For every owner (a process) and byte, the type of lock that owner has on the byte. A lock
  conflicts with one of another owner on a common byte unless both are read locks. A granted
  lock replaces what the same owner had on the range.
\<close>

type_synonym lock_table = "int \<Rightarrow> int \<Rightarrow> int"

definition no_locks :: lock_table where
  "no_locks = (\<lambda>_ _. F_UNLCK)"

definition clashes :: "int \<Rightarrow> int \<Rightarrow> bool" where
  "clashes t held \<longleftrightarrow> t \<noteq> F_UNLCK \<and> (held = F_WRLCK \<or> (held = F_RDLCK \<and> t = F_WRLCK))"

definition blockers :: "lock_table \<Rightarrow> int list \<Rightarrow> int \<Rightarrow> int \<Rightarrow> int \<Rightarrow> int \<Rightarrow> (int \<times> int) list" where
  "blockers T owners i t a n =
     filter (\<lambda>(j, b). j \<noteq> i \<and> clashes t (T j b)) (List.product owners [a..a + n - 1])"

definition conflict :: "lock_table \<Rightarrow> int list \<Rightarrow> int \<Rightarrow> int \<Rightarrow> int \<Rightarrow> int \<Rightarrow> bool" where
  "conflict T owners i t a n \<longleftrightarrow> blockers T owners i t a n \<noteq> []"

definition grant :: "lock_table \<Rightarrow> int \<Rightarrow> int \<Rightarrow> int \<Rightarrow> int \<Rightarrow> lock_table" where
  "grant T i t a n = T(i := (\<lambda>b. if a \<le> b \<and> b < a + n then t else T i b))"

definition setlk :: "lock_table \<Rightarrow> int list \<Rightarrow> int \<Rightarrow> int \<Rightarrow> int \<Rightarrow> int \<Rightarrow> resp \<times> lock_table" where
  "setlk T owners i t a n =
     (if conflict T owners i t a n then (failed EAGAIN, T) else (ok 0, grant T i t a n))"

text \<open>\<open>F_GETLK\<close> describes one conflicting lock: its type and the pid of its owner.\<close>

definition getlk :: "lock_table \<Rightarrow> int list \<Rightarrow> (int \<Rightarrow> int) \<Rightarrow> int \<Rightarrow> int \<Rightarrow> int \<Rightarrow> int \<Rightarrow> resp" where
  "getlk T owners pid i t a n =
     \<lparr>rv = 0, er = 0, rdat = [],
      outs = (case blockers T owners i t a n of [] \<Rightarrow> [F_UNLCK, 0] | (j, b) # _ \<Rightarrow> [T j b, pid j])\<rparr>"

lemma getlk_conflict:
  assumes "conflict T owners i t a n" and "\<forall>j. pid j \<noteq> 0"
  shows "0 \<le> rv (getlk T owners pid i t a n)" and "out 0 (getlk T owners pid i t a n) \<noteq> F_UNLCK"
    and "out 1 (getlk T owners pid i t a n) \<noteq> 0"
proof -
  obtain j b r where bl: "blockers T owners i t a n = (j, b) # r"
    using assms(1) by (cases "blockers T owners i t a n") (auto simp: conflict_def)
  then have "(j, b) \<in> set (blockers T owners i t a n)" by simp
  then have "clashes t (T j b)" by (simp add: blockers_def)
  with bl assms(2) show "0 \<le> rv (getlk T owners pid i t a n)"
    and "out 0 (getlk T owners pid i t a n) \<noteq> F_UNLCK" and "out 1 (getlk T owners pid i t a n) \<noteq> 0"
    by (auto simp: getlk_def out_def clashes_def lock_consts)
qed

end
