(* ===== verification/FileLock1.thy ===== *)
theory FileLock1
  imports RecordLocks Getopt
begin

text \<open>
  fileio/filelock1.c: two children take record locks, are checkpointed, and after the restart
  test that each still has its own locks and cannot take the other's. \<open>handler\<close> and
  \<open>child_handler\<close> are the signal handlers; a run of the model delivers no signal by itself.
\<close>

section \<open>Constants and globals\<close>

record lock_globals =
  test_fd :: int
  event_fd1 :: int
  event_fd2 :: int
  mandatory_locks :: bool
  pid1 :: int
  pid2 :: int

type_synonym 'a lprog = "(lock_globals, 'a) prog"

record test_arg =
  child_idx :: int
  lk_type :: int
  lk_start :: int
  lk_len :: int

definition targ :: "int \<Rightarrow> int \<Rightarrow> int \<Rightarrow> int \<Rightarrow> test_arg" where
  "targ i t a n = \<lparr>child_idx = i, lk_type = t, lk_start = a, lk_len = n\<rparr>"

definition locks_list :: "test_arg list" where
  "locks_list =
     [targ 0 F_WRLCK 0 17, targ 1 F_WRLCK 18 16, targ 0 F_WRLCK 35 27, targ 1 F_WRLCK 63 17,
      targ 0 F_RDLCK 81 25, targ 1 F_RDLCK 81 25]"

definition TEST_FILE :: string where "TEST_FILE = ''data.d/data.filelock1''"
definition LOG_FILE :: string where "LOG_FILE = ''logs.d/log.filelock1''"

section \<open>Operations\<close>

definition lock_info :: "test_arg \<Rightarrow> arg list" where
  "lock_info l = [I (lk_type l), u64_arg (lk_start l), u64_arg (lk_len l)]"

definition if_mandatory :: "unit lprog \<Rightarrow> unit lprog" where
  "if_mandatory p = bind (gets (\<lambda>s. mandatory_locks (glob s))) (\<lambda>m. if m then p else return ())"

definition set_lock :: "int \<Rightarrow> test_arg \<Rightarrow> unit lprog" where
  "set_lock fd tlock =
     bind (fcntl_lock fd F_SETLK (lk_type tlock) (lk_start tlock) (lk_len tlock)) (\<lambda>r.
     if rv r < 0 \<and> er r \<noteq> EAGAIN
     then andthen (block [fprintf 62 (lock_info tlock @ [I (er r)]), if_mandatory (fprintf 66 []), flush_log])
            tell_parent
     else fprintf 73 (lock_info tlock @ [if rv r < 0 then I (er r) else S ''done'']))"

definition lock_error :: "unit lprog" where
  "lock_error = andthen flush_log tell_parent"

text \<open>
  The answer to \<open>F_GETLK\<close> stores the type of the conflicting lock and the pid that holds it.
\<close>

definition test_lock :: "int \<Rightarrow> bool \<Rightarrow> test_arg \<Rightarrow> unit lprog" where
  "test_lock fd locked_by_me tlock =
     (let info = lock_info tlock;
          verdict = (\<lambda>conflict.
            andthen (fprintf 122 (info @ [I (of_bool locked_by_me), I (of_bool conflict)])) (
            if locked_by_me \<and> conflict then andthen (fprintf 126 info) lock_error
            else if \<not> locked_by_me \<and> \<not> conflict then andthen (fprintf 130 info) lock_error
            else fprintf 134 (info @ [S (if conflict then ''not '' else '''')]))) in
      bind (fcntl_lock fd F_SETLK (lk_type tlock) (lk_start tlock) (lk_len tlock)) (\<lambda>r.
      if rv r < 0 \<and> (er r = EAGAIN \<or> er r = EACCES) then
        bind (fcntl_lock fd F_GETLK (lk_type tlock) (lk_start tlock) (lk_len tlock)) (\<lambda>g.
        if rv g < 0 then andthen (fprintf 102 (info @ [I (er g)])) lock_error
        else if out 0 g = F_UNLCK \<or> out 1 g = 0 then andthen (fprintf 108 info) lock_error
        else verdict True)
      else if rv r < 0 then
        andthen (block [fprintf 114 (info @ [I (er r)]), if_mandatory (fprintf 117 [])]) lock_error
      else verdict False))"

definition handler :: "int \<Rightarrow> 'a lprog" where
  "handler sig = andthen (block [fprintf 151 [], flush_log]) (do_exit 0)"

definition locked_by_me :: "int \<Rightarrow> test_arg \<Rightarrow> bool" where
  "locked_by_me idx l \<longleftrightarrow> idx = child_idx l \<or> lk_type l = F_RDLCK"

definition do_child1 :: "int \<Rightarrow> int lprog" where
  "do_child1 idx =
     andthen (block
       [emit (Proc (Signal SIGINT 145)),
        foreach (\<lambda>l. if idx \<noteq> child_idx l then return () else with_glob test_fd (\<lambda>fd. set_lock fd l)) locks_list,
        with_glob event_fd1 notify_one_event,
        fprintf 181 [I idx], flush_log,
        poll test_done (emit (Proc (Sleep 1))),
        fprintf 186 [I idx], flush_log,
        foreach (\<lambda>l. with_glob test_fd (\<lambda>fd. test_lock fd (locked_by_me idx l) l)) locks_list,
        with_glob event_fd2 notify_one_event]) (
     bind (sysv (Proc Pause)) (\<lambda>_. do_exit 0))"

definition setup_test_file :: "unit lprog" where
  "setup_test_file =
     (let mode = MODE_0666 in
      bind (sysv (Unistd (Open TEST_FILE O_RDWR_CREAT_TRUNC mode))) (\<lambda>fd.
      andthen (modify (\<lambda>s. s\<lparr>glob := (glob s)\<lparr>test_fd := fd\<rparr>\<rparr>)) (
      if fd < 0 then bind (gets errno) (\<lambda>e. andthen (fprintf 234 [S TEST_FILE, I e]) (do_exit 1))
      else andthen (emit (Unistd (Write fd (replicate 256 NUL)))) (
      with_glob mandatory_locks (\<lambda>m.
      if \<not> m then return ()
      else
        let mode = and (or mode S_ISGID) (not S_IXGRP) in
        bind (sysv (Unistd (Fchmod fd mode))) (\<lambda>rc.
        if rc < 0
        then bind (gets errno) (\<lambda>e. andthen (block [fprintf 251 [S TEST_FILE, I rc, I e], fprintf 253 []]) (do_exit 1))
        else fprintf 256 [S TEST_FILE, I mode]))))))"

definition child_handler :: "int \<Rightarrow> unit lprog" where
  "child_handler sig =
     andthen (block
       [fprintf 266 [I sig], flush_log,
        if sig = SIGCHLD then bind (do_wait 1) (\<lambda>_. return ()) else return (),
        fprintf 272 [], flush_log,
        with_glob pid1 (\<lambda>p. if p \<noteq> 0 then emit (Proc (Kill p SIGKILL)) else return ()),
        with_glob pid2 (\<lambda>p. if p \<noteq> 0 then emit (Proc (Kill p SIGKILL)) else return ())])
       (do_exit (-1))"

definition usage :: "string \<Rightarrow> 'a lprog" where
  "usage argv0 =
     andthen (block [fprintf 287 [S argv0], fprintf 288 [], fprintf 289 [], fprintf 290 []]) (do_exit 1)"

fun parse_opts :: "string \<Rightarrow> options \<Rightarrow> unit lprog" where
  "parse_opts argv0 [] = return ()"
| "parse_opts argv0 ((c, _) # os) =
     (if c = CHR ''m'' then andthen (set_glob (\<lambda>g. g\<lparr>mandatory_locks := True\<rparr>)) (parse_opts argv0 os)
      else usage argv0)"

definition main :: "string list \<Rightarrow> int lprog" where
  "main argv =
     bind (sysv (Stdio (Fopen LOG_FILE ''w''))) (\<lambda>fp.
     if fp < 0 then andthen (emit (Stdio (Perror 300))) (do_exit 1)
     else
       andthen (block
         [modify (\<lambda>s. s\<lparr>logfp := Some fp\<rparr>), set_glob (\<lambda>g. g\<lparr>mandatory_locks := False\<rparr>),
          parse_opts (hd argv) (fst (getopt ''m'' (tl argv)))]) (
       bind test_done (\<lambda>d.
       if d \<noteq> 0 then andthen (emit (Stdio (Printf 313 [S TEST_DONE]))) (do_exit 1)
       else
         andthen (block
           [emit (Stdio (Printf 317 [S (hd argv), S LOG_FILE])), close_all_fds, setup_test_file,
            bind setup_notification (\<lambda>e. set_glob (\<lambda>g. g\<lparr>event_fd1 := e\<rparr>)),
            bind setup_notification (\<lambda>e. set_glob (\<lambda>g. g\<lparr>event_fd2 := e\<rparr>)),
            emit (Proc (Signal SIGUSR1 261)), emit (Proc (Signal SIGCHLD 261))]) (
         bind (sysv (Proc Fork)) (\<lambda>p1.
         andthen (set_glob (\<lambda>g. g\<lparr>pid1 := p1\<rparr>)) (
         if p1 = 0 then do_child1 0
         else andthen (with_glob event_fd1 (\<lambda>e. wait_for_events e 1)) (
         bind (sysv (Proc Fork)) (\<lambda>p2.
         andthen (set_glob (\<lambda>g. g\<lparr>pid2 := p2\<rparr>)) (
         if p2 = 0 then do_child1 1
         else andthen (block
           [with_glob event_fd1 (\<lambda>e. wait_for_events e 1),
            set_checkpoint_ready, fprintf 354 [], flush_log,
            with_glob event_fd2 (\<lambda>e. wait_for_events e 2),
            emit (Proc (Signal SIGCHLD SIG_IGN)),
            emit (Proc (Kill p1 SIGINT)), emit (Proc (Kill p2 SIGINT)),
            bind (do_wait 2) (\<lambda>_. return ())])
           (do_exit 0)))))))))) "

section \<open>The verdict of test_lock\<close>

text \<open>The two children own locks 0 and 1; any pids will do.\<close>

definition lock_answers :: "lock_table \<Rightarrow> (int \<Rightarrow> int) \<Rightarrow> int \<Rightarrow> test_arg \<Rightarrow> resp list" where
  "lock_answers T pid i l =
     (if conflict T [0, 1] i (lk_type l) (lk_start l) (lk_len l)
      then [failed EAGAIN, getlk T [0, 1] pid i (lk_type l) (lk_start l) (lk_len l)] else [ok 0])"

definition is_blocked :: "lock_table \<Rightarrow> int \<Rightarrow> test_arg \<Rightarrow> bool" where
  "is_blocked T i l \<longleftrightarrow> conflict T [0, 1] i (lk_type l) (lk_start l) (lk_len l)"

lemma test_lock_passes:
  assumes "script s = lock_answers T pid i l @ rest" and "logfp s = Some lf" and "\<forall>j. pid j \<noteq> 0"
    and "me \<longleftrightarrow> \<not> is_blocked T i l"
  shows "\<exists>t. test_lock fd me l s = Done () t \<and> script t = rest"
  using assms getlk_conflict [where pid = pid and T = T and owners = "[0, 1]" and i = i and t = "lk_type l"
      and a = "lk_start l" and n = "lk_len l"]
  by (auto simp: test_lock_def lock_answers_def is_blocked_def Let_def prog_simps not_less)

lemma test_lock_fails:
  assumes "script s = lock_answers T pid i l @ pp # rest" and "logfp s = Some lf" and "\<forall>j. pid j \<noteq> 0"
    and "me \<longleftrightarrow> is_blocked T i l"
  shows "\<exists>t. test_lock fd me l s = Exited 1 t \<and> Did (Proc (Kill (rv pp) SIGUSR1)) \<in> set (since s t)"
  using assms getlk_conflict [where pid = pid and T = T and owners = "[0, 1]" and i = i and t = "lk_type l"
      and a = "lk_start l" and n = "lk_len l"]
  by (auto simp: test_lock_def lock_answers_def is_blocked_def lock_error_def tell_parent_def do_exit_def
      Let_def prog_simps not_less)

text \<open>
  Whatever record locks the kernel holds, \<open>test_lock\<close> of a child passes exactly when the
  lock is free or its own and the child expects it to be its own, or taken by the peer and the
  child expects that; otherwise it signals the parent and ends with status 1.
\<close>

theorem test_lock_verdict:
  assumes "script s = lock_answers T pid i l @ pp # rest" and "logfp s = Some lf" and "\<forall>j. pid j \<noteq> 0"
  shows "((\<exists>t. test_lock fd me l s = Done () t) \<longleftrightarrow> (me \<longleftrightarrow> \<not> is_blocked T i l)) \<and>
    ((me \<longleftrightarrow> is_blocked T i l) \<longrightarrow>
      (\<exists>t. test_lock fd me l s = Exited 1 t \<and> Did (Proc (Kill (rv pp) SIGUSR1)) \<in> set (since s t)))"
  using test_lock_passes [OF assms, of me fd] test_lock_fails [OF assms, of me fd] by fastforce

definition g0 :: lock_globals where
  "g0 = \<lparr>test_fd = 3, event_fd1 = 5, event_fd2 = 6, mandatory_locks = False, pid1 = 0, pid2 = 0\<rparr>"

theorem test_lock_verdict_witness:
  "\<exists>t. test_lock 3 True (targ 1 F_WRLCK 18 16) (start (lock_answers no_locks (\<lambda>_. 7) 1 (targ 1 F_WRLCK 18 16)
      @ [ok 1]) (Some 4) g0) = Done () t"
proof -
  have "\<not> is_blocked no_locks 1 (targ 1 F_WRLCK 18 16)" by code_simp
  with test_lock_verdict [where T = no_locks and pid = "\<lambda>_. 7" and i = 1 and l = "targ 1 F_WRLCK 18 16"
      and pp = "ok 1" and rest = "[]" and lf = 4 and fd = 3 and me = True
      and s = "start (lock_answers no_locks (\<lambda>_. 7) 1 (targ 1 F_WRLCK 18 16) @ [ok 1]) (Some 4) g0"]
  show ?thesis by simp
qed

section \<open>The test after the restart\<close>

text \<open>
  Both children walk through \<open>locks_list\<close>, in any interleaving. The state is the kernel's
  table and how far each child is; a turn runs \<open>test_lock\<close> of one child on the answers the
  kernel gives, and \<open>None\<close> is a child that found its test failed.
\<close>

definition test_turn :: "lock_table \<Rightarrow> int \<Rightarrow> test_arg \<Rightarrow> lock_table option" where
  "test_turn T i l =
     (case test_lock (test_fd g0) (locked_by_me i l) l
             (start (lock_answers T (\<lambda>_. 100) i l @ [ok 1]) (Some 4) g0) of
        Done _ _ \<Rightarrow> Some (snd (setlk T [0, 1] i (lk_type l) (lk_start l) (lk_len l)))
      | _ \<Rightarrow> None)"

fun run_tests :: "int list \<Rightarrow> lock_table \<times> (int \<Rightarrow> nat) \<Rightarrow> (lock_table \<times> (int \<Rightarrow> nat)) option" where
  "run_tests [] st = Some st"
| "run_tests (i # is) (T, pos) =
     (if pos i < length locks_list then
        (case test_turn T i (locks_list ! pos i) of
           None \<Rightarrow> None
         | Some T' \<Rightarrow> run_tests is (T', pos(i := Suc (pos i))))
      else run_tests is (T, pos))"

text \<open>The locks the children hold when they are checkpointed.\<close>

definition checkpointed :: lock_table where
  "checkpointed = foldl (\<lambda>T l. grant T (child_idx l) (lk_type l) (lk_start l) (lk_len l)) no_locks locks_list"

lemma checkpointed_blocked:
  "i \<in> {0, 1} \<Longrightarrow> k < length locks_list \<Longrightarrow>
   locked_by_me i (locks_list ! k) \<longleftrightarrow> \<not> is_blocked checkpointed i (locks_list ! k)"
proof -
  have "list_all (\<lambda>i. list_all (\<lambda>k. locked_by_me i (locks_list ! k) \<longleftrightarrow> \<not> is_blocked checkpointed i (locks_list ! k))
      [0..<length locks_list]) [0, 1]"
    by code_simp
  then show "i \<in> {0, 1} \<Longrightarrow> k < length locks_list \<Longrightarrow> ?thesis" by (auto simp: list_all_iff)
qed

lemma grant_again:
  assumes "list_all (\<lambda>b. T i b = t) [a..a + n - 1]"
  shows "grant T i t a n = T"
proof -
  from assms have "T i b = t" if "a \<le> b" and "b < a + n" for b
    using that by (simp add: list_all_iff)
  then show ?thesis by (auto simp: grant_def fun_eq_iff)
qed

lemma checkpointed_grant:
  assumes "i \<in> {0, 1}" and "k < length locks_list" and "locked_by_me i (locks_list ! k)"
  shows "grant checkpointed i (lk_type (locks_list ! k)) (lk_start (locks_list ! k)) (lk_len (locks_list ! k))
    = checkpointed"
proof (rule grant_again)
  have "list_all (\<lambda>i. list_all (\<lambda>l. locked_by_me i l \<longrightarrow>
      list_all (\<lambda>b. checkpointed i b = lk_type l) [lk_start l..lk_start l + lk_len l - 1]) locks_list) [0, 1]"
    by code_simp
  with assms show "list_all (\<lambda>b. checkpointed i b = lk_type (locks_list ! k))
      [lk_start (locks_list ! k)..lk_start (locks_list ! k) + lk_len (locks_list ! k) - 1]"
    by (simp only: list_all_iff) auto
qed

lemma test_turn_eq:
  "test_turn T i l =
    (if locked_by_me i l \<longleftrightarrow> \<not> is_blocked T i l
     then Some (snd (setlk T [0, 1] i (lk_type l) (lk_start l) (lk_len l))) else None)"
proof (cases "locked_by_me i l \<longleftrightarrow> \<not> is_blocked T i l")
  case True
  from test_lock_passes [OF _ _ _ this, where pid = "\<lambda>_. 100" and rest = "[ok 1]" and lf = 4 and fd = "test_fd g0"
      and s = "start (lock_answers T (\<lambda>_. 100) i l @ [ok 1]) (Some 4) g0"]
  show ?thesis using True by (auto simp: test_turn_def)
next
  case False
  then have "locked_by_me i l \<longleftrightarrow> is_blocked T i l" by simp
  from test_lock_fails [OF _ _ _ this, where pid = "\<lambda>_. 100" and pp = "ok 1" and rest = "[]" and lf = 4
      and fd = "test_fd g0" and s = "start (lock_answers T (\<lambda>_. 100) i l @ [ok 1]) (Some 4) g0"]
  show ?thesis using False by (auto simp: test_turn_def)
qed

lemma checkpointed_turn:
  assumes "i \<in> {0, 1}" and "k < length locks_list"
  shows "test_turn checkpointed i (locks_list ! k) = Some checkpointed"
  using checkpointed_blocked [OF assms] checkpointed_grant [OF assms]
  by (auto simp: test_turn_eq setlk_def is_blocked_def)



text \<open>The table after the first \<open>k\<close> locks of the list were taken.\<close>

definition taken :: "nat \<Rightarrow> lock_table" where
  "taken k = foldl (\<lambda>T l. grant T (child_idx l) (lk_type l) (lk_start l) (lk_len l)) no_locks (take k locks_list)"

lemma taken_0: "no_locks = taken 0" and taken_all: "taken 6 = checkpointed"
  by (simp_all add: taken_def checkpointed_def locks_list_def)

lemma taken_step:
  assumes "k < length locks_list" and "i = child_idx (locks_list ! k)" and "\<not> is_blocked (taken k) i (locks_list ! k)"
  shows "test_turn (taken k) i (locks_list ! k) = Some (taken (Suc k))"
  using assms
  by (simp add: test_turn_eq setlk_def is_blocked_def locked_by_me_def taken_def take_Suc_conv_app_nth)

lemma taken_blocked:
  assumes "is_blocked (taken m) i (locks_list ! k)" and "\<not> locked_by_me i (locks_list ! k)"
  shows "test_turn (taken m) i (locks_list ! k) = Some (taken m)"
  using assms by (simp add: test_turn_eq setlk_def is_blocked_def)

lemma taken_read:
  "test_turn (taken 5) 1 (locks_list ! 4) = Some (taken 6)"
proof -
  have "\<not> is_blocked (taken 5) 1 (locks_list ! 4)" by code_simp
  then show ?thesis
    by (simp add: test_turn_eq setlk_def is_blocked_def locked_by_me_def)
      (simp add: taken_def locks_list_def targ_def)
qed

lemma lost_turns:
  "test_turn (taken 0) 0 (locks_list ! 0) = Some (taken 1)"
  "test_turn (taken 1) 1 (locks_list ! 0) = Some (taken 1)"
  "test_turn (taken 1) 1 (locks_list ! 1) = Some (taken 2)"
  "test_turn (taken 2) 0 (locks_list ! 1) = Some (taken 2)"
  "test_turn (taken 2) 0 (locks_list ! 2) = Some (taken 3)"
  "test_turn (taken 3) 1 (locks_list ! 2) = Some (taken 3)"
  "test_turn (taken 3) 1 (locks_list ! 3) = Some (taken 4)"
  "test_turn (taken 4) 0 (locks_list ! 3) = Some (taken 4)"
  "test_turn (taken 4) 0 (locks_list ! 4) = Some (taken 5)"
proof -
  have nb: "\<not> is_blocked (taken 0) 0 (locks_list ! 0)" "\<not> is_blocked (taken 1) 1 (locks_list ! 1)"
    "\<not> is_blocked (taken 2) 0 (locks_list ! 2)" "\<not> is_blocked (taken 3) 1 (locks_list ! 3)"
    "\<not> is_blocked (taken 4) 0 (locks_list ! 4)"
    by code_simp+
  have bl: "is_blocked (taken 1) 1 (locks_list ! 0)" "is_blocked (taken 2) 0 (locks_list ! 1)"
    "is_blocked (taken 3) 1 (locks_list ! 2)" "is_blocked (taken 4) 0 (locks_list ! 3)"
    by code_simp+
  have me: "\<not> locked_by_me 1 (locks_list ! 0)" "\<not> locked_by_me 0 (locks_list ! 1)"
    "\<not> locked_by_me 1 (locks_list ! 2)" "\<not> locked_by_me 0 (locks_list ! 3)"
    by code_simp+
  have ix: "0 < length locks_list" "1 < length locks_list" "2 < length locks_list" "3 < length locks_list"
    "4 < length locks_list" "0 = child_idx (locks_list ! 0)" "1 = child_idx (locks_list ! 1)"
    "0 = child_idx (locks_list ! 2)" "1 = child_idx (locks_list ! 3)" "0 = child_idx (locks_list ! 4)"
    by code_simp+
  show "test_turn (taken 0) 0 (locks_list ! 0) = Some (taken 1)"
    "test_turn (taken 1) 1 (locks_list ! 1) = Some (taken 2)"
    "test_turn (taken 2) 0 (locks_list ! 2) = Some (taken 3)"
    "test_turn (taken 3) 1 (locks_list ! 3) = Some (taken 4)"
    "test_turn (taken 4) 0 (locks_list ! 4) = Some (taken 5)"
    using taken_step [OF ix(1) ix(6) nb(1)] taken_step [OF ix(2) ix(7) nb(2)] taken_step [OF ix(3) ix(8) nb(3)]
      taken_step [OF ix(4) ix(9) nb(4)] taken_step [OF ix(5) ix(10) nb(5)]
    by (simp_all add: eval_nat_numeral)
  show "test_turn (taken 1) 1 (locks_list ! 0) = Some (taken 1)"
    "test_turn (taken 2) 0 (locks_list ! 1) = Some (taken 2)"
    "test_turn (taken 3) 1 (locks_list ! 2) = Some (taken 3)"
    "test_turn (taken 4) 0 (locks_list ! 3) = Some (taken 4)"
    by (fact taken_blocked [OF bl(1) me(1)] taken_blocked [OF bl(2) me(2)]
        taken_blocked [OF bl(3) me(3)] taken_blocked [OF bl(4) me(4)])+
qed


end
