(* ===== verification/FileLock2.thy ===== *)
theory FileLock2
  imports RecordLocks Getopt
begin

text \<open>
  fileio/filelock2.c: one child holds a record lock while a second waits for it in
  \<open>F_SETLKW\<close>; after the restart the first tests its lock and drops it, and the second must get it.
\<close>

section \<open>Constants and globals\<close>

record lock2_globals =
  test_fd :: int
  event_fd1 :: int
  event_fd2 :: int
  mandatory_locks :: bool
  pid1 :: int
  pid2 :: int

type_synonym 'a lprog = "(lock2_globals, 'a) prog"

record test_rec =
  tr_start :: int
  tr_len :: int

definition test_record :: test_rec where
  "test_record = \<lparr>tr_start = 0, tr_len = 17\<rparr>"

definition TEST_FILE :: string where "TEST_FILE = ''data.d/data.filelock2''"
definition LOG_FILE :: string where "LOG_FILE = ''logs.d/log.filelock2''"

section \<open>Operations\<close>

definition lock_info :: "int \<Rightarrow> test_rec \<Rightarrow> arg list" where
  "lock_info lock_type rec = [I lock_type, u64_arg (tr_start rec), u64_arg (tr_len rec)]"

definition if_mandatory :: "unit lprog \<Rightarrow> unit lprog" where
  "if_mandatory p = with_glob mandatory_locks (\<lambda>m. if m then p else return ())"

definition set_lock :: "int \<Rightarrow> int \<Rightarrow> test_rec \<Rightarrow> unit lprog" where
  "set_lock fd lock_type rec =
     bind (fcntl_lock fd F_SETLKW lock_type (tr_start rec) (tr_len rec)) (\<lambda>r.
     if rv r < 0 \<and> er r \<noteq> EAGAIN
     then andthen (block [fprintf 49 (lock_info lock_type rec @ [I (er r)]), if_mandatory (fprintf 53 []), flush_log])
            tell_parent
     else fprintf 60 (lock_info lock_type rec @ [if rv r < 0 then I (er r) else S ''done'']))"

definition lock_error :: "unit lprog" where
  "lock_error = andthen flush_log tell_parent"

definition test_lock :: "int \<Rightarrow> int \<Rightarrow> test_rec \<Rightarrow> unit lprog" where
  "test_lock fd lock_type rec =
     (let info = lock_info lock_type rec;
          verdict = (\<lambda>conflict.
            andthen (fprintf 109 (info @ [I (of_bool conflict)])) (
            if conflict then andthen (fprintf 112 info) lock_error else fprintf 116 info)) in
      bind (fcntl_lock fd F_SETLK lock_type (tr_start rec) (tr_len rec)) (\<lambda>r.
      if rv r < 0 \<and> (er r = EAGAIN \<or> er r = EACCES) then
        bind (fcntl_lock fd F_GETLK lock_type (tr_start rec) (tr_len rec)) (\<lambda>g.
        if rv g < 0 then andthen (fprintf 89 (info @ [I (er g)])) lock_error
        else if out 0 g = F_UNLCK \<or> out 1 g = 0 then andthen (fprintf 95 info) lock_error
        else verdict True)
      else if rv r < 0 then
        andthen (block [fprintf 101 (info @ [I (er r)]), if_mandatory (fprintf 104 [])]) lock_error
      else verdict False))"

definition handler :: "int \<Rightarrow> 'a lprog" where
  "handler sig = andthen (block [fprintf 133 [], flush_log]) (do_exit 0)"

definition exit_cleanly :: "'a lprog" where
  "exit_cleanly =
     andthen (with_glob event_fd2 notify_one_event) (bind (sysv (Proc Pause)) (\<lambda>_. do_exit 0))"

definition do_child1 :: "int \<Rightarrow> unit lprog" where
  "do_child1 idx =
     andthen (block
       [fprintf 153 [I idx], flush_log,
        emit (Proc (Signal SIGINT 127)),
        with_glob test_fd (\<lambda>fd. set_lock fd F_WRLCK test_record),
        with_glob event_fd1 notify_one_event,
        fprintf 168 [], flush_log]) (
     andthen (poll test_done (emit (Proc (Sleep 1)))) (
     andthen (block
       [fprintf 173 [], flush_log,
        with_glob test_fd (\<lambda>fd. test_lock fd F_WRLCK test_record),
        with_glob test_fd (\<lambda>fd. set_lock fd F_UNLCK test_record)])
       exit_cleanly))"

definition do_child2 :: "int \<Rightarrow> unit lprog" where
  "do_child2 idx =
     andthen (block
       [fprintf 188 [I idx], flush_log,
        emit (Proc (Signal SIGINT 127)),
        with_glob event_fd1 notify_one_event,
        with_glob test_fd (\<lambda>fd. set_lock fd F_WRLCK test_record)]) (
     bind test_checkpoint_done (\<lambda>d.
     if d = 0 then andthen (fprintf 209 []) (do_exit 1)
     else andthen (with_glob test_fd (\<lambda>fd. test_lock fd F_WRLCK test_record)) exit_cleanly))"

definition setup_test_file :: "unit lprog" where
  "setup_test_file =
     (let mode = MODE_0666 in
      bind (sysv (Unistd (Open TEST_FILE O_RDWR_CREAT_TRUNC mode))) (\<lambda>fd.
      andthen (set_glob (\<lambda>g. g\<lparr>test_fd := fd\<rparr>)) (
      if fd < 0 then bind (gets errno) (\<lambda>e. andthen (fprintf 236 [S TEST_FILE, I e]) (do_exit 1))
      else andthen (emit (Unistd (Write fd (replicate 256 NUL)))) (
      with_glob mandatory_locks (\<lambda>m.
      if \<not> m then return ()
      else
        let mode = and (or mode S_ISGID) (not S_IXGRP) in
        bind (sysv (Unistd (Fchmod fd mode))) (\<lambda>rc.
        if rc < 0
        then bind (gets errno) (\<lambda>e. andthen (block [fprintf 253 [S TEST_FILE, I rc, I e], fprintf 255 []]) (do_exit 1))
        else fprintf 258 [S TEST_FILE, I mode]))))))"

definition kill_children :: "int \<Rightarrow> unit lprog" where
  "kill_children sig =
     block
       [emit (Proc (Signal SIGCHLD SIG_DFL)),
        with_glob pid1 (\<lambda>p. if p \<noteq> 0 then emit (Proc (Kill p sig)) else return ()),
        with_glob pid2 (\<lambda>p. if p \<noteq> 0 then emit (Proc (Kill p sig)) else return ()),
        bind (do_wait 2) (\<lambda>_. return ())]"

definition child_handler :: "int \<Rightarrow> 'a lprog" where
  "child_handler sig =
     andthen (block [fprintf 281 [I sig], flush_log, kill_children SIGKILL]) (do_exit (-1))"

definition usage :: "string \<Rightarrow> 'a lprog" where
  "usage argv0 =
     andthen (block [fprintf 294 [S argv0], fprintf 295 [], fprintf 296 [], fprintf 297 []]) (do_exit 1)"

definition create_child :: "int \<Rightarrow> (int \<Rightarrow> unit lprog) \<Rightarrow> int lprog" where
  "create_child idx child_func =
     bind (sysv (Proc Fork)) (\<lambda>rc.
     andthen (if rc = 0 then child_func idx else return ()) (
     andthen
       (if rc < 0 then bind (gets errno) (\<lambda>e. block [fprintf 310 [I e], kill_children SIGKILL]) else return ()) (
     andthen (with_glob event_fd1 (\<lambda>e. wait_for_events e 1)) (return rc))))"

fun parse_opts :: "string \<Rightarrow> options \<Rightarrow> unit lprog" where
  "parse_opts argv0 [] = return ()"
| "parse_opts argv0 ((c, _) # os) =
     (if c = CHR ''m'' then andthen (set_glob (\<lambda>g. g\<lparr>mandatory_locks := True\<rparr>)) (parse_opts argv0 os)
      else usage argv0)"

definition main :: "string list \<Rightarrow> int lprog" where
  "main argv =
     bind (sysv (Stdio (Fopen LOG_FILE ''w''))) (\<lambda>fp.
     if fp < 0 then andthen (emit (Stdio (Perror 326))) (do_exit 1)
     else
       andthen (block
         [modify (\<lambda>s. s\<lparr>logfp := Some fp\<rparr>), fprintf 330 [], flush_log,
          set_glob (\<lambda>g. g\<lparr>mandatory_locks := False\<rparr>),
          parse_opts (hd argv) (fst (getopt ''m'' (tl argv)))]) (
       bind test_done (\<lambda>d.
       if d \<noteq> 0 then andthen (emit (Stdio (Printf 342 [S TEST_DONE]))) (do_exit 1)
       else
         andthen (block
           [emit (Stdio (Printf 346 [S (hd argv), S LOG_FILE])), close_all_fds, setup_test_file,
            bind setup_notification (\<lambda>e. set_glob (\<lambda>g. g\<lparr>event_fd1 := e\<rparr>)),
            bind setup_notification (\<lambda>e. set_glob (\<lambda>g. g\<lparr>event_fd2 := e\<rparr>)),
            emit (Proc (Signal SIGCHLD 279)), emit (Proc (Signal SIGUSR1 279)),
            bind (create_child 0 do_child1) (\<lambda>p. set_glob (\<lambda>g. g\<lparr>pid1 := p\<rparr>)),
            bind (create_child 1 do_child2) (\<lambda>p. set_glob (\<lambda>g. g\<lparr>pid2 := p\<rparr>)),
            emit (Proc (Sleep 10)),
            set_checkpoint_ready, fprintf 387 [], flush_log,
            with_glob event_fd2 (\<lambda>e. wait_for_events e 2),
            kill_children SIGINT])
           (do_exit 0))))"

section \<open>The lock is dropped only after the restart\<close>

text \<open>Asking to drop the lock.\<close>

fun drops :: "event \<Rightarrow> bool" where
  "drops (Got (Unistd (Fcntl fd cmd (t # _))) r) \<longleftrightarrow> t = F_UNLCK"
| "drops (Pending (Unistd (Fcntl fd cmd (t # _)))) \<longleftrightarrow> t = F_UNLCK"
| "drops _ \<longleftrightarrow> False"

lemma only_do_exit_drops: "only (\<lambda>e. \<not> drops e) (do_exit c)"
  by (auto simp: do_exit_def intro!: only_intros split: option.split)

lemma only_set_lock: "t \<noteq> F_UNLCK \<Longrightarrow> only (\<lambda>e. \<not> drops e) (set_lock fd t rec)"
  unfolding set_lock_def if_mandatory_def tell_parent_def
  by (auto intro!: only_intros only_do_exit_drops)

lemma only_notify: "only (\<lambda>e. \<not> drops e) (notify_one_event efd)"
  unfolding notify_one_event_def by (auto intro!: only_intros only_do_exit_drops)

lemma only_test_done: "only (\<lambda>e. \<not> drops e) test_done"
  unfolding test_done_def by (auto intro!: only_intros only_do_exit_drops)

lemma only_poll_test_done: "only (\<lambda>e. \<not> drops e) (poll test_done (emit (Proc (Sleep 1))))"
  unfolding poll_def
  by (rule td.only_loop) (auto simp: poll_body_def intro!: only_intros only_test_done)

lemma test_done_success:
  assumes "test_done s = Done d t" and "d \<noteq> 0"
  shows "\<exists>r. rv r = 0 \<and> since s t = [Got_access TEST_DONE r]"
  using assms
  by (auto simp: test_done_def do_exit_def prog_simps split: list.splits if_splits option.splits)

lemma appending_set_lock [append_intros]: "appending (set_lock fd t rec)"
  unfolding set_lock_def if_mandatory_def tell_parent_def with_glob_def by (intro append_intros)

lemma appending_test_lock [append_intros]: "appending (test_lock fd t rec)"
  unfolding test_lock_def if_mandatory_def tell_parent_def lock_error_def with_glob_def Let_def
  by (intro append_intros)

lemma appending_notify [append_intros]: "appending (notify_one_event efd)"
  unfolding notify_one_event_def by (intro append_intros)

lemma appending_exit_cleanly [append_intros]: "appending exit_cleanly"
  unfolding exit_cleanly_def with_glob_def by (intro append_intros)

lemma only_test_lock: "only (\<lambda>e. \<not> drops e) (test_lock fd F_WRLCK rec)"
  unfolding test_lock_def if_mandatory_def tell_parent_def lock_error_def Let_def
  by (auto simp: lock_consts intro!: only_intros only_do_exit_drops)

lemma test_lock_success:
  assumes "test_lock fd F_WRLCK rec s = Done () t"
  shows "\<exists>q es. 0 \<le> rv q \<and>
    since s t = Got (Unistd (Fcntl fd F_SETLK [F_WRLCK, tr_start rec, tr_len rec])) q # es"
  using assms
  by (auto simp: test_lock_def if_mandatory_def tell_parent_def lock_error_def do_exit_def Let_def prog_simps
      split: list.splits if_splits option.splits)

text \<open>What comes after the poll for test-done comes after a look at test-done that succeeded.\<close>

lemma after_poll_test_done:
  assumes "e \<in> set (since s (final (bind (poll test_done (emit (Proc (Sleep 1)))) (\<lambda>_. q) s)))"
    and "drops e" and "appending q"
  shows "\<exists>as r t. since s (final (bind (poll test_done (emit (Proc (Sleep 1)))) (\<lambda>_. q) s)) =
      as @ Got_access TEST_DONE r # since t (final (q t)) \<and> rv r = 0 \<and> e \<in> set (since t (final (q t)))"
proof -
  from after_unit [OF assms(1) only_poll_test_done _ assms(3)] assms(2)
  obtain t where p: "poll test_done (emit (Proc (Sleep 1))) s = Done () t"
    and e: "e \<in> set (since t (final (q t)))"
    and s: "since s (final (bind (poll test_done (emit (Proc (Sleep 1)))) (\<lambda>_. q) s)) =
      since s t @ since t (final (q t))"
    by auto
  from td.poll_returns_after_success [OF p] obtain u d
    where u: "grows s u" and d: "test_done u = Done d t" "d \<noteq> 0" by blast
  from test_done_success [OF d] obtain r where r: "rv r = 0" "since u t = [Got_access TEST_DONE r]" by blast
  have "grows u t" using d(1) by (rule appending_Done [OF appending_test_done])
  from since_trans [OF u this] r have "since s t = since s u @ [Got_access TEST_DONE r]" by simp
  with s e r show ?thesis by auto
qed

lemma do_child1_parts:
  "do_child1 idx =
     bind (block
       [fprintf 153 [I idx], flush_log,
        emit (Proc (Signal SIGINT 127)),
        with_glob test_fd (\<lambda>fd. set_lock fd F_WRLCK test_record),
        with_glob event_fd1 notify_one_event,
        fprintf 168 [], flush_log]) (\<lambda>_.
     bind (poll test_done (emit (Proc (Sleep 1)))) (\<lambda>_.
     bind (block [fprintf 173 [], flush_log]) (\<lambda>_.
     bind (with_glob test_fd (\<lambda>fd. test_lock fd F_WRLCK test_record)) (\<lambda>_.
     andthen (with_glob test_fd (\<lambda>fd. set_lock fd F_UNLCK test_record)) exit_cleanly))))"
  by (simp add: do_child1_def andthen_def bind_assoc bind_return_fun)

text \<open>
  \<^bold>\<open>C16.\<close> Whatever the kernel and the other processes do, the first child asks to drop its lock
  only after it has found test-done (the restart is over) and has then been granted the lock
  again by \<open>F_SETLK\<close>: until then the second child stays in its \<open>F_SETLKW\<close>.
\<close>

theorem lock_kept_until_test_done:
  assumes "e \<in> set (since s (final (do_child1 idx s)))" and "drops e"
  shows "\<exists>as r bs fd q cs. since s (final (do_child1 idx s)) =
      as @ Got_access TEST_DONE r # bs @ Got (Unistd (Fcntl fd F_SETLK [F_WRLCK, 0, 17])) q # cs \<and>
    rv r = 0 \<and> 0 \<le> rv q \<and> e \<in> set cs"
proof -
  let ?Q = "\<lambda>e. \<not> drops e"
  let ?D = "andthen (with_glob test_fd (\<lambda>fd. set_lock fd F_UNLCK test_record)) (exit_cleanly :: unit lprog)"
  let ?T = "with_glob test_fd (\<lambda>fd. test_lock fd F_WRLCK test_record)"
  let ?A = "block [fprintf 153 [I idx], flush_log, emit (Proc (Signal SIGINT 127)),
      with_glob test_fd (\<lambda>fd. set_lock fd F_WRLCK test_record), with_glob event_fd1 notify_one_event,
      fprintf 168 [], flush_log]"
  let ?B = "block [fprintf 173 [], flush_log]"
  let ?P = "poll test_done (emit (Proc (Sleep 1)))"
  have e: "\<not> ?Q e" using assms(2) by simp
  have app: "appending ?D" "appending (bind ?T (\<lambda>_. ?D))" "appending (bind ?B (\<lambda>_. bind ?T (\<lambda>_. ?D)))"
    "appending (bind ?P (\<lambda>_. bind ?B (\<lambda>_. bind ?T (\<lambda>_. ?D))))"
    by (intro append_intros td.appending_poll)+
  have oA: "only ?Q ?A" by (auto intro!: only_intros only_set_lock only_notify simp: lock_consts)
  have oB: "only ?Q ?B" by (auto intro!: only_intros)
  have oT: "only ?Q ?T" by (intro only_intros only_test_lock)
  from after_unit [OF assms(1) [unfolded do_child1_parts] oA e app(4)] obtain t1
    where e1: "e \<in> set (since t1 (final (bind ?P (\<lambda>_. bind ?B (\<lambda>_. bind ?T (\<lambda>_. ?D))) t1)))"
    and s1: "since s (final (bind ?A (\<lambda>_. bind ?P (\<lambda>_. bind ?B (\<lambda>_. bind ?T (\<lambda>_. ?D)))) s)) =
      since s t1 @ since t1 (final (bind ?P (\<lambda>_. bind ?B (\<lambda>_. bind ?T (\<lambda>_. ?D))) t1))"
    by (elim exE conjE) (rule that)
  from after_poll_test_done [OF e1 assms(2) app(3)] obtain as r t2 where r: "rv r = 0"
    and s2: "since t1 (final (bind ?P (\<lambda>_. bind ?B (\<lambda>_. bind ?T (\<lambda>_. ?D))) t1)) =
      as @ Got_access TEST_DONE r # since t2 (final (bind ?B (\<lambda>_. bind ?T (\<lambda>_. ?D)) t2))"
    and e2: "e \<in> set (since t2 (final (bind ?B (\<lambda>_. bind ?T (\<lambda>_. ?D)) t2)))"
    by (elim exE conjE) (rule that)
  from after_unit [OF e2 oB e app(2)] obtain t3 where e3: "e \<in> set (since t3 (final (bind ?T (\<lambda>_. ?D) t3)))"
    and s3: "since t2 (final (bind ?B (\<lambda>_. bind ?T (\<lambda>_. ?D)) t2)) = since t2 t3 @ since t3 (final (bind ?T (\<lambda>_. ?D) t3))"
    by (elim exE conjE) (rule that)
  from after_unit [OF e3 oT e app(1)] obtain t4 where p4: "?T t3 = Done () t4"
    and e4: "e \<in> set (since t4 (final (?D t4)))"
    and s4: "since t3 (final (bind ?T (\<lambda>_. ?D) t3)) = since t3 t4 @ since t4 (final (?D t4))"
    by (elim exE conjE) (rule that)
  from p4 obtain q es where q: "0 \<le> rv q"
    "since t3 t4 = Got (Unistd (Fcntl (test_fd (glob t3)) F_SETLK [F_WRLCK, 0, 17])) q # es"
    using test_lock_success [of "test_fd (glob t3)" test_record t3 t4]
    by (auto simp: run_with_glob test_record_def)
  have "since s (final (do_child1 idx s)) = (since s t1 @ as) @ Got_access TEST_DONE r # since t2 t3
      @ Got (Unistd (Fcntl (test_fd (glob t3)) F_SETLK [F_WRLCK, 0, 17])) q # (es @ since t4 (final (?D t4)))"
    by (simp only: do_child1_parts s1 s2 s3 s4 q append_assoc append_Cons)
  moreover have "e \<in> set (es @ since t4 (final (?D t4)))" using e4 by simp
  ultimately show ?thesis using r q(1) by blast
qed

definition g0 :: lock2_globals where
  "g0 = \<lparr>test_fd = 3, event_fd1 = 5, event_fd2 = 6, mandatory_locks = False, pid1 = 0, pid2 = 0\<rparr>"

definition child1_run :: "lock2_globals proc" where
  "child1_run = start [ok 0, ok 8, failed ENOENT, ok 0, ok 0, ok 0] (Some 4) g0"

lemma child1_run_drops:
  "Got (Unistd (Fcntl 3 F_SETLKW [F_UNLCK, 0, 17])) (ok 0) \<in> set (since child1_run (final (do_child1 0 child1_run)))"
proof -
  have poll2: "poll test_done (emit (Proc (Sleep 1))) s = Done () (adv s [Got_access TEST_DONE (failed ENOENT),
      Did (Proc (Sleep 1)), Got_access TEST_DONE (ok 0)] rest 0)"
    if "script s = failed ENOENT # ok 0 # rest" for s :: "lock2_globals proc" and rest
    using that
    by (subst td.poll_unfold, simp add: run_test_done(2) [where r = "failed ENOENT"] prog_simps,
        subst td.poll_unfold, simp add: run_test_done(1) [where r = "ok 0"] prog_simps)
  show ?thesis
    by (simp add: child1_run_def g0_def do_child1_def set_lock_def test_lock_def notify_one_event_def
        exit_cleanly_def test_record_def lock_info_def Let_def prog_simps bind_def [of "poll _ _"]
        poll2 [where rest = "[ok 0, ok 0]"])
qed

theorem lock_kept_until_test_done_witness:
  "\<exists>as r bs fd q cs. since child1_run (final (do_child1 0 child1_run)) =
      as @ Got_access TEST_DONE r # bs @ Got (Unistd (Fcntl fd F_SETLK [F_WRLCK, 0, 17])) q # cs \<and>
    rv r = 0 \<and> 0 \<le> rv q \<and> Got (Unistd (Fcntl 3 F_SETLKW [F_UNLCK, 0, 17])) (ok 0) \<in> set cs"
  by (rule lock_kept_until_test_done) (simp_all add: child1_run_drops)

end
