(* ===== verification/FileLease1.thy ===== *)
theory FileLease1
  imports RecordLocks
begin

text \<open>
  fileio/filelease1.c: two children take a read lease on one file, a third a write lease on
  another, and after the restart each tests that it still has its lease.
\<close>

section \<open>Constants and globals\<close>

definition F_SETLEASE :: int where "F_SETLEASE = 1024"
definition F_GETLEASE :: int where "F_GETLEASE = 1025"
definition O_RDONLY :: int where "O_RDONLY = 0"

definition TEST_FILE1 :: string where "TEST_FILE1 = ''data.d/data.filelease1''"
definition TEST_FILE2 :: string where "TEST_FILE2 = ''data.d/data.filelease2''"
definition LOG_FILE :: string where "LOG_FILE = ''logs.d/log.filelease1''"

record test_arg =
  ta_fd :: int
  ta_type :: int
  ta_pid :: int

record lease_globals =
  event_fd1 :: int
  test_data :: "test_arg list"

type_synonym 'a lprog = "(lease_globals, 'a) prog"

text \<open>\<open>test_data[3]\<close> starts as zeros.\<close>

definition init_globals :: lease_globals where
  "init_globals = \<lparr>event_fd1 = 0, test_data = replicate 3 \<lparr>ta_fd = 0, ta_type = 0, ta_pid = 0\<rparr>\<rparr>"

definition upd_data :: "nat \<Rightarrow> (test_arg \<Rightarrow> test_arg) \<Rightarrow> unit lprog" where
  "upd_data i f = set_glob (\<lambda>g. g\<lparr>test_data := (test_data g)[i := f (test_data g ! i)]\<rparr>)"

section \<open>Operations\<close>

definition set_lease :: "int \<Rightarrow> int \<Rightarrow> unit lprog" where
  "set_lease fd type =
     andthen (fprintf 38 [I fd, I type]) (
     bind (sys (Unistd (Fcntl fd F_SETLEASE [type]))) (\<lambda>r.
     if rv r < 0
     then andthen (block [fprintf 43 [I type, I (er r)], if er r = EINVAL then fprintf 46 [] else return (), flush_log])
            tell_parent
     else fprintf 53 [I type, S ''done'']))"

definition get_lease_desc :: "int \<Rightarrow> string" where
  "get_lease_desc type =
     (if type = F_RDLCK then ''F_RDLCK'' else if type = F_WRLCK then ''F_WRLCK''
      else if type = F_UNLCK then ''F_UNLCK'' else ''Unknown !'')"

definition test_lease :: "int \<Rightarrow> int \<Rightarrow> unit lprog" where
  "test_lease fd exp_type =
     bind (sys (Unistd (Fcntl fd F_GETLEASE [0]))) (\<lambda>r.
     if rv r < 0 \<or> rv r > 2
     then andthen (fprintf 73 [S (get_lease_desc exp_type), I (rv r), I (er r)]) (do_exit 1)
     else if rv r \<noteq> exp_type
     then andthen (fprintf 80 [S (get_lease_desc exp_type), S (get_lease_desc (rv r))]) (do_exit 1)
     else fprintf 85 [S (get_lease_desc exp_type), S (get_lease_desc (rv r))])"

definition do_child :: "nat \<Rightarrow> unit lprog" where
  "do_child idx =
     with_glob (\<lambda>g. test_data g ! idx) (\<lambda>d.
     andthen (block
       [fprintf 103 [S (get_lease_desc (ta_type d))],
        set_lease (ta_fd d) (ta_type d),
        with_glob event_fd1 notify_one_event,
        fprintf 116 [],
        wait_test_done,
        fprintf 120 [],
        test_lease (ta_fd d) (ta_type d)])
       (do_exit 0))"

definition setup_test_data :: "unit lprog" where
  "setup_test_data =
     bind (sysv (Unistd (Open TEST_FILE1 O_RDWR_CREAT_TRUNC MODE_0666))) (\<lambda>fd.
     if fd < 0 then bind (gets errno) (\<lambda>e. andthen (fprintf 140 [S TEST_FILE1, I e]) (do_exit 1))
     else andthen (block [emit (Unistd (Write fd (replicate 256 NUL))), emit (Unistd (Close fd))]) (
     bind (sysv (Unistd (Open TEST_FILE1 O_RDONLY 0))) (\<lambda>fd.
     if fd < 0 then bind (gets errno) (\<lambda>e. andthen (fprintf 153 [S TEST_FILE1, I e]) (do_exit 1))
     else andthen (block
       [upd_data 0 (\<lambda>d. d\<lparr>ta_fd := fd, ta_type := F_RDLCK\<rparr>),
        upd_data 1 (\<lambda>d. d\<lparr>ta_fd := fd, ta_type := F_RDLCK\<rparr>),
        fprintf 164 [I fd, I F_RDLCK]]) (
     bind (sysv (Unistd (Open TEST_FILE2 O_RDWR_CREAT_TRUNC MODE_0666))) (\<lambda>fd.
     if fd < 0 then bind (gets errno) (\<lambda>e. andthen (fprintf 170 [S TEST_FILE2, I e]) (do_exit 1))
     else block
       [emit (Unistd (Write fd (replicate 256 NUL))),
        upd_data 2 (\<lambda>d. d\<lparr>ta_fd := fd, ta_type := F_WRLCK\<rparr>)])))))"

definition child_handler :: "int \<Rightarrow> unit lprog" where
  "child_handler sig =
     andthen (block
       [fprintf 190 [I sig],
        foreach (\<lambda>i. with_glob (\<lambda>g. ta_pid (test_data g ! i)) (\<lambda>p.
          if p \<noteq> 0 then emit (Proc (Kill p SIGKILL)) else return ())) [0..<3],
        fprintf 195 [], flush_log,
        bind (do_wait 3) (\<lambda>_. return ())])
       (do_exit (-1))"

definition fork_child :: "nat \<Rightarrow> unit lprog" where
  "fork_child i =
     bind (sysv (Proc Fork)) (\<lambda>pid.
     andthen (if pid = 0 then do_child i else return ()) (upd_data i (\<lambda>d. d\<lparr>ta_pid := pid\<rparr>)))"

definition main :: "string list \<Rightarrow> int lprog" where
  "main argv =
     bind test_done (\<lambda>d.
     if d \<noteq> 0 then andthen (emit (Stdio (Printf 209 [S TEST_DONE]))) (do_exit 1)
     else bind (sysv (Stdio (Fopen LOG_FILE ''w''))) (\<lambda>fp.
     if fp < 0 then andthen (emit (Stdio (Perror 215))) (do_exit 1)
     else
       andthen (block
         [modify (\<lambda>s. s\<lparr>logfp := Some fp\<rparr>),
          emit (Stdio (Printf 219 [S (hd argv), S LOG_FILE])), close_all_fds, setup_test_data,
          bind setup_notification (\<lambda>e. set_glob (\<lambda>g. g\<lparr>event_fd1 := e\<rparr>)),
          emit (Proc (Signal SIGUSR1 182)), emit (Proc (Signal SIGCHLD 182)),
          foreach fork_child [0..<3],
          with_glob event_fd1 (\<lambda>e. wait_for_events e 1),
          set_checkpoint_ready, fprintf 252 [], flush_log,
          bind (do_wait 3) (\<lambda>_. return ())])
         (do_exit 0)))"

section \<open>The child's verdict\<close>

text \<open>
  A child whose lease was granted and whose notification went out waits, however long,
  for test-done and then ends with status 0 if \<open>F_GETLEASE\<close> reports exactly the type of lease it
  took before the checkpoint, and with status 1 otherwise.
\<close>

theorem do_child_verdict:
  assumes "script s = ok 0 # ok 8 # ms @ f # g # rest" and "logfp s = Some lf"
    and "\<forall>r \<in> set ms. rv r \<noteq> 0 \<and> er r = ENOENT" and "rv f = 0"
    and "ta_type (test_data (glob s) ! idx) \<in> {F_RDLCK, F_WRLCK, F_UNLCK}"
  shows "\<exists>t. do_child idx s = Exited (if rv g = ta_type (test_data (glob s) ! idx) then 0 else 1) t"
proof -
  have "0 \<le> ta_type (test_data (glob s) ! idx) \<and> ta_type (test_data (glob s) ! idx) \<le> 2"
    using assms(5) by (auto simp: lock_consts)
  with assms show ?thesis
    by (auto simp: do_child_def set_lease_def notify_one_event_def test_lease_def prog_simps
        td_polls [where ms = ms and f = f and rest = "g # rest"] do_exit_def)
qed

definition g0 :: lease_globals where
  "g0 = \<lparr>event_fd1 = 5, test_data = replicate 3 \<lparr>ta_fd = 3, ta_type = F_RDLCK, ta_pid = 0\<rparr>\<rparr>"

theorem do_child_verdict_witness:
  "\<exists>t. do_child 2 (start [ok 0, ok 8, failed ENOENT, ok 0, ok 2] (Some 4) g0) = Exited 1 t"
proof -
  let ?s = "start [ok 0, ok 8, failed ENOENT, ok 0, ok 2] (Some 4) g0"
  have "\<exists>t. do_child 2 ?s = Exited (if rv (ok 2) = ta_type (test_data (glob ?s) ! 2) then 0 else 1) t"
    by (rule do_child_verdict [where ms = "[failed ENOENT]" and f = "ok 0" and rest = "[]" and lf = 4])
      (simp_all add: g0_def)
  then show ?thesis by (simp add: g0_def F_RDLCK_def)
qed

section \<open>The parent does not wait for all its children\<close>

text \<open>What a trace read from an eventfd.\<close>

definition reads_of :: "int \<Rightarrow> event list \<Rightarrow> resp list" where
  "reads_of efd es = concat (map (\<lambda>e. case e of Got (Ipc (ReadU64 f)) r \<Rightarrow> if f = efd then [r] else [] | _ \<Rightarrow> []) es)"

definition forks_of :: "event list \<Rightarrow> resp list" where
  "forks_of es = concat (map (\<lambda>e. case e of Got (Proc Fork) r \<Rightarrow> [r] | _ \<Rightarrow> []) es)"

definition early_run :: "lease_globals proc" where
  "early_run = start
     [failed ENOENT, ok 3, ok 4, failed 0, ok 5, ok 5, ok 6, ok 7, ok 101, ok 102, ok 103,
      event_answer 1, failed ENOENT, ok 8] None init_globals"

text \<open>
  The parent starts three children and asks \<open>wait_for_events\<close> for one event only: in this
  run it creates checkpoint-ready after a single child has announced that it holds its lease.
\<close>

theorem ready_after_one_of_three:
  "\<exists>t. main [''filelease1''] early_run = Blocked t \<and>
     forks_of (trace t) = [ok 101, ok 102, ok 103] \<and> reads_of 7 (trace t) = [event_answer 1] \<and>
     Got (Unistd (Creat CKPT_READY MODE_0666)) (ok 8) \<in> set (trace t)"
proof -
  have w: "bind (wait_for_events 7 1) k s = k () (adv s (read_events 3 7 1 (event_answer 1)) rest 0)"
    if "script s = event_answer 1 # rest" and "logfp s = Some 3" for s k and rest :: "resp list"
    using that by (subst run_wait_for_events [where rs = "[event_answer 1]" and lf = 3 and rest = rest]) simp_all
  have c: "bind close_all_fds k s = k () (adv s [Got (Dirent (Opendir ''/proc/self/fd'')) (ok 4),
      Got (Dirent (Readdir 4)) (failed 0), Did (Dirent (Closedir 4))] rest 0)"
    if "script s = ok 4 # failed 0 # rest" for s k and rest :: "resp list"
    using that by (subst run_close_all_fds [where ns = "[]" and d = "ok 4" and l = "failed 0" and rest = rest])
      simp_all
  have d: "bind (do_wait 3) k s = Blocked (adv s [Pending (Proc (Waitpid (-1) 0))] [] (errno s))"
    if "script s = []" for s k
    using that unfolding do_wait_def
    by (simp add: prog_simps bind_def [of "loop _ _"], subst dw.unfold) (simp add: do_wait_body_def prog_simps)
  show ?thesis
    by (simp add: early_run_def main_def run_test_done(2) [where r = "failed ENOENT"] prog_simps c
        setup_test_data_def setup_notification_def upd_data_def fork_child_def upt_rec set_checkpoint_ready_def
        w d)
      (simp add: reads_of_def forks_of_def read_events_def)
qed

end
