(* ===== verification/FileLease2.thy ===== *)
theory FileLease2
  imports RecordLocks
begin

text \<open>
  fileio/filelease2.c: the holder of a write lease is checkpointed inside the SIGIO handler that
  the lease breaker causes. Signals are delivered where the program waits: the first
  out-parameter of the answer to \<open>sleep\<close> or \<open>pause\<close> is the signal that interrupted it (0 for
  none), the second the pid in its siginfo, and the handler runs there.
\<close>

section \<open>Constants and globals\<close>

definition F_SETLEASE :: int where "F_SETLEASE = 1024"
definition F_GETLEASE :: int where "F_GETLEASE = 1025"
definition O_RDWR :: int where "O_RDWR = 2"
definition WNOHANG :: int where "WNOHANG = 1"

definition TEST_FILE1 :: string where "TEST_FILE1 = ''data.d/data.filelease2''"
definition LOG_FILE :: string where "LOG_FILE = ''logs.d/log.filelease2''"

record lease2_globals =
  event_fd1 :: int
  test_fd :: int
  got_sigio :: int
  num_children :: int
  pid1 :: int
  pid2 :: int
  test_data :: string

type_synonym 'a lprog = "(lease2_globals, 'a) prog"

section \<open>Operations\<close>

definition get_lease_desc :: "int \<Rightarrow> string" where
  "get_lease_desc type =
     (if type = F_RDLCK then ''F_RDLCK'' else if type = F_WRLCK then ''F_WRLCK''
      else if type = F_UNLCK then ''F_UNLCK'' else ''Unknown !'')"

definition set_lease :: "int \<Rightarrow> int \<Rightarrow> unit lprog" where
  "set_lease fd type =
     andthen (fprintf 51 [I fd, S (get_lease_desc type)]) (
     bind (sys (Unistd (Fcntl fd F_SETLEASE [type]))) (\<lambda>r.
     if rv r < 0
     then andthen (block [fprintf 56 [I type, I (er r)], if er r = EINVAL then fprintf 59 [] else return (), flush_log])
            tell_parent
     else return ()))"

definition test_lease :: "int \<Rightarrow> int \<Rightarrow> unit lprog" where
  "test_lease fd exp_type =
     bind (sys (Unistd (Fcntl fd F_GETLEASE [0]))) (\<lambda>r.
     if rv r < 0 \<or> rv r > 2
     then andthen (fprintf 73 [S (get_lease_desc exp_type), I (rv r), I (er r)]) (do_exit 1)
     else if rv r \<noteq> exp_type
     then andthen (fprintf 80 [S (get_lease_desc exp_type), S (get_lease_desc (rv r))]) (do_exit 1)
     else fprintf 85 [S (get_lease_desc exp_type), S (get_lease_desc (rv r))])"

definition set_signal_action :: "int \<Rightarrow> nat \<Rightarrow> unit lprog" where
  "set_signal_action sig action =
     bind (sysv (Proc (Signal sig action))) (\<lambda>rc.
     if rc < 0 then bind (gets errno) (\<lambda>e. andthen (fprintf 101 [I sig, I e]) (do_exit 1)) else return ())"

definition iohandler :: "int \<Rightarrow> unit lprog" where
  "iohandler sig =
     andthen (block [set_glob (\<lambda>g. g\<lparr>got_sigio := got_sigio g + 1\<rparr>), fprintf 112 [I sig], flush_log]) (
     with_glob (\<lambda>g. (test_fd g, test_data g)) (\<lambda>(fd, dat).
     bind (sysv (Unistd (Write fd dat))) (\<lambda>rc.
     if rc \<noteq> 256 then bind (gets errno) (\<lambda>e. andthen (fprintf 120 [I rc, I e]) (do_exit 1))
     else block
       [set_checkpoint_ready, fprintf 126 [], flush_log,
        wait_test_done,
        fprintf 135 [], flush_log,
        set_lease fd F_UNLCK])))"

text \<open>\<open>while(!got_sigio) sleep(1);\<close>\<close>

definition sigio_body :: "unit \<Rightarrow> (unit + unit) lprog" where
  "sigio_body _ =
     with_glob got_sigio (\<lambda>n.
     if n \<noteq> 0 then return (Inr ())
     else bind (sys (Proc (Sleep 1))) (\<lambda>r.
       andthen (if out 0 r = SIGIO then iohandler SIGIO else return ()) (return (Inl ()))))"

definition do_child1 :: "int \<Rightarrow> unit lprog" where
  "do_child1 idx =
     andthen (block [fprintf 160 [S (get_lease_desc F_WRLCK)], flush_log, set_signal_action SIGIO 107]) (
     bind (sysv (Unistd (Open TEST_FILE1 O_RDWR 0))) (\<lambda>fd.
     andthen (set_glob (\<lambda>g. g\<lparr>test_fd := fd\<rparr>)) (
     if fd < 0 then bind (gets errno) (\<lambda>e. andthen (fprintf 168 [S TEST_FILE1, I e]) (do_exit 1))
     else andthen (block
       [set_lease fd F_WRLCK,
        with_glob event_fd1 notify_one_event,
        loop sigio_body ()])
       (do_exit 0))))"

text \<open>The bytes a read of at most \<open>n\<close> bytes left in the buffer; bytes not stored are unspecified in C.\<close>

definition do_child2 :: "int \<Rightarrow> unit lprog" where
  "do_child2 idx =
     andthen (block
       [fprintf 197 [S (get_lease_desc F_WRLCK)], flush_log,
        with_glob event_fd1 notify_one_event]) (
     bind (sysv (Unistd (Open TEST_FILE1 O_RDWR 0))) (\<lambda>fd.
     if fd < 0 then bind (gets errno) (\<lambda>e. andthen (fprintf 212 [S TEST_FILE1, I e]) (do_exit 1))
     else bind test_checkpoint_done (\<lambda>d.
     if d = 0 then andthen (fprintf 223 []) (do_exit 1)
     else bind (sys (Unistd (Read fd 256))) (\<lambda>r.
     if rv r \<noteq> 256 then andthen (fprintf 229 [I (rv r), I (er r)]) (do_exit 1)
     else with_glob test_data (\<lambda>dat.
     if take 256 (rdat r) \<noteq> dat then andthen (fprintf 235 []) (do_exit 1)
     else do_exit 0)))))"

definition setup_test_data :: "unit lprog" where
  "setup_test_data =
     bind (sysv (Unistd (Unlink TEST_FILE1))) (\<lambda>rc.
     bind (gets errno) (\<lambda>e.
     if rc < 0 \<and> e \<noteq> ENOENT then andthen (fprintf 253 [S TEST_FILE1, I e]) (do_exit 1)
     else bind (sysv (Unistd (Open TEST_FILE1 O_RDWR_CREAT_TRUNC MODE_0666))) (\<lambda>fd.
     if fd < 0 then bind (gets errno) (\<lambda>e. andthen (fprintf 260 [S TEST_FILE1, I e]) (do_exit 1))
     else block
       [emit (Unistd (Write fd (replicate 256 NUL))),
        set_glob (\<lambda>g. g\<lparr>test_data := replicate 256 (CHR 0x01)\<rparr>),
        emit (Unistd (Close fd))])))"

definition kill_children :: "int \<Rightarrow> unit lprog" where
  "kill_children sig =
     block
       [with_glob pid1 (\<lambda>p. if p \<noteq> 0 then emit (Proc (Kill p sig)) else return ()),
        with_glob pid2 (\<lambda>p. if p \<noteq> 0 then emit (Proc (Kill p sig)) else return ()),
        bind (do_wait 2) (\<lambda>_. return ())]"

definition create_child :: "int \<Rightarrow> (int \<Rightarrow> unit lprog) \<Rightarrow> int lprog" where
  "create_child idx child_func =
     bind (sysv (Proc Fork)) (\<lambda>rc.
     andthen (if rc = 0 then child_func idx else return ()) (
     andthen
       (if rc < 0 then bind (gets errno) (\<lambda>e. block [fprintf 292 [I e], kill_children SIGKILL]) else return ()) (
     andthen (block
       [fprintf 297 [I idx, I rc], flush_log,
        set_glob (\<lambda>g. g\<lparr>num_children := num_children g + 1\<rparr>),
        with_glob event_fd1 (\<lambda>e. wait_for_events e 1)])
       (return rc))))"

text \<open>The loop of \<open>child_handler\<close>; \<open>Inr True\<close> is \<open>goto failed\<close>.\<close>

definition reap_body :: "int \<Rightarrow> unit \<Rightarrow> (unit + bool) lprog" where
  "reap_body si_pid _ =
     with_glob num_children (\<lambda>n.
     if n = 0 then return (Inr False)
     else bind (sys (Proc (Waitpid (-1) WNOHANG))) (\<lambda>r.
       if rv r < 0 then andthen (fprintf 320 [I (rv r), I (er r)]) (return (Inr True))
       else if rv r = 0 then return (Inr False)
       else let status = word_of_int (out 0 r) in
         if WIFEXITED status \<and> WEXITSTATUS status = 0
         then andthen (set_glob (\<lambda>g. g\<lparr>num_children := num_children g - 1\<rparr>)) (return (Inl ()))
         else andthen (print_exit_status si_pid status) (return (Inr True))))"

definition handler_failed :: "unit lprog" where
  "handler_failed = andthen (block [kill_children SIGKILL, fprintf 345 []]) (do_exit 1)"

definition child_handler :: "int \<Rightarrow> int \<Rightarrow> unit lprog" where
  "child_handler sig si_pid =
     andthen (block [fprintf 311 [I sig], flush_log]) (
     if sig = SIGUSR1 then handler_failed
     else bind (loop (reap_body si_pid) ()) (\<lambda>bad.
     if bad then handler_failed
     else with_glob num_children (\<lambda>n.
       if n = 0 then andthen (fprintf 338 []) (do_exit 0) else return ())))"

definition pause_body :: "unit \<Rightarrow> (unit + unit) lprog" where
  "pause_body _ =
     with_glob num_children (\<lambda>n.
     if n = 0 then return (Inr ())
     else bind (sys (Proc Pause)) (\<lambda>r.
       andthen
         (if out 0 r = SIGUSR1 \<or> out 0 r = SIGCHLD then child_handler (out 0 r) (out 1 r) else return ())
         (return (Inl ()))))"

definition main :: "string list \<Rightarrow> int lprog" where
  "main argv =
     bind test_done (\<lambda>d.
     if d \<noteq> 0 then andthen (emit (Stdio (Printf 352 [S TEST_DONE]))) (do_exit 1)
     else bind (sysv (Stdio (Fopen LOG_FILE ''w''))) (\<lambda>fp.
     if fp < 0 then andthen (emit (Stdio (Perror 358))) (do_exit 1)
     else
       andthen (block
         [modify (\<lambda>s. s\<lparr>logfp := Some fp\<rparr>),
          emit (Stdio (Printf 362 [S (hd argv), S LOG_FILE])), close_all_fds, setup_test_data,
          bind setup_notification (\<lambda>e. set_glob (\<lambda>g. g\<lparr>event_fd1 := e\<rparr>)),
          set_signal_action SIGUSR1 306, set_signal_action SIGCHLD 306,
          bind (create_child 0 do_child1) (\<lambda>p. set_glob (\<lambda>g. g\<lparr>pid1 := p\<rparr>)),
          bind (create_child 1 do_child2) (\<lambda>p. set_glob (\<lambda>g. g\<lparr>pid2 := p\<rparr>)),
          emit (Proc (Sleep 10)),
          loop pause_body ()])
         (do_exit 9)))"

section \<open>The handler that reaps the children\<close>

lemma consuming_turn:
  assumes "\<And>x. \<not> c x \<Longrightarrow> consuming (p x)"
    and "with_glob sel (\<lambda>n. if c n then return (Inr b) else p n) s = Done (Inl a) t"
  shows "length (script t) < length (script s)"
  using assms(2) consumingD [OF assms(1)] by (auto simp: run_with_glob run_return split: if_splits)

lemma shrinking_kill_children [shrink_intros]: "shrinking (kill_children sig)"
  unfolding kill_children_def do_wait_def
  by (auto intro!: shrink_intros dw.shrinking_loop simp: do_wait_body_def Let_def split: prod.split)

lemma shrinking_handler_failed [shrink_intros]: "shrinking handler_failed"
  unfolding handler_failed_def by (intro shrink_intros)

lemma shrinking_iohandler [shrink_intros]: "shrinking (iohandler sig)"
proof -
  have "shrinking wait_test_done"
    unfolding poll_def by (rule td.shrinking_loop) (auto simp: poll_body_def intro!: shrink_intros)
  then show ?thesis
    unfolding iohandler_def set_lease_def tell_parent_def
    by (auto intro!: shrink_intros split: prod.split)
qed

interpretation rp: script_loop "reap_body si_pid" for si_pid
proof
  fix a s a' t
  assume "reap_body si_pid a s = Done (Inl a') t"
  then show "length (script t) < length (script s)"
    unfolding reap_body_def
    by (rule consuming_turn [rotated]) (auto simp: Let_def intro!: consuming_bind consuming_sys shrink_intros)
qed

lemma shrinking_child_handler [shrink_intros]: "shrinking (child_handler sig si_pid)"
  unfolding child_handler_def
  by (auto intro!: shrink_intros rp.shrinking_loop simp: reap_body_def Let_def)

interpretation sb: script_loop sigio_body
proof
  fix a s a' t
  assume "sigio_body a s = Done (Inl a') t"
  then show "length (script t) < length (script s)"
    unfolding sigio_body_def
    by (rule consuming_turn [rotated]) (auto intro!: consuming_bind consuming_sys shrink_intros)
qed

interpretation pb: script_loop pause_body
proof
  fix a s a' t
  assume "pause_body a s = Done (Inl a') t"
  then show "length (script t) < length (script s)"
    unfolding pause_body_def
    by (rule consuming_turn [rotated]) (auto intro!: consuming_bind consuming_sys shrink_intros)
qed

definition clean :: "resp \<Rightarrow> bool" where
  "clean r \<longleftrightarrow> 0 < rv r \<and> WIFEXITED (word_of_int (out 0 r)) \<and> WEXITSTATUS (word_of_int (out 0 r)) = 0"

definition reap_ev :: "resp \<Rightarrow> event" where
  "reap_ev r = Got (Proc (Waitpid (-1) WNOHANG)) r"

definition minus_children :: "nat \<Rightarrow> lease2_globals proc \<Rightarrow> lease2_globals proc" where
  "minus_children k s = s\<lparr>glob := (glob s)\<lparr>num_children := num_children (glob s) - int k\<rparr>\<rparr>"

lemma reap_clean:
  assumes "clean r" and "script s = r # rest" and "num_children (glob s) \<noteq> 0"
  shows "loop (reap_body si_pid) () s =
    loop (reap_body si_pid) () (minus_children 1 (adv s [reap_ev r] rest (er r)))"
  using assms
  by (subst rp.unfold)
    (simp add: reap_body_def clean_def reap_ev_def minus_children_def prog_simps bind_def [of "loop _ _"])

lemma minus_children_sel [simp]:
  "script (minus_children k s) = script s" "logfp (minus_children k s) = logfp s"
  "trace (minus_children k s) = trace s" "num_children (glob (minus_children k s)) = num_children (glob s) - int k"
  "errno (minus_children k s) = errno s"
  by (simp_all add: minus_children_def)

lemma minus_children_adv:
  "minus_children k (adv s es rs e) = adv (minus_children k s) es rs e"
  "minus_children k (minus_children j s) = minus_children (j + k) s"
  by (simp_all add: minus_children_def)

lemma reap_all_clean:
  assumes "\<forall>r \<in> set cs. clean r" and "script s = cs @ rest" and "int (length cs) \<le> num_children (glob s)"
  shows "loop (reap_body si_pid) () s = loop (reap_body si_pid) ()
    (if cs = [] then s else adv (minus_children (length cs) s) (map reap_ev cs) rest (er (last cs)))"
  using assms
proof (induction cs arbitrary: s)
  case Nil
  then show ?case by simp
next
  case (Cons r cs)
  let ?u = "adv (minus_children 1 s) [reap_ev r] (cs @ rest) (er r)"
  have "loop (reap_body si_pid) () s = loop (reap_body si_pid) () ?u"
    using Cons.prems by (subst reap_clean [where r = r and rest = "cs @ rest"]) (auto simp: minus_children_adv)
  also have "\<dots> = loop (reap_body si_pid) ()
      (if cs = [] then ?u else adv (minus_children (length cs) ?u) (map reap_ev cs) rest (er (last cs)))"
    by (rule Cons.IH) (use Cons.prems in simp_all)
  finally show ?case using Cons.prems(2) by (auto simp: minus_children_adv)
qed

text \<open>
  When children of the test have ended cleanly (status 0), \<open>child_handler\<close> on SIGCHLD
  reaps each of them and lowers \<open>num_children\<close> by their number; when that makes it 0 it reports
  success and ends the process with status 0, and otherwise, with no more to reap, it returns to
  the interrupted program.
\<close>

theorem child_handler_counts:
  assumes "\<forall>r \<in> set cs. clean r" and "cs \<noteq> []" and "int (length cs) \<le> num_children (glob s)"
    and "script s = cs @ (if int (length cs) = num_children (glob s) then [] else [ok 0]) @ rest"
    and "logfp s = Some lf"
  shows "\<exists>t. child_handler SIGCHLD si_pid s =
      (if int (length cs) = num_children (glob s) then Exited 0 t else Done () t) \<and>
    num_children (glob t) = num_children (glob s) - int (length cs) \<and> script t = rest"
proof -
  let ?s = "adv s [Did (Stdio (Fprintf 311 [I SIGCHLD])), Did (Stdio (Fflush lf))] (script s) (errno s)"
  let ?rest = "(if int (length cs) = num_children (glob s) then [] else [ok 0]) @ rest"
  let ?u = "adv (minus_children (length cs) ?s) (map reap_ev cs) ?rest (er (last cs))"
  have "loop (reap_body si_pid) () ?s = loop (reap_body si_pid) () ?u"
    using assms by (subst reap_all_clean [where cs = cs and rest = ?rest]) simp_all
  also have "\<exists>u. \<dots> = Done False u \<and> num_children (glob u) = num_children (glob s) - int (length cs) \<and>
      script u = rest \<and> logfp u = Some lf"
    using assms(5) by (subst rp.unfold) (simp add: reap_body_def prog_simps minus_children_adv)
  finally obtain u where "loop (reap_body si_pid) () ?s = Done False u"
    and "num_children (glob u) = num_children (glob s) - int (length cs)" and "script u = rest"
    and "logfp u = Some lf" by blast
  with assms(5) show ?thesis
    by (auto simp: child_handler_def SIGCHLD_def SIGUSR1_def prog_simps bind_def [of "loop _ _"] do_exit_def)
qed

definition g0 :: lease2_globals where
  "g0 = \<lparr>event_fd1 = 5, test_fd = 3, got_sigio = 0, num_children = 2, pid1 = 101, pid2 = 102, test_data = []\<rparr>"

theorem child_handler_counts_witness:
  "\<exists>t. child_handler SIGCHLD 101 (start [ok 101, ok 102] (Some 4) g0) = Exited 0 t \<and> num_children (glob t) = 0"
proof -
  have "clean (ok 101)" "clean (ok 102)" by code_simp+
  then have "\<exists>t. child_handler SIGCHLD 101 (start [ok 101, ok 102] (Some 4) g0) =
      (if int (length [ok 101, ok 102]) = num_children (glob (start [ok 101, ok 102] (Some 4) g0))
       then Exited 0 t else Done () t) \<and>
      num_children (glob t) = num_children (glob (start [ok 101, ok 102] (Some 4) g0)) - int (length [ok 101, ok 102]) \<and>
      script t = []"
    by (intro child_handler_counts [where lf = 4]) (simp_all add: g0_def)
  then show ?thesis by (auto simp: g0_def)
qed

text \<open>
  A SIGCHLD that arrives before \<open>create_child\<close> has counted its child (between \<open>fork\<close> and
  \<open>num_children++\<close>) makes the test report success and exit with status 0, without a look at
  how that child ended.
\<close>

theorem child_handler_passes_uncounted:
  assumes "num_children (glob s) = 0" and "logfp s = Some lf"
  shows "child_handler SIGCHLD si_pid s = Exited 0 (adv s
    [Did (Stdio (Fprintf 311 [I SIGCHLD])), Did (Stdio (Fflush lf)), Did (Stdio (Fprintf 338 [])),
     Did (Stdio (Fflush lf)), Did (Stdio (Fclose lf))] (script s) (errno s))"
proof -
  have lp: "loop (reap_body si_pid) () u = Done False u" if "num_children (glob u) = 0" for u
    using that by (subst rp.unfold) (simp add: reap_body_def prog_simps)
  with assms show ?thesis
    by (simp add: child_handler_def SIGCHLD_def SIGUSR1_def prog_simps bind_def [of "loop _ _"] do_exit_def)
qed

theorem child_handler_passes_uncounted_witness:
  "child_handler SIGCHLD 101 (start [\<lparr>rv = 101, er = 0, rdat = [], outs = [256]\<rparr>] (Some 4) (g0\<lparr>num_children := 0\<rparr>)) =
    Exited 0 (adv (start [\<lparr>rv = 101, er = 0, rdat = [], outs = [256]\<rparr>] (Some 4) (g0\<lparr>num_children := 0\<rparr>))
    [Did (Stdio (Fprintf 311 [I SIGCHLD])), Did (Stdio (Fflush 4)), Did (Stdio (Fprintf 338 [])),
     Did (Stdio (Fflush 4)), Did (Stdio (Fclose 4))] [\<lparr>rv = 101, er = 0, rdat = [], outs = [256]\<rparr>] 0)"
  by (subst child_handler_passes_uncounted [where lf = 4]) simp_all

end
