(* ===== verification/FSetOwn.thy ===== *)
theory FSetOwn
  imports RecordLocks
begin

text \<open>
  fileio/fsetown1.c: a child asks for SIGIO on the read end of a pipe and waits in \<open>read\<close> while
  it is checkpointed; after the restart the parent tests that the child still owns the pipe and
  writes to it. SIGIO is delivered where the child waits: the first out-parameter of the answer
  to its \<open>read\<close> is not 0 if the signal came before the data.
\<close>

section \<open>Constants and globals\<close>

definition F_SETFL :: int where "F_SETFL = 4"
definition F_SETOWN :: int where "F_SETOWN = 8"
definition F_GETOWN :: int where "F_GETOWN = 9"
definition O_ASYNC :: int where "O_ASYNC = 8192"

definition LOG_FILE :: string where "LOG_FILE = ''logs.d/log.fsetown1''"

record own_globals =
  pipe_fds :: "int \<times> int"
  event_fd1 :: int
  got_sigio :: int

type_synonym 'a oprog = "(own_globals, 'a) prog"

section \<open>Operations\<close>

definition iohandler :: "int \<Rightarrow> unit oprog" where
  "iohandler sig = block [fprintf 27 [I sig], flush_log, set_glob (\<lambda>g. g\<lparr>got_sigio := 1\<rparr>)]"

definition wait_for_child :: "'a oprog" where
  "wait_for_child =
     bind (sys (Proc (Waitpid (-1) 0))) (\<lambda>r.
     let status = word_of_int (out 0 r) in
     if rv r < 0 then andthen (fprintf 39 [I (rv r), I (er r)]) (do_exit 1)
     else if WIFEXITED status \<and> WEXITSTATUS status = 0
     then andthen (fprintf 45 []) (do_exit 0)
     else andthen (block [fprintf 48 [], print_exit_status (rv r) status]) (do_exit 1))"

definition set_owner :: "int \<Rightarrow> unit oprog" where
  "set_owner fd =
     andthen (block [fprintf 60 [], emit (Proc (Signal SIGIO 25))]) (
     bind (sys (Unistd (Fcntl fd F_SETFL [O_ASYNC]))) (\<lambda>r.
     if rv r < 0 then andthen (fprintf 67 [I (er r)]) tell_parent
     else bind (sysv (Proc Getpid)) (\<lambda>pid.
     bind (sys (Unistd (Fcntl fd F_SETOWN [pid]))) (\<lambda>r.
     if rv r < 0
     then andthen (block [fprintf 74 [I (er r)], if er r = EINVAL then fprintf 77 [] else return ()]) tell_parent
     else fprintf 82 []))))"

definition test_owner :: "int \<Rightarrow> int \<Rightarrow> unit oprog" where
  "test_owner fd exp_owner =
     bind (sys (Unistd (Fcntl fd F_GETOWN [0]))) (\<lambda>r.
     if rv r < 0 then andthen (fprintf 103 [I (er r)]) (do_exit 1)
     else if rv r \<noteq> exp_owner
     then andthen (block [fprintf 109 [I exp_owner, I (rv r)], emit (Proc (Kill exp_owner SIGKILL))]) wait_for_child
     else fprintf 119 [I exp_owner])"

definition do_child :: "'a oprog" where
  "do_child =
     with_glob (\<lambda>g. fst (pipe_fds g)) (\<lambda>fd.
     andthen (block
       [set_owner fd,
        with_glob event_fd1 notify_one_event,
        fprintf 141 [], flush_log]) (
     bind (sys (Unistd (Read fd 4))) (\<lambda>r.
     andthen (if out 0 r \<noteq> 0 then iohandler SIGIO else return ()) (
     if rv r \<le> 0 then andthen (fprintf 146 [I (rv r), I (er r)]) (do_exit 1)
     else with_glob got_sigio (\<lambda>got.
       if got = 0 then andthen (fprintf 150 [I (rv r), S (rdat r)]) (do_exit 1)
       else andthen (fprintf 155 [I (rv r), S (rdat r)]) (do_exit 0))))))"

definition setup_test_data :: "unit oprog" where
  "setup_test_data =
     bind (sys (Unistd Pipe)) (\<lambda>r.
     if rv r < 0 then andthen (fprintf 171 [I (rv r), I (er r)]) (do_exit 1)
     else set_glob (\<lambda>g. g\<lparr>pipe_fds := (out 0 r, out 1 r)\<rparr>))"

definition usr1_handler :: "int \<Rightarrow> 'a oprog" where
  "usr1_handler sig = andthen (block [fprintf 185 [I sig], flush_log]) wait_for_child"

definition main :: "string list \<Rightarrow> int oprog" where
  "main argv =
     bind test_done (\<lambda>d.
     if d \<noteq> 0 then andthen (emit (Stdio (Printf 197 [S TEST_DONE]))) (do_exit 1)
     else bind (sysv (Stdio (Fopen LOG_FILE ''w''))) (\<lambda>fp.
     if fp < 0 then andthen (emit (Stdio (Perror 203))) (do_exit 1)
     else
       andthen (block
         [modify (\<lambda>s. s\<lparr>logfp := Some fp\<rparr>),
          emit (Stdio (Printf 207 [S (hd argv), S LOG_FILE])), close_all_fds, setup_test_data,
          bind setup_notification (\<lambda>e. set_glob (\<lambda>g. g\<lparr>event_fd1 := e\<rparr>)),
          emit (Proc (Signal SIGUSR1 179))]) (
       bind (sysv (Proc Fork)) (\<lambda>pid.
       if pid = 0 then do_child
       else if pid < 0 then bind (gets errno) (\<lambda>e. andthen (fprintf 228 [I e]) (do_exit 1))
       else
         andthen (block
           [with_glob event_fd1 (\<lambda>e. wait_for_events e 1),
            set_checkpoint_ready, fprintf 240 [], flush_log,
            wait_test_done,
            with_glob (\<lambda>g. fst (pipe_fds g)) (\<lambda>fd. test_owner fd pid)]) (
         with_glob (\<lambda>g. snd (pipe_fds g)) (\<lambda>fd.
         bind (sysv (Unistd (Write fd ''done''))) (\<lambda>rc.
         if rc < 0
         then bind (gets errno) (\<lambda>e. andthen (block [fprintf 253 [I rc, I e], emit (Proc (Kill pid SIGKILL))]) (do_exit 1))
         else andthen flush_log wait_for_child)))))))"

section \<open>The child's verdict\<close>

text \<open>
  A child that became the owner of the pipe and announced itself ends with status 0 exactly
  when its \<open>read\<close> brought data and SIGIO had come first.
\<close>

theorem child_passes_iff_notified:
  assumes "script s = ok 0 # ok pid # ok 0 # ok 8 # r # rest" and "logfp s = Some lf"
    and "got_sigio (glob s) = 0"
  shows "\<exists>t. (do_child :: int oprog) s = Exited (if 0 < rv r \<and> out 0 r \<noteq> 0 then 0 else 1) t"
  using assms
  by (auto simp: do_child_def set_owner_def notify_one_event_def iohandler_def prog_simps do_exit_def)

definition g0 :: own_globals where
  "g0 = \<lparr>pipe_fds = (3, 4), event_fd1 = 5, got_sigio = 0\<rparr>"

theorem child_passes_iff_notified_witness:
  "\<exists>t. (do_child :: int oprog) (start [ok 0, ok 77, ok 0, ok 8, \<lparr>rv = 4, er = 0, rdat = ''done'', outs = [1]\<rparr>]
      (Some 6) g0) = Exited 0 t"
proof -
  let ?r = "\<lparr>rv = 4, er = 0, rdat = ''done'', outs = [1]\<rparr>"
  have "\<exists>t. (do_child :: int oprog) (start [ok 0, ok 77, ok 0, ok 8, ?r] (Some 6) g0) =
      Exited (if 0 < rv ?r \<and> out 0 ?r \<noteq> 0 then 0 else 1) t"
    by (rule child_passes_iff_notified [where rest = "[]" and lf = 6]) (simp_all add: g0_def)
  then show ?thesis by (simp add: out_def)
qed

end
