(* ===== verification/Labels.thy ===== *)
theory Labels
  imports Mounts Getopt
begin

text \<open>
  libcrtest/labels.h and log.h, and what the programs built on them share: the label macro that
  names the points where a test can be checkpointed, the log macro, the options that choose a
  label, and \<open>eflags\<close> of epoll/libeptest.c. Messages of a macro are named by the line of the
  header, those of a program by the line of the program.
\<close>

section \<open>log.h\<close>

text \<open>The log macro without a lock: print, flush and sync the log.\<close>

definition log_msg :: "tag \<Rightarrow> nat \<Rightarrow> arg list \<Rightarrow> ('g, unit) prog" where
  "log_msg t n args =
     block [to_log (Stdio (Log t n args)), flush_log,
            bind (gets logfp) (\<lambda>fp. emit (Unistd (Fsync (case fp of None \<Rightarrow> -1 | Some f \<Rightarrow> f))))]"

definition log_error :: "nat \<Rightarrow> string \<Rightarrow> ('g, unit) prog" where
  "log_error n what = bind (gets errno) (\<lambda>e. log_msg FAIL n [S what, I e])"

lemma run_log_msg [prog_simps]:
  "bind (log_msg t n args) k s =
     (case logfp s of None \<Rightarrow> Crashed s
      | Some f \<Rightarrow> k () (adv s [Did (Stdio (Log t n args)), Did (Stdio (Fflush f)), Did (Unistd (Fsync f))]
                          (script s) (errno s)))"
  by (auto simp: log_msg_def prog_simps split: option.split)

lemma run_log_error [prog_simps]:
  "bind (log_error n what) k s = bind (log_msg FAIL n [S what, I (errno s)]) k s"
  by (simp add: log_error_def prog_simps)

section \<open>labels.h\<close>

definition stdout :: int where "stdout = 1"
definition stderr :: int where "stderr = 2"
definition INT_MAX :: int where "INT_MAX = 2147483647"

definition print_labels :: "string list \<Rightarrow> int \<Rightarrow> ('g, unit) prog" where
  "print_labels labels pout =
     andthen (if 0 < length labels then emit (Stdio (FprintfTo pout 28 [])) else return ())
       (foreach (\<lambda>i. emit (Stdio (FprintfTo pout 30 [I (int i), S (labels ! i)]))) [0..<length labels])"

text \<open>Whether the label macro checkpoints at operation \<open>op\<close>, whose label is \<open>lbl\<close>.\<close>

definition ckpt_here :: "'g proc \<Rightarrow> int \<Rightarrow> string \<Rightarrow> bool" where
  "ckpt_here s op lbl \<longleftrightarrow> ckpt_op_num s = op \<or> ckpt_op_num s = -1 \<or> ckpt_label s = Some lbl"

text \<open>
  One use of the macro. The action gives an answer whose \<open>rv\<close> is the value assigned; \<open>Inl\<close> is
  the jump to \<open>out\<close>, \<open>Inr\<close> goes on with \<open>op_num + 1\<close>.
\<close>

definition label :: "string list \<Rightarrow> int \<Rightarrow> string \<Rightarrow> ('g, resp) prog \<Rightarrow> ('g, resp + resp) prog" where
  "label labels op lbl action =
     (if op < 0 \<or> int (length labels) \<le> op then crash
      else
        andthen (fprintf 45 [S (labels ! nat op), S lbl]) (
        bind action (\<lambda>r.
        bind (gets (\<lambda>s. ckpt_here s op lbl)) (\<lambda>here.
        andthen (if here then do_ckpt else return ()) (
        if rv r < 0 then andthen (fprintf 54 [I op, S lbl]) (return (Inl r))
        else return (Inr r))))))"

text \<open>A label, where its jump goes, and what follows it.\<close>

definition at_label :: "string list \<Rightarrow> int \<Rightarrow> string \<Rightarrow> ('g, resp) prog \<Rightarrow> (resp \<Rightarrow> ('g, 'a) prog) \<Rightarrow>
    (resp \<Rightarrow> ('g, 'a) prog) \<Rightarrow> ('g, 'a) prog" where
  "at_label labels op lbl action out_of k =
     bind (label labels op lbl action) (\<lambda>x. case x of Inl r \<Rightarrow> out_of r | Inr r \<Rightarrow> k r)"

text \<open>The action \<open>ret + 0\<close>.\<close>

definition keep :: "int \<Rightarrow> ('g, resp) prog" where
  "keep ret = return (ok ret)"

lemma run_at_label:
  assumes "0 \<le> op" and "op < int (length labels)" and "logfp s = Some lf"
  shows "at_label labels op lbl action out_of k s =
    bind action (\<lambda>r. bind (gets (\<lambda>s. ckpt_here s op lbl)) (\<lambda>here.
      andthen (if here then do_ckpt else return ()) (
      if rv r < 0 then andthen (fprintf 54 [I op, S lbl]) (out_of r) else k r)))
      (adv s [Did (Stdio (Fprintf 45 [S (labels ! nat op), S lbl]))] (script s) (errno s))"
  using assms
  by (simp add: at_label_def label_def prog_simps)
    (auto simp: bind_def andthen_def return_def split: outcome.split intro!: arg_cong2 [where f = bind])

section \<open>Choosing a label\<close>

definition long_options :: "longopt list" where
  "long_options =
     [(''print-labels'', 0, CHR ''L''), (''print-max-label-no'', 0, CHR ''N''), (''help'', 0, CHR ''h''),
      (''label'', 1, CHR ''l''), (''num'', 1, CHR ''n''), (''freezer'', 1, CHR ''f'')]"

text \<open>
  The cases that the option loops of the programs have in common. The parameters are what
  differs: the lines of the messages for -N and -n, the arguments the latter starts with, the
  program's usage text, and what it does for any other option.
\<close>

definition label_option ::
  "string list \<Rightarrow> nat \<Rightarrow> nat \<Rightarrow> arg list \<Rightarrow> (int \<Rightarrow> ('g, unit) prog) \<Rightarrow>
   (char \<Rightarrow> string option \<Rightarrow> ('g, unit) prog) \<Rightarrow> char \<times> string option \<Rightarrow> ('g, unit) prog" where
  "label_option labels line_N line_n args_n usage other co =
     (case co of (c, optarg) \<Rightarrow>
      let top = int (length labels) - 1 in
      if c = CHR ''L'' then andthen (print_labels labels stdout) (exit_with 0)
      else if c = CHR ''N'' then andthen (emit (Stdio (Printf line_N [I top]))) (exit_with 0)
      else if c = CHR ''h'' then andthen (usage stdout) (exit_with 0)
      else if c = CHR ''l'' then modify (\<lambda>s. s\<lparr>ckpt_label := optarg\<rparr>)
      else if c = CHR ''n'' then
        (let scanned = sscanf_d (the optarg) in
         andthen (case scanned of None \<Rightarrow> return () | Some n \<Rightarrow> modify (\<lambda>s. s\<lparr>ckpt_op_num := n\<rparr>)) (
         bind (gets ckpt_op_num) (\<lambda>n.
         if scanned = None \<or> n < 0 \<or> int (length labels) \<le> n
         then andthen (block [emit (Stdio (FprintfTo stderr line_n (args_n @ [I top, I n]))), usage stderr]) (exit_with 1)
         else return ())))
      else other c optarg)"

text \<open>The initial choice of every program but eventfd/rw: the last label, by number and by name.\<close>

definition last_label :: "string list \<Rightarrow> ('g, unit) prog" where
  "last_label labels =
     modify (\<lambda>s. s\<lparr>ckpt_op_num := int (length labels) - 1, ckpt_label := Some (last labels)\<rparr>)"

section \<open>eflags\<close>

definition epoll_flags :: "(u32 \<times> string) list" where
  "epoll_flags =
     [(0x1, ''EPOLLIN''), (0x2, ''EPOLLPRI''), (0x4, ''EPOLLOUT''), (0x8, ''EPOLLERR''), (0x10, ''EPOLLHUP''),
      (0x2000, ''EPOLLRDHUP''), (0x80000000, ''EPOLLET''), (0x40000000, ''EPOLLONESHOT'')]"

definition EPOLLIN :: u32 where "EPOLLIN = 0x1"
definition EPOLLOUT :: u32 where "EPOLLOUT = 0x4"
definition EPOLLET :: u32 where "EPOLLET = 0x80000000"

text \<open>
  The peflag macro on the C string in the buffer, the offset \<open>p\<close> in it, the room left (a \<open>size_t\<close>,
  which wraps) and the separator: \<open>snprintf\<close> writes what fits at \<open>p\<close> and ends the string there, and
  returns the full length.
\<close>

type_synonym eflags_state = "string \<times> nat \<times> u64 \<times> string"

definition peflag :: "u32 \<Rightarrow> u32 \<times> string \<Rightarrow> eflags_state \<Rightarrow> eflags_state" where
  "peflag events fl st =
     (case (fl, st) of ((flag, name), (buffer, p, sz, sep)) \<Rightarrow>
      if events AND flag = 0 then (buffer, p, sz, sep)
      else let txt = sep @ name; len = length txt in
        (if sz = 0 then buffer else take p buffer @ take (unat sz - 1) txt, p + len, sz - of_nat len, ''|''))"

lemma peflag_apply:
  "peflag events (flag, name) (buffer, p, sz, sep) =
     (if events AND flag = 0 then (buffer, p, sz, sep)
      else (if sz = 0 then buffer else take p buffer @ take (unat sz - 1) (sep @ name), p + length (sep @ name),
            sz - of_nat (length (sep @ name)), ''|''))"
  by (simp add: peflag_def Let_def)

text \<open>The buffer is static: what it holds stays there from one call to the next.\<close>

definition eflags :: "u32 \<Rightarrow> ('g, string) prog" where
  "eflags events =
     bind (gets eflags_buffer) (\<lambda>b.
     let buffer = fst (fold (peflag events) epoll_flags (b, 0, 256, '''')) in
     andthen (modify (eflags_buffer_update (\<lambda>_. buffer))) (return buffer))"

fun join :: "string \<Rightarrow> string list \<Rightarrow> string" where
  "join sep [] = ''''"
| "join sep [x] = x"
| "join sep (x # y # zs) = x @ sep @ join sep (y # zs)"

lemma join_snoc: "join sep (xs @ [x]) = (if xs = [] then x else join sep xs @ sep @ x)"
  by (induction sep xs rule: join.induct) simp_all

definition set_flags :: "u32 \<Rightarrow> (u32 \<times> string) list \<Rightarrow> string list" where
  "set_flags events fs = map snd (filter (\<lambda>(flag, _). events AND flag \<noteq> 0) fs)"

text \<open>The length of the text if every flag were set bounds every intermediate text.\<close>

definition room :: "(u32 \<times> string) list \<Rightarrow> nat" where
  "room fs = sum_list (map (\<lambda>(_, name). length name + 1) fs)"

lemma peflag_fold:
  assumes "length bs + room fs < 256" and "sz = 256 - of_nat (length bs)" and "bs = join ''|'' ns"
    and "b = (if ns = [] then b0 else bs)" and "sep = (if ns = [] then '''' else ''|'')" and "'''' \<notin> snd ` set fs"
  shows "fst (fold (peflag events) fs (b, length bs, sz, sep)) =
    (if ns @ set_flags events fs = [] then b0 else join ''|'' (ns @ set_flags events fs))"
  using assms
proof (induction fs arbitrary: b bs sz sep ns)
  case Nil
  then show ?case by (simp add: set_flags_def)
next
  case (Cons fl fs)
  obtain flag name where fl: "fl = (flag, name)" by fastforce
  show ?case
  proof (cases "events AND flag = 0")
    case True
    with Cons.IH [of bs sz ns b sep] Cons.prems fl show ?thesis
      by (simp add: peflag_apply set_flags_def room_def)
  next
    case False
    let ?txt = "sep @ name"
    have u: "unat sz = 256 - length bs"
      using Cons.prems(1,2) by (simp add: unat_sub_if_size unat_of_nat take_bit_nat_eq_self room_def fl)
    with Cons.prems(1) have s0: "sz \<noteq> 0" by auto
    from u have fits: "take (unat sz - 1) ?txt = ?txt"
      using Cons.prems(1,5) by (auto simp: room_def fl)
    have pre: "take (length bs) b = bs" using Cons.prems(3,4) by simp
    have p': "bs @ ?txt = join ''|'' (ns @ [name])"
      using Cons.prems(3,5) by (simp add: join_snoc)
    have "fst (fold (peflag events) fs (bs @ ?txt, length (bs @ ?txt), sz - of_nat (length ?txt), ''|'')) =
        (if (ns @ [name]) @ set_flags events fs = [] then b0 else join ''|'' ((ns @ [name]) @ set_flags events fs))"
    proof (rule Cons.IH)
      have "length sep \<le> 1" using Cons.prems(5) by simp
      then show "length (bs @ ?txt) + room fs < 256" using Cons.prems(1) by (simp add: room_def fl)
      show "sz - of_nat (length ?txt) = 256 - of_nat (length (bs @ ?txt))"
        by (simp add: Cons.prems(2) algebra_simps)
    qed (use Cons.prems p' in simp_all)
    with False fl s0 show ?thesis
      by (simp only: fold_Cons comp_apply peflag_apply fits pre if_False length_append)
        (simp add: set_flags_def)
  qed
qed

lemma eflags_text:
  "fst (fold (peflag events) epoll_flags (b, 0, 256, '''')) =
     (if set_flags events epoll_flags = [] then b else join ''|'' (set_flags events epoll_flags))"
  using peflag_fold [where bs = "''''" and ns = "[]" and b = b and sz = 256 and sep = "''''" and fs = epoll_flags]
  by (simp add: epoll_flags_def room_def)

lemma length_join_flags: "length (join ''|'' (set_flags events epoll_flags)) < 256"
proof -
  have len: "length (join ''|'' xs) \<le> sum_list (map (\<lambda>n. length n + 1) xs)" for xs
    by (induction "''|''" xs rule: join.induct) simp_all
  have "sum_list (map (\<lambda>n. length n + 1) (set_flags events fs)) \<le> room fs" for fs
    by (induction fs) (auto simp: set_flags_def room_def)
  from this [of epoll_flags] len [of "set_flags events epoll_flags"]
  have "length (join ''|'' (set_flags events epoll_flags)) \<le> room epoll_flags" by (rule le_trans [rotated])
  also have "\<dots> < 256" by (simp add: epoll_flags_def room_def)
  finally show ?thesis .
qed

text \<open>A call of \<open>eflags\<close> with its text left unevaluated.\<close>

definition eflags_txt :: "u32 \<Rightarrow> string \<Rightarrow> string" where
  "eflags_txt events b = fst (fold (peflag events) epoll_flags (b, 0, 256, ''''))"

lemma run_eflags [prog_simps]:
  "eflags events s = Done (eflags_txt events (eflags_buffer s)) (s\<lparr>eflags_buffer := eflags_txt events (eflags_buffer s)\<rparr>)"
  "bind (eflags events) f s =
     f (eflags_txt events (eflags_buffer s)) (s\<lparr>eflags_buffer := eflags_txt events (eflags_buffer s)\<rparr>)"
  by (simp_all add: eflags_def eflags_txt_def Let_def prog_simps)

lemma shrinking_eflags [shrink_intros]: "shrinking (eflags events)"
  unfolding eflags_def Let_def by (auto intro!: shrink_intros)

lemma appending_eflags [append_intros]: "appending (eflags events)"
  unfolding eflags_def Let_def by (auto intro!: append_intros)

text \<open>
  \<^bold>\<open>C17.\<close> For a value with a known epoll flag, \<open>eflags\<close> returns exactly the names of the flags that
  are set, in their order and separated by bars, in at most 255 characters: its 256-byte buffer
  is never too small. For a value with none it returns what an earlier call left in the buffer,
  which is static and not cleared. Either way the text stays in the buffer.
\<close>

theorem eflags_prints:
  "\<exists>txt. eflags events s = Done txt (s\<lparr>eflags_buffer := txt\<rparr>) \<and>
     (if set_flags events epoll_flags = [] then txt = eflags_buffer s
      else txt = join ''|'' (set_flags events epoll_flags) \<and> length txt < 256)"
  using length_join_flags [of events] by (simp add: run_eflags eflags_txt_def eflags_text)

end
