(* ===== verification/Epoll_Empty.thy ===== *)
theory Epoll_Empty
  imports Labels
begin

text \<open>epoll/empty.c: an empty epoll set, checkpointed after it was created or while idle.\<close>

definition LOG_FILE :: string where "LOG_FILE = ''log.empty''"

definition labels :: "string list" where
  "labels = [''create'', ''do_nothing'']"

record empty_globals =
  freezer :: string

type_synonym 'a eprog = "(empty_globals, 'a) prog"

definition usage :: "int \<Rightarrow> unit eprog" where
  "usage pout =
     block [emit (Stdio (FprintfTo pout 31 [I (int (length labels) - 1)])), print_labels labels pout]"

definition other_option :: "char \<Rightarrow> string option \<Rightarrow> unit eprog" where
  "other_option c optarg =
     (if c = CHR ''f'' then
        block [set_glob (\<lambda>g. g\<lparr>freezer := the optarg\<rparr>), emit (Stdio (Printf 69 [S (the optarg)]))]
      else return ())"

definition parse_args :: "string list \<Rightarrow> unit eprog" where
  "parse_args args =
     andthen (last_label labels)
       (foreach (label_option labels 76 90 [] usage other_option)
          (fst (getopt_long ''f:LNhl:n:'' long_options args)))"

definition close_log :: "('g, unit) prog" where
  "close_log = bind (gets logfp) (\<lambda>fp. emit (Stdio (Fclose (the fp))))"

definition out_of :: "int \<Rightarrow> 'a eprog" where
  "out_of efd =
     bind (sysv (Unistd (Close efd))) (\<lambda>c.
     if c < 0 then andthen (block [emit (Stdio (Perror 140)), close_log]) (exit_with 1)
     else andthen close_log (exit_with 0))"

definition main :: "string list \<Rightarrow> int eprog" where
  "main args =
     andthen (block [parse_args args, emit (Unistd (Close 0))]) (
     bind (sysv (Stdio (Fopen LOG_FILE ''w+''))) (\<lambda>fp.
     if fp < 0 then andthen (emit (Stdio (Perror 112))) (exit_with 1)
     else andthen (modify (\<lambda>s. s\<lparr>logfp := Some fp\<rparr>)) (
     bind (sysv (Unistd (Dup2 fp 1))) (\<lambda>d.
     if d < 0 then andthen (log_error 117 ''dup2(logfp, 1)'') (out_of (-1))
     else bind (sysv (Unistd (Dup2 fp 2))) (\<lambda>d.
     if d < 0 then andthen (log_error 121 ''dup2(logfp, 2)'') (out_of (-1))
     else bind (sysv (Proc Getpid)) (\<lambda>pid.
     with_glob freezer (\<lambda>frz.
     bind (move_to_cgroup ''freezer'' frz pid) (\<lambda>m.
     if m = 0 then andthen (log_error 125 ''move_to_cgroup'') (exit_with 2)
     else andthen (emit (Stdio (Printf 128 [S frz]))) (
     at_label labels 0 ''create'' (sys (Ipc (EpollCreate 1))) (\<lambda>e. out_of (rv e)) (\<lambda>e.
     if rv e < 0 then andthen (block [emit (Stdio (Perror 133)), close_log]) (exit_with 1)
     else at_label labels 1 ''do_nothing'' (keep 0) (\<lambda>_. out_of (rv e)) (\<lambda>_. out_of (rv e))))))))))))"

end
