(* ===== verification/Epoll_Pipe.thy ===== *)
theory Epoll_Pipe
  imports Labels
begin

text \<open>
  epoll/pipe.c: wait with an epoll set for a pipe to become writable, write a greeting, wait
  for it to become readable, read the greeting back; every step is a label where the program can
  be checkpointed. epoll/scm.c repeats the same steps, 118 lines further down, so the common part
  takes the distance of its messages as a parameter. The answer to \<open>epoll_wait\<close> stores the events
  and the descriptor of the first event.
\<close>

section \<open>Constants and globals\<close>

definition LOG_FILE :: string where "LOG_FILE = ''log.pipe''"

definition HELLO :: string where "HELLO = ''Hello world!'' @ [CHR 0x0A]"

definition EPOLL_CTL_ADD :: int where "EPOLL_CTL_ADD = 1"
definition EPOLL_CTL_DEL :: int where "EPOLL_CTL_DEL = 2"
definition EPOLL_CTL_MOD :: int where "EPOLL_CTL_MOD = 3"

definition labels :: "string list" where
  "labels = [''create'', ''ctl_add_wfd'', ''wait_write'', ''do_write'', ''ctl_add_rfd'', ''ctl_rm_wfd'',
             ''wait_read'', ''do_read'']"

record pipe_globals =
  freezer :: string

type_synonym 'a eprog = "(pipe_globals, 'a) prog"

section \<open>Options\<close>

definition usage :: "int \<Rightarrow> unit eprog" where
  "usage pout =
     block [emit (Stdio (FprintfTo pout 38 [I (int (length labels) - 1)])), print_labels labels pout]"

definition other_option :: "char \<Rightarrow> string option \<Rightarrow> unit eprog" where
  "other_option c optarg =
     (if c = CHR ''f'' then set_glob (\<lambda>g. g\<lparr>freezer := the optarg\<rparr>) else return ())"

definition parse_args :: "string list \<Rightarrow> unit eprog" where
  "parse_args args =
     andthen (last_label labels)
       (foreach (label_option labels 82 96 [] usage other_option)
          (fst (getopt_long ''f:LNhl:n:'' long_options args)))"

section \<open>The main program\<close>

text \<open>
  From \<open>out\<close> on. A close that fails is logged and the jump back to \<open>out\<close> then skips it. The
  array of labels has no entry \<open>num_labels\<close>, and the pipe may not have been opened yet: reading
  either is undefined.
\<close>

definition out_of :: "nat \<Rightarrow> string list \<Rightarrow> int \<Rightarrow> (int \<times> int) option \<Rightarrow> int \<Rightarrow> int \<Rightarrow> ('g, 'a) prog" where
  "out_of off lbls efd tube op_num ec =
     andthen
       (if 0 \<le> efd then bind (sysv (Unistd (Close efd))) (\<lambda>c. if c < 0 then log_error (220 + off) ''close()'' else return ())
        else return ()) (
     andthen
       (if op_num \<noteq> INT_MAX then
          if int (length lbls) \<le> op_num then crash
          else log_msg FAIL (225 + off) [S (lbls ! nat op_num), I op_num]
        else return ()) (
     case tube of
       None \<Rightarrow> crash
     | Some (rfd, wfd) \<Rightarrow>
         andthen (block
           [emit (Unistd (Close rfd)), emit (Unistd (Close wfd)), flush_log,
            bind (gets logfp) (\<lambda>fp. emit (Stdio (Fclose (the fp))))])
           (exit_with ec)))"

abbreviation epoll_ctl :: "int \<Rightarrow> int \<Rightarrow> int \<Rightarrow> u32 \<Rightarrow> int \<Rightarrow> ('g, resp) prog" where
  "epoll_ctl efd op fd events dat \<equiv> sys (Ipc (EpollCtl efd op fd events dat))"

abbreviation epoll_wait :: "int \<Rightarrow> int \<Rightarrow> int \<Rightarrow> ('g, resp) prog" where
  "epoll_wait efd n timeout \<equiv> sys (Ipc (EpollWait efd n timeout))"

definition ev_events :: "resp \<Rightarrow> u32" where
  "ev_events r = word_of_int (out 0 r)"

text \<open>
  What pipe.c and scm.c do once they have the epoll set and the pipe, from label
  \<open>ctl_add_wfd\<close> on, and what they do from label \<open>ctl_add_rfd\<close> on.
\<close>

definition read_back :: "nat \<Rightarrow> string list \<Rightarrow> int \<Rightarrow> int \<times> int \<Rightarrow> u32 \<Rightarrow> int \<Rightarrow> ('g, int) prog" where
  "read_back off lbls efd tube wevents wdata =
     (let fail = (\<lambda>op. out_of off lbls efd (Some tube) op 1); need = int (length HELLO) + 1 in
      at_label lbls 4 ''ctl_add_rfd'' (epoll_ctl efd EPOLL_CTL_ADD (fst tube) EPOLLIN (fst tube)) (\<lambda>_. fail 4) (\<lambda>_.
      at_label lbls 5 ''ctl_rm_wfd'' (epoll_ctl efd EPOLL_CTL_DEL (snd tube) wevents wdata) (\<lambda>_. fail 5) (\<lambda>_.
      at_label lbls 6 ''wait_read'' (epoll_wait efd 1 5000) (\<lambda>_. fail 6) (\<lambda>r.
      if rv r \<noteq> 1 then andthen (log_error (188 + off) ''Expected epoll_wait() to return one event.'') (fail 7)
      else if ev_events r AND EPOLLIN = 0
      then bind (eflags (ev_events r)) (\<lambda>flags.
        andthen (log_msg FAIL (192 + off) [I (uint EPOLLIN), S flags, I (uint (ev_events r))]) (fail 7))
      else if fst tube \<noteq> out 1 r then andthen (log_msg FAIL (197 + off) [I (fst tube), I (out 1 r)]) (fail 7)
      else at_label lbls 7 ''do_read'' (sys (Unistd (Read (fst tube) (length HELLO + 1)))) (\<lambda>_. fail 7) (\<lambda>r.
      if rv r < need then andthen (log_msg FAIL (204 + off) [I need, S HELLO]) (fail 8)
      else andthen (log_msg INFO (208 + off) []) (
      if cstr (rdat r) 0 \<noteq> HELLO then andthen (log_msg FAIL (210 + off) [S HELLO, S (cstr (rdat r) 0)]) (fail 8)
      else andthen (log_msg INFO (214 + off) []) (out_of off lbls efd (Some tube) INT_MAX 0)))))))"

definition pipe_test :: "nat \<Rightarrow> string list \<Rightarrow> int \<Rightarrow> int \<times> int \<Rightarrow> ('g, int) prog" where
  "pipe_test off lbls efd tube =
     (let fail = (\<lambda>op. out_of off lbls efd (Some tube) op 1); need = int (length HELLO) + 1 in
      at_label lbls 1 ''ctl_add_wfd'' (epoll_ctl efd EPOLL_CTL_ADD (snd tube) EPOLLOUT (snd tube)) (\<lambda>_. fail 1) (\<lambda>_.
      at_label lbls 2 ''wait_write'' (epoll_wait efd 1 1000) (\<lambda>_. fail 2) (\<lambda>r.
      if rv r \<noteq> 1 then andthen (log_error (158 + off) ''Expected epoll_wait() to return one event.'') (fail 3)
      else if ev_events r AND EPOLLOUT = 0
      then bind (eflags (ev_events r)) (\<lambda>flags.
        andthen (log_msg FAIL (162 + off) [I (uint EPOLLOUT), S flags, I (uint (ev_events r))]) (fail 3))
      else if snd tube \<noteq> out 1 r then andthen (log_msg FAIL (167 + off) [I (snd tube), I (out 1 r)]) (fail 3)
      else at_label lbls 3 ''do_write'' (sys (Unistd (Write (snd tube) (HELLO @ [NUL])))) (\<lambda>_. fail 3) (\<lambda>w.
      if rv w < need then andthen (log_msg FAIL (174 + off) [I need, S HELLO]) (fail 4)
      else read_back off lbls efd tube (ev_events r) (out 1 r)))))"

definition main :: "string list \<Rightarrow> int eprog" where
  "main args =
     andthen (block [parse_args args, emit (Unistd (Close 0))]) (
     bind (sysv (Stdio (Fopen LOG_FILE ''w+''))) (\<lambda>fp.
     if fp < 0 then andthen (emit (Stdio (Perror 126))) (exit_with 1)
     else andthen (modify (\<lambda>s. s\<lparr>logfp := Some fp\<rparr>)) (
     bind (sysv (Unistd (Dup2 fp 1))) (\<lambda>d.
     if d < 0 then andthen (log_error 131 ''dup2(logfp, 1)'') (out_of 0 labels (-1) None 0 1)
     else bind (sysv (Unistd (Dup2 fp 2))) (\<lambda>d.
     if d < 0 then andthen (log_error 135 ''dup2(logfp, 2)'') (out_of 0 labels (-1) None 0 1)
     else bind (sysv (Proc Getpid)) (\<lambda>pid.
     with_glob freezer (\<lambda>frz.
     bind (move_to_cgroup ''freezer'' frz pid) (\<lambda>m.
     if m = 0 then andthen (log_error 139 ''move_to_cgroup'') (exit_with 2)
     else at_label labels 0 ''create'' (sys (Ipc (EpollCreate 1))) (\<lambda>e. out_of 0 labels (rv e) None 0 1) (\<lambda>e.
     bind (sys (Unistd Pipe)) (\<lambda>p.
     if rv p < 0 then out_of 0 labels (rv e) None 1 1
     else pipe_test 0 labels (rv e) (out 0 p, out 1 p)))))))))))"

section \<open>Where the program is checkpointed\<close>

lemma getopt_n: "fst (getopt_long ''f:LNhl:n:'' long_options [''-n'', a]) = [(CHR ''n'', Some a)]"
  and getopt_l: "fst (getopt_long ''f:LNhl:n:'' long_options [''-l'', a]) = [(CHR ''l'', Some a)]"
  by (simp_all add: getopt_long_def with_opt_def)

lemma ckpt_last: "i < length labels \<Longrightarrow> labels ! i = last labels \<longleftrightarrow> i = length labels - 1"
  by (auto simp: labels_def less_Suc_eq)

text \<open>
  With a label chosen by name, the program stops for a checkpoint at that label and also
  at the last one: \<open>-l\<close> leaves \<open>ckpt_op_num\<close> at its initial value, the last label's number.
\<close>

theorem label_option_keeps_last:
  "\<exists>t. parse_args [''-l'', lbl] s = Done () t \<and>
     (\<forall>i < length labels. ckpt_here t (int i) (labels ! i) \<longleftrightarrow> labels ! i = lbl \<or> i = length labels - 1)"
proof -
  have "parse_args [''-l'', lbl] s =
      Done () (s\<lparr>ckpt_op_num := int (length labels) - 1, ckpt_label := Some lbl\<rparr>)"
    unfolding parse_args_def getopt_l
    by (simp add: last_label_def label_option_def Let_def prog_simps)
  moreover have "length labels = 8" by (simp add: labels_def)
  ultimately show ?thesis by (auto simp: ckpt_here_def)
qed

theorem label_option_keeps_last_witness:
  "\<exists>t. parse_args [''-l'', ''create''] (start [] None \<lparr>freezer = ''1''\<rparr>) = Done () t \<and>
     ckpt_here t 0 ''create'' \<and> \<not> ckpt_here t 3 ''do_write'' \<and> ckpt_here t 7 ''do_read''"
proof -
  from label_option_keeps_last [of "''create''" "start [] None \<lparr>freezer = ''1''\<rparr>"]
  obtain t where t: "parse_args [''-l'', ''create''] (start [] None \<lparr>freezer = ''1''\<rparr>) = Done () t"
    and c: "\<forall>i < length labels. ckpt_here t (int i) (labels ! i) \<longleftrightarrow> labels ! i = ''create'' \<or> i = length labels - 1"
    by blast
  from c [rule_format, of 0] c [rule_format, of 3] c [rule_format, of 7]
  have "ckpt_here t 0 ''create''" "\<not> ckpt_here t 3 ''do_write''" "ckpt_here t 7 ''do_read''"
    by (simp_all add: labels_def)
  with t show ?thesis by blast
qed

section \<open>The verdict\<close>

lemma do_ckpt_dry_run:
  assumes "script s = ok 0 # ok 0 # rest"
  shows "bind do_ckpt k s = k () (adv s [Got_access CKPT_DRY_RUN (ok 0), Got_access CKPT_DRY_RUN (ok 0)] rest 0)"
  using assms by (simp add: do_ckpt_def set_checkpoint_ready_def prog_simps)

definition ep_event :: "u32 \<Rightarrow> int \<Rightarrow> resp" where
  "ep_event events fd = \<lparr>rv = 1, er = 0, rdat = [], outs = [uint events, fd]\<rparr>"

lemma ep_event_sel [simp]:
  "rv (ep_event events fd) = 1" "er (ep_event events fd) = 0" "ev_events (ep_event events fd) = events"
  "out (Suc 0) (ep_event events fd) = fd"
  by (simp_all add: ep_event_def ev_events_def out_def)

lemma read_back_verdict:
  assumes "script s = ok 0 # ok 0 # ep_event EPOLLIN rfd # r # ok 0 # ok 0 # ok 0 # rest"
    and "logfp s = Some lf" and "ckpt_op_num s = 7" and "ckpt_label s = Some ''do_read''"
    and "0 \<le> rv r" and "0 \<le> efd"
  shows "\<exists>t. read_back 0 labels efd (rfd, wfd) wevents wdata s =
    (if 14 \<le> rv r \<and> cstr (rdat r) 0 = HELLO then Exited 0 t else Crashed t)"
  using assms
  by (auto simp: read_back_def Let_def run_at_label labels_def ckpt_here_def prog_simps do_ckpt_dry_run
      out_of_def HELLO_def INT_MAX_def EPOLLIN_def)

text \<open>
  With a kernel that reports the pipe writable, takes the greeting and then reports the
  pipe readable (checkpoint at the last label, in a dry run), the program ends with status 0
  exactly when it reads the greeting back. Otherwise it reads past the end of the array of
  labels: the last label has already advanced \<open>op_num\<close> to \<open>num_labels\<close>, which \<open>out\<close> uses as an
  index.
\<close>

theorem pipe_test_verdict:
  assumes "script s = ok 0 # ep_event EPOLLOUT wfd # ok 14 # ok 0 # ok 0 # ep_event EPOLLIN rfd # r
      # ok 0 # ok 0 # ok 0 # rest"
    and "logfp s = Some lf" and "ckpt_op_num s = 7" and "ckpt_label s = Some ''do_read''"
    and "0 \<le> rv r" and "0 \<le> efd"
  shows "\<exists>t. pipe_test 0 labels efd (rfd, wfd) s =
    (if 14 \<le> rv r \<and> cstr (rdat r) 0 = HELLO then Exited 0 t else Crashed t)"
proof -
  have "\<exists>u. pipe_test 0 labels efd (rfd, wfd) s = read_back 0 labels efd (rfd, wfd) EPOLLOUT wfd u \<and>
      script u = ok 0 # ok 0 # ep_event EPOLLIN rfd # r # ok 0 # ok 0 # ok 0 # rest \<and>
      logfp u = Some lf \<and> ckpt_op_num u = 7 \<and> ckpt_label u = Some ''do_read''"
    using assms(1-4)
    by (simp add: pipe_test_def Let_def run_at_label labels_def ckpt_here_def prog_simps HELLO_def EPOLLOUT_def)
      (rule exI, rule conjI, rule refl, simp)
  with read_back_verdict [OF _ _ _ _ assms(5,6)] show ?thesis by metis
qed

theorem pipe_test_verdict_witness:
  "\<exists>t. pipe_test 0 labels 5 (3, 4) (start [ok 0, ep_event EPOLLOUT 4, ok 14, ok 0, ok 0, ep_event EPOLLIN 3,
      \<lparr>rv = 14, er = 0, rdat = HELLO @ [NUL], outs = []\<rparr>, ok 0, ok 0, ok 0] (Some 6) ()
      \<lparr>ckpt_op_num := 7, ckpt_label := Some ''do_read''\<rparr>) = Exited 0 t"
proof -
  let ?r = "\<lparr>rv = 14, er = 0, rdat = HELLO @ [NUL], outs = []\<rparr>"
  let ?s = "start [ok 0, ep_event EPOLLOUT 4, ok 14, ok 0, ok 0, ep_event EPOLLIN 3, ?r, ok 0, ok 0, ok 0]
      (Some 6) () \<lparr>ckpt_op_num := 7, ckpt_label := Some ''do_read''\<rparr>"
  have "cstr (rdat ?r) 0 = HELLO" by (simp add: cstr_def HELLO_def NUL_def)
  moreover have "\<exists>t. pipe_test 0 labels 5 (3, 4) ?s =
      (if 14 \<le> rv ?r \<and> cstr (rdat ?r) 0 = HELLO then Exited 0 t else Crashed t)"
    by (rule pipe_test_verdict [where rest = "[]" and lf = 6]) simp_all
  ultimately show ?thesis by simp
qed

end
