(* ===== verification/Handshake.thy ===== *)
theory Handshake
  imports Kernel Labels
begin

text \<open>
  The weakest precondition of \<open>do_ckpt\<close> and of the label macro, for every kernel that serves the
  files of the checkpoint handshake: looking for a file gives it or ENOENT, \<open>checkpoint-ready\<close>
  can be created, and none of this touches the state the kernel keeps for the test. This is the
  interface \<open>handshake\<close>; a restart that restores that state is one that is not seen in it.
\<close>

definition same_vars :: "'g proc \<Rightarrow> 'g proc \<Rightarrow> bool" where
  "same_vars s t \<longleftrightarrow> logfp t = logfp s \<and> glob t = glob s \<and> freezer_mnt t = freezer_mnt s \<and>
     ckpt_label t = ckpt_label s \<and> ckpt_op_num t = ckpt_op_num s"

lemma same_vars_simps [simp]:
  "same_vars s s" "same_vars s (adv t es rs e) \<longleftrightarrow> same_vars s t" "same_vars (adv s es rs e) t \<longleftrightarrow> same_vars s t"
  by (simp_all add: same_vars_def)

lemma same_vars_trans: "same_vars s t \<Longrightarrow> same_vars t u \<Longrightarrow> same_vars s u"
  by (simp add: same_vars_def)

section \<open>What the operations append\<close>

lemma appending_do_ckpt [append_intros]: "appending do_ckpt"
  unfolding do_ckpt_def by (intro append_intros tcd.appending_poll)

lemma appending_log_msg [append_intros]: "appending (log_msg t n args)"
  unfolding log_msg_def by (intro append_intros)

lemma appending_log_error [append_intros]: "appending (log_error n what)"
  unfolding log_error_def by (intro append_intros)

lemma appending_label [append_intros]: "appending action \<Longrightarrow> appending (label labels op lbl action)"
  unfolding label_def by (intro append_intros)

lemma appending_at_label [append_intros]:
  assumes "appending action" and "\<And>r. appending (out_of r)" and "\<And>r. appending (k r)"
  shows "appending (at_label labels op lbl action out_of k)"
  unfolding at_label_def using assms by (auto intro!: append_intros split: sum.split)

section \<open>The interface\<close>

locale handshake =
  fixes K :: "'k kernel"
  assumes access: "answers K (Unistd (Access f)) r k = Some k' \<Longrightarrow> k' = k \<and> (rv r = 0 \<or> er r = ENOENT)"
    and creat_ready: "answers K (Unistd (Creat CKPT_READY m)) r k = Some k' \<Longrightarrow>
      k' = k \<and> 0 \<le> rv r \<and> effect K (Unistd (Close (rv r))) k = k"
    and unlink_done: "effect K (Unistd (Unlink CKPT_DONE)) k = k"
    and stdio: "effect K (Stdio c) k = k" and usleep: "effect K (Proc (Usleep n)) k = k"
    and fsync: "effect K (Unistd (Fsync fd)) k = k"
begin

lemma wp_test_checkpoint_done:
  "wp K test_checkpoint_done (\<lambda>_ k' t. k' = k \<and> same_vars s t) E k s"
  unfolding test_checkpoint_done_def
  by (intro wp_rules append_intros) (auto dest!: access)

lemma wp_poll_checkpoint:
  "wp K (poll test_checkpoint_done (emit (Proc (Usleep 10000)))) (\<lambda>_ k' t. k' = k \<and> same_vars s t) E k s"
  unfolding poll_def
proof (rule tcd.wp_loop [where Inv = "\<lambda>_ k' u. k' = k \<and> same_vars s u"])
  show "appending (poll_body test_checkpoint_done (emit (Proc (Usleep 10000))) a)" for a
    unfolding poll_body_def by (intro append_intros)
  fix a k' u
  assume inv: "k' = k \<and> same_vars s u"
  show "wp K (poll_body test_checkpoint_done (emit (Proc (Usleep 10000))) a)
      (\<lambda>r k' t. case r of Inl a' \<Rightarrow> k' = k \<and> same_vars s t | Inr b \<Rightarrow> k' = k \<and> same_vars s t) E k' u"
    unfolding poll_body_def
  proof (rule wp_seq [OF wp_test_checkpoint_done])
    fix d k'' t
    assume "k'' = k' \<and> same_vars u t"
    with inv show "wp K (if d = 0 then andthen (emit (Proc (Usleep 10000))) (return (Inl ())) else return (Inr ()))
        (\<lambda>r k' t. case r of Inl a' \<Rightarrow> k' = k \<and> same_vars s t | Inr b \<Rightarrow> k' = k \<and> same_vars s t) E k'' t"
      by (intro wp_rules append_intros) (auto simp: usleep intro: same_vars_trans)
  qed (intro append_intros)+
qed simp

lemma wp_set_checkpoint_ready:
  "wp K set_checkpoint_ready (\<lambda>_ k' t. k' = k \<and> same_vars s t) E k s"
  unfolding set_checkpoint_ready_def
  by (intro wp_rules append_intros) (auto dest!: access creat_ready)

lemma wp_do_ckpt: "wp K do_ckpt (\<lambda>_ k' t. k' = k \<and> same_vars s t) E k s"
  unfolding do_ckpt_def andthen_def
proof (rule wp_seq [OF wp_set_checkpoint_ready])
  fix k' t
  assume inv: "k' = k \<and> same_vars s t"
  have "wp K (bind (poll test_checkpoint_done (emit (Proc (Usleep 10000)))) (\<lambda>_. emit (Unistd (Unlink CKPT_DONE))))
      (\<lambda>_ k' t. k' = k \<and> same_vars s t) E k u" if "same_vars s u" for u
  proof (rule wp_seq [OF wp_poll_checkpoint])
    fix k'' v
    assume "k'' = k \<and> same_vars u v"
    with that show "wp K (emit (Unistd (Unlink CKPT_DONE))) (\<lambda>_ k' t. k' = k \<and> same_vars s t) E k'' v"
      by (intro wp_rules append_intros) (auto simp: unlink_done intro: same_vars_trans)
  qed (intro append_intros tcd.appending_poll)+
  with inv show "wp K (bind (access CKPT_DRY_RUN) (\<lambda>rc. if rc = 0 then return () else bind (gets errno) (\<lambda>e.
      if e \<noteq> ENOENT then do_exit 1 else bind (poll test_checkpoint_done (emit (Proc (Usleep 10000))))
        (\<lambda>_. emit (Unistd (Unlink CKPT_DONE)))))) (\<lambda>_ k' t. k' = k \<and> same_vars s t) E k' t"
    by (intro wp_rules append_intros tcd.appending_poll) (auto dest!: access)
qed (intro append_intros tcd.appending_poll)+

text \<open>A label: its action, then either way out of the macro, with the variables unchanged.\<close>

lemma wp_at_label:
  assumes "0 \<le> op" and "op < int (length labels)" and "logfp s \<noteq> None"
    and act: "\<And>s. same_vars s0 s \<Longrightarrow> wp K action (\<lambda>r k' t. same_vars s0 t \<and>
      (\<forall>u. same_vars s0 u \<longrightarrow> wp K (if rv r < 0 then out_of r else rest r) Q E k' u)) E k s"
    and s0: "same_vars s0 s"
    and app: "appending action" "\<And>r. appending (out_of r)" "\<And>r. appending (rest r)"
  shows "wp K (at_label labels op lbl action out_of rest) Q E k s"
proof -
  let ?after = "\<lambda>r. bind (gets (\<lambda>s. ckpt_here s op lbl)) (\<lambda>here.
      andthen (if here then do_ckpt else return ()) (
      if rv r < 0 then andthen (fprintf 54 [I op, S lbl]) (out_of r) else rest r))"
  let ?s = "adv s [Did (Stdio (Fprintf 45 [S (labels ! nat op), S lbl]))] (script s) (errno s)"
  have a: "appending (?after r)" for r using app by (intro append_intros)
  from assms(3) obtain lf where lf: "logfp s = Some lf" by auto
  with s0 have lf0: "logfp s0 = Some lf" by (simp add: same_vars_def)
  have log: "wp K (if rv r < 0 then andthen (fprintf 54 [I op, S lbl]) (out_of r) else rest r) Q E k' t"
    if "\<forall>u. same_vars s0 u \<longrightarrow> wp K (if rv r < 0 then out_of r else rest r) Q E k' u" "same_vars s0 t" for r k' t
    using that lf0 app
    by (cases "rv r < 0") (auto intro!: wp_rules append_intros simp: stdio same_vars_def)
  have post: "wp K (?after r) Q E k' t"
    if w: "\<forall>u. same_vars s0 u \<longrightarrow> wp K (if rv r < 0 then out_of r else rest r) Q E k' u" and v: "same_vars s0 t" for r k' t
  proof (rule wp_gets, rule wp_andthen, rule wp_bind_if)
    assume "ckpt_here t op lbl"
    show "wp K (bind do_ckpt (\<lambda>_. if rv r < 0 then andthen (fprintf 54 [I op, S lbl]) (out_of r) else rest r)) Q E k' t"
    proof (rule wp_seq [OF wp_do_ckpt])
      fix a k'' u assume "k'' = k' \<and> same_vars t u"
      with v have "k'' = k'" and "same_vars s0 u" by (auto intro: same_vars_trans)
      with log [OF w] show "wp K (if rv r < 0 then andthen (fprintf 54 [I op, S lbl]) (out_of r) else rest r) Q E k'' u"
        by simp
    qed (use app in \<open>auto intro!: append_intros\<close>)
  qed (rule wp_bind_return, rule log [OF w v])
  have "wp K (bind action ?after) Q E k ?s"
  proof (rule wp_seq [OF act])
    fix r k' t
    assume "same_vars s0 t \<and> (\<forall>u. same_vars s0 u \<longrightarrow> wp K (if rv r < 0 then out_of r else rest r) Q E k' u)"
    then show "wp K (?after r) Q E k' t" using post by blast
  qed (use s0 a app in simp_all)
  then have "wp K (bind (fprintf 45 [S (labels ! nat op), S lbl]) (\<lambda>_. bind action ?after)) Q E k s"
    using a app lf by (intro wp_to_log append_intros) (simp_all add: stdio)
  then show ?thesis
    by (simp add: wp_def run_at_label [OF assms(1,2) lf] run_to_log lf)
qed

text \<open>The usual case: the action is one call.\<close>

lemma wp_label_sys:
  assumes "0 \<le> op" and "op < int (length labels)" and lf: "logfp s = Some lf"
    and app: "\<And>r. appending (out_of r)" "\<And>r. appending (rest r)"
    and step: "\<And>r k' u. answers K c r k = Some k' \<Longrightarrow> logfp u = Some lf \<Longrightarrow> glob u = glob s \<Longrightarrow>
      wp K (if rv r < 0 then out_of r else rest r) Q E k' u"
  shows "wp K (at_label labels op lbl (sys c) out_of rest) Q E k s"
proof (rule wp_at_label [where ?s0.0 = s])
  fix u
  assume "same_vars s u"
  then show "wp K (sys c) (\<lambda>r k' t. same_vars s t \<and>
      (\<forall>u. same_vars s u \<longrightarrow> wp K (if rv r < 0 then out_of r else rest r) Q E k' u)) E k u"
    using lf step by (intro wp_rules append_intros) (auto simp: same_vars_def)
qed (use assms in \<open>simp_all add: append_intros\<close>)

lemma wp_label_return:
  assumes "0 \<le> op" and "op < int (length labels)" and lf: "logfp s = Some lf" and "0 \<le> rv r"
    and app: "\<And>r. appending (out_of r)" "\<And>r. appending (rest r)"
    and step: "\<And>u. logfp u = Some lf \<Longrightarrow> glob u = glob s \<Longrightarrow> wp K (rest r) Q E k u"
  shows "wp K (at_label labels op lbl (return r) out_of rest) Q E k s"
proof (rule wp_at_label [where ?s0.0 = s])
  fix u
  assume "same_vars s u"
  then show "wp K (return r) (\<lambda>r k' t. same_vars s t \<and>
      (\<forall>u. same_vars s u \<longrightarrow> wp K (if rv r < 0 then out_of r else rest r) Q E k' u)) E k u"
    using lf step assms(4) by (intro wp_rules append_intros) (auto simp: same_vars_def)
qed (use assms in \<open>simp_all add: append_intros\<close>)

end

end
