(* ===== verification/Epoll_Scm.thy ===== *)
theory Epoll_Scm
  imports Epoll_Pipe Handshake
begin

text \<open>
  epoll/scm.c: like epoll/pipe.c, but the epoll set and the pipe are passed to a child over a
  socket (SCM_RIGHTS) and the child does the test. The answer to \<open>socketpair\<close> stores the two
  descriptors, the answer to \<open>recvmsg\<close> the descriptors of a control message of the expected
  kind and length, nothing if there is none; the length of the control buffer is an argument of
  the call.
\<close>

section \<open>Constants and globals\<close>

definition LOG_FILE :: string where "LOG_FILE = ''log.scm''"
definition PR_SET_PDEATHSIG :: int where "PR_SET_PDEATHSIG = 1"

record scm_globals =
  cgroup2 :: "string option"
  freezer :: string

type_synonym 'a sprog = "(scm_globals, 'a) prog"

definition scm_long_options :: "longopt list" where
  "scm_long_options =
     [(''print-labels'', 0, CHR ''L''), (''print-max-label-no'', 0, CHR ''N''), (''help'', 0, CHR ''h''),
      (''label'', 1, CHR ''l''), (''num'', 1, CHR ''n''), (''cgroup2'', 2, CHR ''c''), (''freezer'', 1, CHR ''f'')]"

section \<open>Options\<close>

definition usage :: "int \<Rightarrow> unit sprog" where
  "usage pout =
     block [emit (Stdio (FprintfTo pout 42 [I (int (length labels) - 1)])), print_labels labels pout]"

definition other_option :: "char \<Rightarrow> string option \<Rightarrow> unit sprog" where
  "other_option c optarg =
     (if c = CHR ''f'' then set_glob (\<lambda>g. g\<lparr>freezer := the optarg\<rparr>)
      else if c = CHR ''c'' then
        set_glob (\<lambda>g. g\<lparr>cgroup2 := (case optarg of Some a \<Rightarrow> if 0 < length a then Some a else Some ''2'' | None \<Rightarrow> Some ''2'')\<rparr>)
      else return ())"

definition parse_args :: "string list \<Rightarrow> unit sprog" where
  "parse_args args =
     andthen (last_label labels)
       (foreach (label_option labels 89 103 [] usage other_option)
          (fst (getopt_long ''f:LNhl:n:c::'' scm_long_options args)))"

section \<open>Passing the descriptors\<close>

text \<open>The parent: send the descriptors, wait for the child, exit with the status word as it is.\<close>

definition parent :: "int \<Rightarrow> int \<times> int \<Rightarrow> int \<Rightarrow> int \<times> int \<Rightarrow> 'a sprog" where
  "parent kid sk efd tube =
     andthen (block
       [emit (Unistd (Close (snd sk))),
        emit (Net (Sendmsg (fst sk) [efd, fst tube, snd tube])),
        emit (Unistd (Close (fst sk)))]) (
     bind (sys (Proc (Waitpid kid 0))) (\<lambda>r. exit_with (out 0 r)))"

text \<open>The child: \<open>msg_control\<close> is null and \<open>msg_controllen\<close> 0 in its message header.\<close>

definition receive :: "int \<times> int \<Rightarrow> int \<Rightarrow> int \<times> int \<Rightarrow> (int \<times> int \<times> int) sprog" where
  "receive sk efd tube =
     andthen (block
       [emit (Unistd (Close (fst sk))), emit (Unistd (Close efd)),
        emit (Unistd (Close (fst tube))), emit (Unistd (Close (snd tube))),
        emit (Net (Prctl PR_SET_PDEATHSIG SIGINT)), emit (Net Setsid),
        with_glob cgroup2 (\<lambda>cg.
          case cg of None \<Rightarrow> return ()
          | Some grp \<Rightarrow> bind (sysv (Proc Getpid)) (\<lambda>pid.
              bind (move_to_cgroup ''freezer'' grp pid) (\<lambda>m.
              if m = 0 then andthen (log_error 233 ''move_to_cgroup [kid]'') (exit_with 2) else return ())))]) (
     bind (sys (Net (Recvmsg (snd sk) 0))) (\<lambda>r.
     andthen (emit (Unistd (Close (snd sk))))
       (return (if length (outs r) = 3 then (outs r ! 0, outs r ! 1, outs r ! 2) else (-1, -1, -1)))))"

text \<open>
  What the child does: receive the descriptors and run the test on them.
\<close>

definition child_rest :: "int \<times> int \<Rightarrow> int \<Rightarrow> int \<times> int \<Rightarrow> int sprog" where
  "child_rest sk efd0 tube =
     bind (receive sk efd0 tube) (\<lambda>(efd, rfd, wfd).
     if efd = -1 \<or> rfd = -1 \<or> wfd = -1
     then andthen (log_error 263 ''failed to pass fds with SCM_RIGHTS'') (exit_with 2)
     else pipe_test 118 labels efd (rfd, wfd))"

definition main :: "string list \<Rightarrow> int sprog" where
  "main args =
     andthen (block [parse_args args, emit (Unistd (Close 0))]) (
     bind (sysv (Stdio (Fopen LOG_FILE ''w+''))) (\<lambda>fp.
     if fp < 0 then andthen (emit (Stdio (Perror 147))) (exit_with 1)
     else andthen (modify (\<lambda>s. s\<lparr>logfp := Some fp\<rparr>)) (
     bind (sysv (Unistd (Dup2 fp 1))) (\<lambda>d.
     if d < 0 then andthen (log_error 152 ''dup2(logfp, 1)'') (out_of 118 labels (-1) None 0 1)
     else bind (sysv (Unistd (Dup2 fp 2))) (\<lambda>d.
     if d < 0 then andthen (log_error 156 ''dup2(logfp, 2)'') (out_of 118 labels (-1) None 0 1)
     else bind (sysv (Proc Getpid)) (\<lambda>pid.
     with_glob freezer (\<lambda>frz.
     bind (move_to_cgroup ''freezer'' frz pid) (\<lambda>m.
     if m = 0 then andthen (log_error 160 ''move_to_cgroup'') (exit_with 2)
     else at_label labels 0 ''create'' (sys (Ipc (EpollCreate 1))) (\<lambda>e. out_of 118 labels (rv e) None 0 1) (\<lambda>e.
     bind (sys (Unistd Pipe)) (\<lambda>p.
     if rv p < 0 then out_of 118 labels (rv e) None 1 1
     else let tube = (out 0 p, out 1 p) in
     bind (sys (Net Socketpair)) (\<lambda>q.
     let sk = (out 0 q, out 1 q) in
     bind (sysv (Proc Fork)) (\<lambda>kid.
     if kid \<noteq> 0 then parent kid sk (rv e) tube
     else child_rest sk (rv e) tube))))))))))))"

section \<open>The calls of the two processes\<close>

text \<open>
  What recvmsg(2), waitpid(2) and malloc(3) promise. A control message with \<open>n\<close> descriptors takes
  \<open>CMSG_LEN(n * sizeof(int))\<close> bytes of the control buffer, and none is stored that does not fit.
  \<open>waitpid\<close> stores the status word of the child, which ended with the status that is the state of
  this kernel. Memory is not exhausted. Every other call may be answered in any way.
\<close>

definition CMSG_LEN :: "int \<Rightarrow> int" where "CMSG_LEN n = 16 + n"

definition scm_answers :: "call \<Rightarrow> resp \<Rightarrow> int \<Rightarrow> int option" where
  "scm_answers c r k =
     (case c of
        Net (Recvmsg fd controllen) \<Rightarrow>
          if outs r = [] \<or> CMSG_LEN (int (length (outs r)) * 4) \<le> controllen then Some k else None
      | Proc (Waitpid pid options) \<Rightarrow> if out 0 r = uint (exit_status k) then Some k else None
      | Proc (Malloc n) \<Rightarrow> if rv r \<noteq> 0 then Some k else None
      | _ \<Rightarrow> Some k)"

definition scm_kernel :: "int kernel" where
  "scm_kernel = \<lparr>answers = scm_answers, effect = \<lambda>_ k. k\<rparr>"

lemma scm_kernel_sel [simp]: "answers scm_kernel = scm_answers" "effect scm_kernel = (\<lambda>_ k. k)"
  by (simp_all add: scm_kernel_def)

section \<open>Entering a second cgroup\<close>

lemma wp_scm_do_exit: "E c k \<Longrightarrow> wp scm_kernel (do_exit c) Q E k s"
  unfolding do_exit_def by (cases "logfp s") (auto intro!: wp_rules append_intros)

definition stays :: "int \<Rightarrow> 'g \<Rightarrow> 'g proc \<Rightarrow> bool" where
  "stays lf g t \<longleftrightarrow> logfp t = Some lf \<and> glob t = g"

lemma stays_adv [simp]: "stays lf g (adv s es rs e) = stays lf g s"
  by (simp add: stays_def)

lemma stays_mnt [simp]: "stays lf g (s\<lparr>freezer_mnt := m\<rparr>) = stays lf g s"
  by (simp add: stays_def)

lemma wp_mounts_loop:
  assumes "stays lf g s" and "\<And>k. E 1 k"
  shows "wp scm_kernel (loop (mounts_body f) ()) (\<lambda>_ _. stays lf g) E k s"
proof (rule mb.wp_loop [where Inv = "\<lambda>_ _. stays lf g", OF assms(1) appending_mounts_body])
  fix a :: unit and k and t :: "'a proc"
  assume "stays lf g t"
  then show "wp scm_kernel (mounts_body f a)
      (\<lambda>r k' t. case r of Inl a' \<Rightarrow> stays lf g t | Inr b \<Rightarrow> stays lf g t) E k t"
    unfolding mounts_body_def
    by (intro wp_rules append_intros)
      (auto intro!: wp_rules append_intros wp_scm_do_exit assms(2) simp: scm_answers_def split: prod.split option.split)
qed

lemma wp_freezer_mountpoint:
  assumes "stays lf g s" and "\<And>k. E 1 k"
  shows "wp scm_kernel freezer_mountpoint (\<lambda>m _ t. stays lf g t \<and> freezer_mnt t = m) E k s"
  unfolding freezer_mountpoint_def
  by (intro wp_rules append_intros mb.appending_loop appending_mounts_body wp_seq [OF wp_mounts_loop [where lf = lf and g = g]])
    (auto simp: assms intro!: wp_rules append_intros)

lemma wp_mountpoint_cached:
  assumes "freezer_mnt s = Some mp" and "wp K (f (Some mp)) Q E k s"
  shows "wp K (bind freezer_mountpoint f) Q E k s"
  using assms by (simp add: wp_def freezer_mountpoint_cached)

lemma appending_create_cgroup [append_intros]: "appending (create_cgroup grp)"
  unfolding create_cgroup_def by (auto intro!: append_intros split: option.split)

lemma appending_move_to_cgroup [append_intros]: "appending (move_to_cgroup subsys grp pid)"
  unfolding move_to_cgroup_def Let_def by (auto intro!: append_intros split: option.split)

lemma wp_create_then:
  assumes "freezer_mnt s = Some mp" and "stays lf g s" and "\<And>k t. stays lf g t \<Longrightarrow> wp K (f (Some mp)) Q E k t"
    and "\<And>m. appending (f m)"
  shows "wp K (bind (create_cgroup grp) (\<lambda>_. bind freezer_mountpoint f)) Q E k s"
proof (rule wp_seq [where R = "\<lambda>_ _ t. stays lf g t \<and> freezer_mnt t = Some mp"])
  show "wp K (create_cgroup grp) (\<lambda>_ _ t. stays lf g t \<and> freezer_mnt t = Some mp) E k s"
    unfolding create_cgroup_def using assms
    by (intro wp_mountpoint_cached [OF assms(1)]) (auto intro!: wp_rules append_intros)
qed (auto intro: wp_mountpoint_cached assms append_intros)

lemma wp_move_to_cgroup:
  assumes "stays lf g s" and "\<And>k. E 1 k"
  shows "wp scm_kernel (move_to_cgroup subsys grp pid) (\<lambda>_ _. stays lf g) E k s"
  unfolding move_to_cgroup_def
  by (intro wp_rules append_intros wp_seq [OF wp_freezer_mountpoint [where lf = lf and g = g]])
    (auto simp: assms Let_def intro!: wp_rules append_intros wp_scm_do_exit wp_create_then split: option.split)

section \<open>The descriptors never arrive, and nobody learns\<close>

text \<open>What the child can end with: 2, or 1 when it had to look for a freezer mount.\<close>

definition child_status :: "scm_globals \<Rightarrow> int \<Rightarrow> bool" where
  "child_status g c \<longleftrightarrow> c = 2 \<or> c = 1 \<and> cgroup2 g \<noteq> None"

lemma appending_receive [append_intros]: "appending (receive sk efd tube)"
  unfolding receive_def by (intro append_intros) (auto intro!: append_intros split: option.split)

lemma appending_scm_out_of [append_intros]: "appending (out_of off lbls efd tube op c)"
  unfolding out_of_def by (intro append_intros) (auto intro!: append_intros split: option.split)

lemma appending_pipe_test [append_intros]: "appending (pipe_test off lbls efd tube)"
  unfolding pipe_test_def read_back_def Let_def by (intro append_intros)

lemma wp_second_cgroup:
  assumes "stays lf g s" and "\<And>k. E 2 k" and "\<And>k. cgroup2 g \<noteq> None \<Longrightarrow> E 1 k"
  shows "wp scm_kernel (with_glob cgroup2 (\<lambda>cg.
      case cg of None \<Rightarrow> return ()
      | Some grp \<Rightarrow> bind (sysv (Proc Getpid)) (\<lambda>pid.
          bind (move_to_cgroup ''freezer'' grp pid) (\<lambda>m.
          if m = 0 then andthen (log_error 233 ''move_to_cgroup [kid]'') (exit_with 2) else return ()))))
    (\<lambda>_ _. stays lf g) E k s"
proof (cases "cgroup2 g")
  case None
  with assms(1) show ?thesis by (auto intro!: wp_with_glob_last wp_return simp: stays_def)
next
  case (Some grp)
  with assms show ?thesis
    by (intro wp_with_glob_last)
      (auto simp: log_error_def log_msg_def stays_def intro!: wp_rules append_intros wp_seq [OF wp_move_to_cgroup [where lf = lf and g = g]])
qed

lemma wp_receive:
  assumes "stays lf g s" and "\<And>k. E 2 k" and "\<And>k. cgroup2 g \<noteq> None \<Longrightarrow> E 1 k"
  shows "wp scm_kernel (receive sk efd tube) (\<lambda>fds _ t. fds = (-1, -1, -1) \<and> stays lf g t) E k s"
  unfolding receive_def
  by (intro wp_rules append_intros wp_seq [OF wp_second_cgroup [where lf = lf and g = g]])
    (auto simp: assms scm_answers_def CMSG_LEN_def intro!: wp_rules append_intros split: if_splits option.split)

lemma wp_child_rest:
  assumes "logfp s = Some lf"
  shows "wp scm_kernel (child_rest sk efd tube) (\<lambda>_ _ _. False) (\<lambda>c _. child_status (glob s) c) k s"
  unfolding child_rest_def
  by (rule wp_seq [OF wp_receive [where lf = lf and g = "glob s"]])
    (auto simp: assms stays_def child_status_def log_error_def log_msg_def intro!: wp_rules append_intros split: prod.split)

lemma WEXITSTATUS_of_status: "WEXITSTATUS (exit_status (uint (exit_status c))) = 0"
proof -
  have "push_bit 8 (w AND mask 8) AND mask 8 = (0 :: u32)" for w
    by (rule bit_word_eqI) (auto simp: bit_simps)
  then show ?thesis
    by (simp only: WEXITSTATUS_exit_status word_of_int_uint) (simp only: exit_status_def mask_ff)
qed

lemma wp_parent:
  "wp scm_kernel (parent kid sk efd tube) (\<lambda>_ _ _. False) (\<lambda>c _. WEXITSTATUS (exit_status c) = 0) k s"
  unfolding parent_def
  by (intro wp_rules append_intros) (auto simp: scm_answers_def WEXITSTATUS_of_status split: if_splits)

text \<open>
  \<^bold>\<open>C18.\<close> The child of scm.c never gets the descriptors: its message header has a control buffer of
  length 0, into which \<open>recvmsg\<close> stores no control message. So it never reaches the test; it ends
  with status 2, or with 1 when it was to enter a second cgroup and found no freezer. And whatever
  status a child ends with, the parent, which exits with the status word of \<open>waitpid\<close>, is seen to
  end with status 0.
\<close>

theorem scm_fails_unnoticed:
  assumes "logfp s = Some lf"
    and "run_kernel scm_kernel k (since s (final (child_rest sk efd tube s))) \<noteq> None"
    and "run_kernel scm_kernel c (since s' (final ((parent kid sk efd tube :: int sprog) s'))) \<noteq> None"
  shows "(case child_rest sk efd tube s of
      Exited d t \<Rightarrow> d = 2 \<or> d = 1 \<and> cgroup2 (glob s) \<noteq> None | Blocked t \<Rightarrow> True | _ \<Rightarrow> False) \<and>
    (case (parent kid sk efd tube :: int sprog) s' of
      Exited d t \<Rightarrow> WEXITSTATUS (exit_status d) = 0 | Blocked t \<Rightarrow> True | _ \<Rightarrow> False)"
proof
  from assms(2) obtain k' where "run_kernel scm_kernel k (since s (final (child_rest sk efd tube s))) = Some k'" by auto
  from wp_ends [OF wp_child_rest [OF assms(1)] this] show "case child_rest sk efd tube s of
      Exited d t \<Rightarrow> d = 2 \<or> d = 1 \<and> cgroup2 (glob s) \<noteq> None | Blocked t \<Rightarrow> True | _ \<Rightarrow> False"
    unfolding child_status_def .
  from assms(3) obtain k' where "run_kernel scm_kernel c (since s' (final ((parent kid sk efd tube :: int sprog) s'))) = Some k'" by auto
  from wp_ends [OF wp_parent this] show "case (parent kid sk efd tube :: int sprog) s' of
      Exited d t \<Rightarrow> WEXITSTATUS (exit_status d) = 0 | Blocked t \<Rightarrow> True | _ \<Rightarrow> False" .
qed

definition example_child :: "scm_globals proc" where
  "example_child = start [ok 11, ok 0, ok 20] (Some 8) \<lparr>cgroup2 = Some ''2'', freezer = ''1''\<rparr>"

definition example_parent :: "scm_globals proc" where
  "example_parent = start [\<lparr>rv = 99, er = 0, rdat = [], outs = [512]\<rparr>] (Some 8) \<lparr>cgroup2 = None, freezer = ''1''\<rparr>"

theorem scm_fails_unnoticed_witness:
  "(\<exists>t. child_rest (3, 4) 5 (6, 7) example_child = Exited 2 t) \<and>
   (\<exists>d t. (parent 99 (3, 4) 5 (6, 7) :: int sprog) example_parent = Exited d t \<and> WEXITSTATUS (exit_status d) = 0)"
proof -
  have "logfp example_child = Some 8" by (simp add: example_child_def)
  moreover have "run_kernel scm_kernel 0 (since example_child (final (child_rest (3, 4) 5 (6, 7) example_child))) \<noteq> None"
    by code_simp
  moreover have "run_kernel scm_kernel 2 (since example_parent (final ((parent 99 (3, 4) 5 (6, 7) :: int sprog) example_parent))) \<noteq> None"
    by code_simp
  ultimately have all: "(case child_rest (3, 4) 5 (6, 7) example_child of
      Exited d t \<Rightarrow> d = 2 \<or> d = 1 \<and> cgroup2 (glob example_child) \<noteq> None | Blocked t \<Rightarrow> True | _ \<Rightarrow> False) \<and>
    (case (parent 99 (3, 4) 5 (6, 7) :: int sprog) example_parent of
      Exited d t \<Rightarrow> WEXITSTATUS (exit_status d) = 0 | Blocked t \<Rightarrow> True | _ \<Rightarrow> False)"
    by (rule scm_fails_unnoticed)
  moreover have "case child_rest (3, 4) 5 (6, 7) example_child of Exited d t \<Rightarrow> d \<noteq> 1 | _ \<Rightarrow> False" by code_simp
  moreover have "case (parent 99 (3, 4) 5 (6, 7) :: int sprog) example_parent of Exited d t \<Rightarrow> True | _ \<Rightarrow> False" by code_simp
  ultimately show ?thesis by (auto split: outcome.splits)
qed

end
