(* ===== verification/Epoll_Cycle.thy ===== *)
theory Epoll_Cycle
  imports Epoll_Pipe
begin

text \<open>
  epoll/cycle.c: epoll sets linked in a cycle, the last of which also watches a pipe. The array
  \<open>efd[3]\<close> is a list of three entries, \<open>None\<close> while unset; an index outside it, or reading an
  unset entry, is undefined.
\<close>

section \<open>Constants and globals\<close>

definition LOG_FILE :: string where "LOG_FILE = ''log.cycle''"
definition RLIMIT_NOFILE :: int where "RLIMIT_NOFILE = 7"

definition labels :: "string list" where
  "labels = [''create_efd'', ''link_pipe'', ''wait_write'', ''do_write'', ''wait_read'', ''do_read'']"

record cycle_globals =
  num_efd :: int
  freezer :: string

type_synonym 'a cprog = "(cycle_globals, 'a) prog"

definition cycle_long_options :: "longopt list" where
  "cycle_long_options =
     [(''print-labels'', 0, CHR ''L''), (''print-max-label-no'', 0, CHR ''N''), (''help'', 0, CHR ''h''),
      (''label'', 1, CHR ''l''), (''num'', 1, CHR ''n''), (''circumference'', 1, CHR ''c''), (''freezer'', 1, CHR ''f'')]"

section \<open>Options\<close>

definition usage :: "int \<Rightarrow> unit cprog" where
  "usage pout =
     block [emit (Stdio (FprintfTo pout 31 [I (int (length labels) - 1)])), print_labels labels pout]"

text \<open>
  %u stores in an int the same 32 bits that %d does. The answer to \<open>getrlimit\<close> stores the soft
  and the hard limit.
\<close>

definition other_option :: "char \<Rightarrow> string option \<Rightarrow> unit cprog" where
  "other_option c optarg =
     (if c = CHR ''f'' then set_glob (\<lambda>g. g\<lparr>freezer := the optarg\<rparr>)
      else if c = CHR ''c'' then
        (case sscanf_d (the optarg) of
           None \<Rightarrow> with_glob num_efd (\<lambda>n.
             andthen (block [emit (Stdio (FprintfTo stderr 102 [I n])), usage stderr]) (exit_with 1))
         | Some n \<Rightarrow>
             andthen (set_glob (\<lambda>g. g\<lparr>num_efd := n\<rparr>)) (
             bind (sys (Ipc (Getrlimit RLIMIT_NOFILE))) (\<lambda>lim.
             andthen (emit (Stdio (FprintfTo stdout 111 [I (out 0 lim), I (out 1 lim)]))) (
             if uint (word_of_int n :: u32) \<ge> out 0 lim
             then block [emit (Stdio (FprintfTo stderr 113 [I n, I (out 0 lim)])),
                         set_glob (\<lambda>g. g\<lparr>num_efd := to_int32 (out 0 lim)\<rparr>)]
             else return ()))))
      else return ())"

definition parse_args :: "string list \<Rightarrow> unit cprog" where
  "parse_args args =
     andthen (last_label labels)
       (foreach (label_option labels 81 95 [S ''n''] usage other_option)
          (fst (getopt_long ''f:LNhl:n:s:c:'' cycle_long_options args)))"

section \<open>The cycle\<close>

type_synonym efds = "int option list"

definition get_efd :: "efds \<Rightarrow> int \<Rightarrow> (int \<Rightarrow> 'a cprog) \<Rightarrow> 'a cprog" where
  "get_efd efd i k =
     (if i < 0 \<or> int (length efd) \<le> i then crash
      else case efd ! nat i of None \<Rightarrow> crash | Some fd \<Rightarrow> k fd)"

definition CYCLE_EVENTS :: u32 where "CYCLE_EVENTS = EPOLLOUT OR EPOLLIN OR EPOLLET"

text \<open>The loop that creates the sets; \<open>False\<close> is the jump to \<open>out\<close>.\<close>

fun make_efds :: "nat list \<Rightarrow> efds \<Rightarrow> (bool \<times> efds) cprog" where
  "make_efds [] efd = return (True, efd)"
| "make_efds (i # is) efd0 =
     bind (sysv (Ipc (EpollCreate 4))) (\<lambda>e.
     if length efd0 \<le> i then crash
     else let efd = efd0[i := Some e] in
     if e < 0 then andthen (log_msg FAIL 168 []) (return (False, efd))
     else if i = 0 then make_efds is efd
     else get_efd efd (int i - 1) (\<lambda>prev.
     bind (epoll_ctl e EPOLL_CTL_ADD prev CYCLE_EVENTS prev) (\<lambda>r.
     if rv r < 0 then andthen (log_msg FAIL 177 [I e, I prev]) (return (False, efd))
     else make_efds is efd)))"

text \<open>\<open>(unsigned int)(i - 1) % ~(num_efd - 1)\<close>, in 32-bit arithmetic, as an int.\<close>

definition prev_index :: "int \<Rightarrow> int \<Rightarrow> int" where
  "prev_index i n = sint ((word_of_int (i - 1) :: u32) mod NOT (word_of_int (n - 1)))"

text \<open>
  The loop that follows the event around the cycle, on the indices it takes; the first occurrence
  in the source is at distance 0, the second at distance 38. It gives whether it ran to its end,
  and the last index \<open>j\<close>.
\<close>

fun wait_round :: "nat \<Rightarrow> efds \<Rightarrow> int \<Rightarrow> int list \<Rightarrow> int \<Rightarrow> (bool \<times> int) cprog" where
  "wait_round off efd n [] j = return (True, j)"
| "wait_round off efd n (i # is) j0 =
     (let j = prev_index i n in
      get_efd efd i (\<lambda>ei. get_efd efd j (\<lambda>ej.
      andthen (log_msg INFO (234 + off) [I ei, I ej]) (
      bind (epoll_wait ei 1 1000) (\<lambda>r.
      if rv r \<noteq> 1 then andthen (log_error (237 + off) ''Expected epoll_wait() to return an event.'') (return (False, j))
      else bind (eflags (ev_events r)) (\<lambda>flags.
      andthen (log_msg INFO (240 + off) [I (out 1 r), S flags]) (
      if out 1 r \<noteq> ej \<or> ev_events r AND EPOLLIN = 0 then return (False, j)
      else wait_round off efd n is j)))))))"

definition downto_0 :: "int \<Rightarrow> int list" where
  "downto_0 n = rev [0..n]"

section \<open>The main program\<close>

definition out_of :: "int \<Rightarrow> efds \<Rightarrow> (int \<times> int) option \<Rightarrow> int \<Rightarrow> int \<Rightarrow> 'a cprog" where
  "out_of n efd pfd op_num ec =
     andthen
       (if op_num \<noteq> INT_MAX then
          if int (length labels) \<le> op_num then crash
          else log_msg FAIL 311 [S (labels ! nat op_num), I op_num]
        else return ()) (
     andthen (foreach (\<lambda>i. get_efd efd i (\<lambda>fd.
        bind (sysv (Unistd (Close fd))) (\<lambda>r. if r < 0 then log_error 318 ''close(efd[i])'' else return ()))) [0..n - 1]) (
     case pfd of
       None \<Rightarrow> crash
     | Some (rfd, wfd) \<Rightarrow>
         andthen (block
           [if rfd \<noteq> 0 then block [emit (Unistd (Close rfd)), emit (Unistd (Close wfd))] else return (),
            flush_log, bind (gets logfp) (\<lambda>fp. emit (Stdio (Fclose (the fp))))])
           (exit_with ec)))"

text \<open>From label \<open>wait_read\<close> on.\<close>

definition read_phase :: "int \<Rightarrow> efds \<Rightarrow> int \<times> int \<Rightarrow> int \<Rightarrow> int cprog" where
  "read_phase n efd pfd ret =
     (let fail = (\<lambda>op. out_of n efd (Some pfd) op 1); need = int (length HELLO) + 1 in
      at_label labels 4 ''wait_read'' (keep ret) (\<lambda>_. fail 4) (\<lambda>_.
      bind (wait_round 38 efd n (downto_0 (n - 2)) (n - 1)) (\<lambda>(ok_round, j).
      if \<not> ok_round then fail 5
      else get_efd efd j (\<lambda>ej.
      andthen (log_msg INFO 282 [I ej, I (fst pfd)]) (
      bind (epoll_wait ej 1 1000) (\<lambda>r.
      if rv r \<noteq> 1 then andthen (log_error 285 ''Expected epoll_wait() to return an event.'') (fail 5)
      else bind (eflags (ev_events r)) (\<lambda>flags.
      andthen (log_msg INFO 288 [I (out 1 r), S flags]) (
      if out 1 r \<noteq> fst pfd \<or> ev_events r AND EPOLLIN = 0 then fail 5
      else at_label labels 5 ''do_read'' (keep (rv r)) (\<lambda>_. fail 5) (\<lambda>_.
      bind (sys (Unistd (Read (fst pfd) (length HELLO + 1)))) (\<lambda>r.
      if rv r < need then andthen (log_msg FAIL 295 [I need, S HELLO]) (fail 6)
      else if cstr (rdat r) 0 \<noteq> HELLO then andthen (log_msg FAIL 300 [S HELLO, S (cstr (rdat r) 0)]) (fail 6)
      else andthen (block [log_msg INFO 304 [], log_msg INFO 305 []])
             (out_of n efd (Some pfd) INT_MAX 0)))))))))))"

text \<open>From label \<open>link_pipe\<close> on.\<close>

definition write_phase :: "int \<Rightarrow> efds \<Rightarrow> int \<times> int \<Rightarrow> int \<Rightarrow> int cprog" where
  "write_phase n efd pfd ret =
     (let fail = (\<lambda>op. out_of n efd (Some pfd) op 1); need = int (length HELLO) + 1 in
      at_label labels 1 ''link_pipe'' (keep ret) (\<lambda>_. fail 1) (\<lambda>_.
      get_efd efd (n - 1) (\<lambda>el.
      bind (epoll_ctl el EPOLL_CTL_ADD (fst pfd) EPOLLIN (fst pfd)) (\<lambda>r.
      if rv r < 0 then andthen (log_msg FAIL 208 []) (fail 2)
      else bind (epoll_ctl el EPOLL_CTL_ADD (snd pfd) EPOLLOUT (snd pfd)) (\<lambda>r.
      if rv r < 0 then andthen (log_msg FAIL 216 []) (fail 2)
      else at_label labels 2 ''wait_write'' (keep (rv r)) (\<lambda>_. fail 2) (\<lambda>_.
      bind (wait_round 0 efd n (downto_0 (n - 2)) (n - 1)) (\<lambda>(ok_round, j).
      if \<not> ok_round then fail 3
      else get_efd efd j (\<lambda>ej.
      andthen (log_msg INFO 249 [I ej, I (snd pfd)]) (
      bind (epoll_wait ej 1 1000) (\<lambda>r.
      if rv r \<noteq> 1 then andthen (log_error 252 ''Expected epoll_wait() to return an event.'') (fail 3)
      else bind (eflags (ev_events r)) (\<lambda>flags.
      andthen (log_msg INFO 255 [I (out 1 r), S flags]) (
      if out 1 r \<noteq> snd pfd \<or> ev_events r AND EPOLLOUT = 0 then fail 3
      else at_label labels 3 ''do_write'' (sys (Unistd (Write (snd pfd) (HELLO @ [NUL])))) (\<lambda>_. fail 3) (\<lambda>w.
      if rv w < need then andthen (log_msg FAIL 261 [I need, S HELLO, I (fst pfd)]) (fail 4)
      else read_phase n efd pfd (rv w))))))))))))))"

definition main :: "string list \<Rightarrow> int cprog" where
  "main args =
     andthen (block [parse_args args, emit (Unistd (Close 0))]) (
     bind (sysv (Stdio (Fopen LOG_FILE ''w+''))) (\<lambda>fp.
     if fp < 0 then andthen (emit (Stdio (Perror 140))) (exit_with 1)
     else andthen (modify (\<lambda>s. s\<lparr>logfp := Some fp\<rparr>)) (
     with_glob num_efd (\<lambda>n.
     let unset = replicate 3 None in
     bind (sysv (Unistd (Dup2 fp 1))) (\<lambda>d.
     if d < 0 then andthen (log_error 145 ''dup2(logfp, 1)'') (out_of n unset None 0 1)
     else bind (sysv (Unistd (Dup2 fp 2))) (\<lambda>d.
     if d < 0 then andthen (log_error 149 ''dup2(logfp, 2)'') (out_of n unset None 0 1)
     else bind (sysv (Proc Getpid)) (\<lambda>pid.
     with_glob freezer (\<lambda>frz.
     bind (move_to_cgroup ''freezer'' frz pid) (\<lambda>m.
     if m = 0 then andthen (log_error 153 ''move_to_cgroup'') (exit_with 2)
     else bind (sys (Unistd Pipe)) (\<lambda>p.
     if rv p < 0 then out_of n unset None 0 1
     else let pfd = (out 0 p, out 1 p) in
     andthen (log_msg INFO 160 [I (fst pfd), I (snd pfd)]) (
     at_label labels 0 ''create_efd'' (keep (rv p)) (\<lambda>_. out_of n unset (Some pfd) 0 1) (\<lambda>_.
     bind (make_efds [0..<nat n] unset) (\<lambda>(made, efd).
     if \<not> made then out_of n efd (Some pfd) 1 1
     else get_efd efd (n - 1) (\<lambda>el. get_efd efd 0 (\<lambda>e0.
     bind (epoll_ctl e0 EPOLL_CTL_ADD el CYCLE_EVENTS el) (\<lambda>r.
     if rv r < 0 then andthen (log_msg FAIL 186 []) (out_of n efd (Some pfd) 1 1)
     else write_phase n efd pfd (rv r)))))))))))))))))"

section \<open>The index of the previous set\<close>

lemma uint_not: "uint (NOT w) = 2 ^ 32 - 1 - uint w" for w :: u32
proof -
  have "NOT w = - 1 - w" unfolding not_eq_complement by (simp only: diff_conv_add_uminus add.commute)
  then have "uint (NOT w) = uint (- 1 - w)" by simp
  also have "\<dots> = uint (- 1 :: u32) - uint w"
    using uint_sub_lem [of w "- 1"] uint_bounded [of w] by (simp add: unsigned_minus_1_eq_mask mask_eq_exp_minus_1)
  finally show ?thesis by (simp add: unsigned_minus_1_eq_mask mask_eq_exp_minus_1)
qed

lemma uint_of_small: "0 \<le> k \<Longrightarrow> k < 2 ^ 32 \<Longrightarrow> uint (word_of_int k :: u32) = k"
  by (subst uint_word_of_int) (simp add: take_bit_int_eq_self)

lemma sint_of_small: "uint w < 2147483648 \<Longrightarrow> sint w = uint w" for w :: u32
proof -
  assume "uint w < 2147483648"
  moreover have "- (2 ^ 31) \<le> uint w" by (rule order_trans [OF _ uint_ge_0]) simp
  ultimately have "signed_take_bit 31 (uint w) = uint w"
    by (intro signed_take_bit_int_eq_self) simp_all
  then show ?thesis by (simp add: sint_uint)
qed

text \<open>
  The expression \<open>(unsigned int)(i - 1) % ~(num_efd - 1)\<close>, evaluated in 32 bits, is the
  index before \<open>i\<close> in the cycle: \<open>i - 1\<close>, and \<open>num_efd - 1\<close> for \<open>i = 0\<close>.
\<close>

theorem prev_index_cycle:
  assumes "0 \<le> i" and "i < n" and "n < 2147483648"
  shows "prev_index i n = (i - 1) mod n"
proof -
  have "uint (word_of_int (n - 1) :: u32) = n - 1"
    using assms by (intro uint_of_small) simp_all
  then have m: "uint (NOT (word_of_int (n - 1) :: u32)) = 2 ^ 32 - n" by (simp add: uint_not)
  show ?thesis
  proof (cases "i = 0")
    case True
    have "uint (word_of_int (i - 1) :: u32) = 2 ^ 32 - 1" using True by (simp add: unsigned_minus_1_eq_mask mask_eq_exp_minus_1)
    moreover have "(2 ^ 32 - 1) mod (2 ^ 32 - n) = n - 1"
    proof -
      have "(2 ^ 32 - 1) mod (2 ^ 32 - n) = (n - 1 + (2 ^ 32 - n)) mod (2 ^ 32 - n)" by simp
      also have "\<dots> = n - 1" using assms by (simp only: mod_add_self2) (rule mod_pos_pos_trivial, auto)
      finally show ?thesis .
    qed
    ultimately have "uint ((word_of_int (i - 1) :: u32) mod NOT (word_of_int (n - 1))) = n - 1"
      using m by (simp only: uint_mod)
    moreover have "(i - 1) mod n = n - 1" using True assms by (simp add: zmod_minus1)
    ultimately show ?thesis using assms by (simp add: prev_index_def sint_of_small)
  next
    case False
    with assms have "uint (word_of_int (i - 1) :: u32) = i - 1"
      by (intro uint_of_small) simp_all
    with m have "uint ((word_of_int (i - 1) :: u32) mod NOT (word_of_int (n - 1))) = (i - 1) mod (2 ^ 32 - n)"
      by (simp only: uint_mod)
    also have "\<dots> = i - 1" using False assms by (intro mod_pos_pos_trivial) auto
    finally show ?thesis using False assms by (simp add: prev_index_def sint_of_small)
  qed
qed

theorem prev_index_cycle_witness:
  "prev_index 0 3 = 2 \<and> prev_index 1 3 = 0 \<and> prev_index 2 3 = 1"
  using prev_index_cycle [of 0 3] prev_index_cycle [of 1 3] prev_index_cycle [of 2 3] by simp

section \<open>Building the cycle\<close>

text \<open>The answers when every \<open>epoll_create\<close> succeeds, with the descriptors \<open>es\<close>, and every \<open>epoll_ctl\<close> too.\<close>

definition create_answers :: "nat \<Rightarrow> int list \<Rightarrow> resp list" where
  "create_answers i es = concat (map (\<lambda>(k, e). ok e # (if k = 0 then [] else [ok 0])) (zip [i..<i + length es] es))"

lemma create_answers_Cons:
  "create_answers i (e # es) = ok e # (if i = 0 then [] else [ok 0]) @ create_answers (Suc i) es"
  by (simp add: create_answers_def upt_rec)

lemma make_efds_overflows:
  assumes "script s = create_answers i es @ rest" and "\<forall>e \<in> set es. 0 \<le> e" and "length es = length is"
    and "is = [i..<n]" and "length efd = 3" and "i \<le> 3" and "3 < n" and "\<forall>k < i. efd ! k \<noteq> None"
  shows "\<exists>t. make_efds is efd s = Crashed t"
  using assms
proof (induction "is" arbitrary: s i es efd)
  case Nil
  from Nil.prems(6,7) have "i < n" by simp
  then have "length [i..<n] \<noteq> 0" by simp
  with Nil.prems(4) show ?case by (metis list.size(3))
next
  case (Cons k js)
  from Cons.prems(3) obtain e es' where es: "es = e # es'" by (cases es) auto
  from Cons.prems(6,7) have "i < n" by simp
  with Cons.prems(4) have k: "k = i" "js = [Suc i..<n]" "i < n" by (simp_all add: upt_conv_Cons)
  show ?case
  proof (cases "i = 3")
    case True
    with Cons.prems(1,5) es k show ?thesis by (simp add: create_answers_Cons prog_simps)
  next
    case False
    then have i: "i < 3" using Cons.prems(6) by simp
    let ?efd = "efd[i := Some e]"
    have new: "\<forall>m < Suc i. ?efd ! m \<noteq> None"
      using Cons.prems(5,8) i by (auto simp: nth_list_update less_Suc_eq)
    have "\<exists>u. make_efds (k # js) efd s = make_efds js ?efd u \<and> script u = create_answers (Suc i) es' @ rest"
    proof (cases "i = 0")
      case True
      with Cons.prems(1,2,5) es k i show ?thesis
        by (auto simp: create_answers_Cons prog_simps Let_def)
    next
      case pos: False
      then have "i - 1 < Suc i" by simp
      with new obtain prev where "?efd ! (i - 1) = Some prev" by blast
      moreover from pos have "nat (int i - 1) = i - 1" by simp
      ultimately show ?thesis using Cons.prems(1,2,5) es k i pos
        by (auto simp: create_answers_Cons prog_simps Let_def get_efd_def)
    qed
    then obtain u where "make_efds (k # js) efd s = make_efds js ?efd u"
      and "script u = create_answers (Suc i) es' @ rest" by blast
    with Cons.IH [of u "Suc i" es' ?efd] Cons.prems es k i new show ?thesis by simp
  qed
qed

text \<open>
  With \<open>-c NUM\<close> for any NUM above 3 the loop that creates the epoll sets writes past the
  end of \<open>efd[3]\<close>, although every system call succeeds.
\<close>

theorem circumference_overflows:
  assumes "script s = create_answers 0 es @ rest" and "\<forall>e \<in> set es. 0 \<le> e" and "length es = n" and "3 < n"
  shows "\<exists>t. make_efds [0..<n] (replicate 3 None) s = Crashed t"
  using assms by (intro make_efds_overflows [where i = 0 and es = es and n = n]) simp_all

theorem circumference_overflows_witness:
  "\<exists>t. make_efds [0..<4] (replicate 3 None) (start (create_answers 0 [5, 6, 7, 8]) (Some 4)
      \<lparr>num_efd = 4, freezer = ''1''\<rparr>) = Crashed t"
  by (rule circumference_overflows [where es = "[5, 6, 7, 8]" and rest = "[]"]) simp_all

end
