(* ===== verification/Epoll_Sk10k.thy ===== *)
theory Epoll_Sk10k
  imports Epoll_Cycle
begin

text \<open>
  epoll/sk10k.c: as many socket pairs as the descriptor limit allows, all watched by one epoll
  set. The two arrays come from \<open>malloc\<close>: their entries are unset (\<open>None\<close>) until written, and an
  index outside them, or reading an unset entry, is undefined. The answer to \<open>epoll_wait\<close> stores
  events and descriptor of each event in turn.
\<close>

section \<open>Constants and globals\<close>

definition LOG_FILE :: string where "LOG_FILE = ''log.sk10k''"

definition labels :: "string list" where
  "labels = [''create'', ''open'', ''wait_write'', ''mod'', ''wait_read'', ''do_read'']"

record sk_globals =
  num_sk :: int
  freezer :: string

type_synonym 'a kprog = "(sk_globals, 'a) prog"

definition sk_long_options :: "longopt list" where
  "sk_long_options =
     [(''print-labels'', 0, CHR ''L''), (''print-max-label-no'', 0, CHR ''N''), (''help'', 0, CHR ''h''),
      (''label'', 1, CHR ''l''), (''num'', 1, CHR ''n''), (''num-skp'', 1, CHR ''s''), (''freezer'', 1, CHR ''f'')]"

section \<open>Options\<close>

definition usage :: "int \<Rightarrow> unit kprog" where
  "usage pout =
     block [emit (Stdio (FprintfTo pout 46 [I (int (length labels) - 1)])), print_labels labels pout]"

text \<open>
  The number of sockets from the soft limit, an unsigned 64-bit number, and from the number of
  entries in /proc/self/fd (negative if it cannot be read). Every assignment to the int \<open>num_sk\<close>
  keeps 32 bits.
\<close>

definition round_sk :: "int \<Rightarrow> int" where
  "round_sk n = (let m = and n (not 1) in if m > 1000000 then 1000000 else m)"

definition default_sk :: "int \<Rightarrow> int \<Rightarrow> int" where
  "default_sk rlim_cur num_fds_open =
     (let half = to_int32 (rlim_cur div 2) in
      round_sk (if num_fds_open < 0 then half else to_int32 (half - c_div (num_fds_open - 2 + 1) 2)))"

definition set_default_num_sk :: "unit kprog" where
  "set_default_num_sk =
     bind (sys (Ipc (Getrlimit RLIMIT_NOFILE))) (\<lambda>lim.
     bind (sysv (Net (Scandir ''/proc/self/fd''))) (\<lambda>fds.
     andthen (if fds < 0 then emit (Stdio (Perror 91)) else emit (Proc (Free 0)))
       (set_glob (\<lambda>g. g\<lparr>num_sk := default_sk (uint (word_of_int (out 0 lim) :: u64)) fds\<rparr>))))"

definition other_option :: "char \<Rightarrow> string option \<Rightarrow> unit kprog" where
  "other_option c optarg =
     (if c = CHR ''f'' then set_glob (\<lambda>g. g\<lparr>freezer := the optarg\<rparr>)
      else if c = CHR ''s'' then
        (case sscanf_d (the optarg) of
           None \<Rightarrow> with_glob num_sk (\<lambda>n.
             andthen (block [emit (Stdio (FprintfTo stderr 152 [I n])), usage stderr]) (exit_with 1))
         | Some n0 \<Rightarrow>
             let n = to_int32 (n0 * 2) in
             andthen (set_glob (\<lambda>g. g\<lparr>num_sk := n\<rparr>)) (
             bind (sys (Ipc (Getrlimit RLIMIT_NOFILE))) (\<lambda>lim.
             andthen (emit (Stdio (FprintfTo stdout 162 [I (out 0 lim), I (out 1 lim)]))) (
             if uint (word_of_int n :: u32) \<ge> out 0 lim
             then block [emit (Stdio (FprintfTo stderr 164 [I n, I (out 0 lim)])),
                         set_glob (\<lambda>g. g\<lparr>num_sk := to_int32 (out 0 lim)\<rparr>)]
             else return ()))))
      else return ())"

definition parse_args :: "string list \<Rightarrow> unit kprog" where
  "parse_args args =
     andthen (block [last_label labels, set_default_num_sk])
       (foreach (label_option labels 131 145 [] usage other_option)
          (fst (getopt_long ''f:LNhl:n:s:'' sk_long_options args)))"

section \<open>The loops\<close>

type_synonym socks = "int option list"
type_synonym events = "(u32 \<times> int) option list"

definition get_entry :: "'b option list \<Rightarrow> nat \<Rightarrow> ('b \<Rightarrow> 'a kprog) \<Rightarrow> 'a kprog" where
  "get_entry xs i k =
     (if length xs \<le> i then crash else case xs ! i of None \<Rightarrow> crash | Some x \<Rightarrow> k x)"

text \<open>Opening the pairs, on the indices 0, 2, \dots below \<open>num_sk\<close>; \<open>False\<close> is the jump to \<open>out\<close>.\<close>

definition even_below :: "int \<Rightarrow> nat list" where
  "even_below n = filter even [0..<nat n]"

fun open_pairs :: "int \<Rightarrow> nat list \<Rightarrow> socks \<Rightarrow> events \<Rightarrow> (bool \<times> socks \<times> events) kprog" where
  "open_pairs efd [] sk evs = return (True, sk, evs)"
| "open_pairs efd (i # is) sk0 evs0 =
     bind (sys (Net Socketpair)) (\<lambda>r.
     if rv r \<noteq> 0 then andthen (log_error 227 ''socketpair'') (return (False, sk0, evs0))
     else if length sk0 \<le> i + 1 \<or> length evs0 \<le> i + 1 then crash
     else
       let a = out 0 r; b = out 1 r; sk = sk0[i := Some a, i + 1 := Some b];
           evs = evs0[i := Some (EPOLLOUT, a), i + 1 := Some (EPOLLOUT, b)] in
       bind (epoll_ctl efd EPOLL_CTL_ADD a EPOLLOUT a) (\<lambda>r.
       if rv r < 0 then andthen (log_msg FAIL 236 [I (int i)]) (return (False, sk, evs))
       else bind (epoll_ctl efd EPOLL_CTL_ADD b EPOLLOUT b) (\<lambda>r.
       if rv r < 0 then andthen (log_msg FAIL 241 [I (int i)]) (return (False, sk, evs))
       else open_pairs efd is sk evs)))"

text \<open>A loop that leaves at the first index where its body says so.\<close>

fun all_of :: "(nat \<Rightarrow> bool kprog) \<Rightarrow> nat list \<Rightarrow> bool kprog" where
  "all_of p [] = return True"
| "all_of p (i # is) = bind (p i) (\<lambda>go. if go then all_of p is else return False)"

text \<open>The array after \<open>epoll_wait\<close> stored \<open>n\<close> events in it.\<close>

definition store_events :: "events \<Rightarrow> nat \<Rightarrow> resp \<Rightarrow> events" where
  "store_events evs n r = map (\<lambda>i. Some (word_of_int (out (2 * i) r), out (2 * i + 1) r)) [0..<n] @ drop n evs"

definition check_event :: "nat \<Rightarrow> u32 \<Rightarrow> events \<Rightarrow> nat \<Rightarrow> bool kprog" where
  "check_event line flag evs i =
     get_entry evs i (\<lambda>(ev, _).
     if ev AND flag = 0
     then bind (eflags ev) (\<lambda>flags. andthen (log_msg FAIL line [I (uint flag), S flags, I (uint ev)]) (return False))
     else return True)"

definition write_one :: "socks \<Rightarrow> nat \<Rightarrow> bool kprog" where
  "write_one sk i =
     get_entry sk i (\<lambda>fd.
     bind (sysv (Unistd (Write fd (HELLO @ [NUL])))) (\<lambda>w.
     if w < int (length HELLO) + 1
     then andthen (log_msg FAIL 262 [I (int (length HELLO) + 1), S HELLO, I (int i), I fd]) (return False)
     else return True))"

text \<open>The results of \<open>lseek\<close> and \<open>epoll_ctl\<close> are assigned and not looked at, except the last one by the next label.\<close>

fun mod_all :: "int \<Rightarrow> socks \<Rightarrow> nat list \<Rightarrow> events \<Rightarrow> int \<Rightarrow> (events \<times> int) kprog" where
  "mod_all efd sk [] evs ret = return (evs, ret)"
| "mod_all efd sk (i # is) evs0 ret =
     get_entry evs0 i (\<lambda>(_, dat). get_entry sk i (\<lambda>fd.
     andthen (emit (Unistd (Lseek fd 0 0))) (
     bind (sysv (Ipc (EpollCtl efd EPOLL_CTL_MOD fd EPOLLIN dat))) (\<lambda>r.
     mod_all efd sk is (evs0[i := Some (EPOLLIN, dat)]) r))))"

definition read_one :: "socks \<Rightarrow> nat \<Rightarrow> bool kprog" where
  "read_one sk i =
     get_entry sk i (\<lambda>fd.
     bind (sys (Unistd (Read fd (length HELLO + 1)))) (\<lambda>r.
     if rv r < int (length HELLO) + 1
     then andthen (log_msg FAIL 293 [I (int (length HELLO) + 1), S HELLO]) (return False)
     else if cstr (rdat r) 0 \<noteq> HELLO
     then andthen (log_msg FAIL 298 [S HELLO, S (cstr (rdat r) 0)]) (return False)
     else return True))"

section \<open>The main program\<close>

definition out_of :: "int \<Rightarrow> int \<Rightarrow> socks option \<Rightarrow> events option \<Rightarrow> int \<Rightarrow> int \<Rightarrow> 'a kprog" where
  "out_of n efd sk evs op_num ec =
     andthen
       (if 0 \<le> efd then bind (sysv (Unistd (Close efd))) (\<lambda>c. if c < 0 then log_error 310 ''close()'' else return ())
        else return ()) (
     andthen
       (if op_num \<noteq> INT_MAX then
          if int (length labels) \<le> op_num then crash
          else log_msg FAIL 315 [S (labels ! nat op_num), I op_num]
        else return ()) (
     andthen (block
       [case sk of None \<Rightarrow> return ()
        | Some fds \<Rightarrow> block
            [foreach (\<lambda>i. get_entry fds i (\<lambda>fd. if 0 < fd then emit (Unistd (Close fd)) else return ())) [0..<nat n],
             emit (Proc (Free 0))],
        case evs of None \<Rightarrow> return () | Some _ \<Rightarrow> emit (Proc (Free 1)),
        flush_log, bind (gets logfp) (\<lambda>fp. emit (Stdio (Fclose (the fp))))])
       (exit_with ec)))"

text \<open>From label \<open>mod\<close> on.\<close>

definition read_phase :: "int \<Rightarrow> int \<Rightarrow> socks \<Rightarrow> events \<Rightarrow> int \<Rightarrow> int kprog" where
  "read_phase n efd sk evs ret =
     (let fail = (\<lambda>op. out_of n efd (Some sk) (Some evs) op 1); all_ix = [0..<nat n] in
      at_label labels 3 ''mod'' (keep ret) (\<lambda>_. fail 3) (\<lambda>_.
      bind (mod_all efd sk all_ix evs ret) (\<lambda>(evs, ret).
      at_label labels 4 ''wait_read'' (epoll_wait efd n 5000) (\<lambda>_. fail 4) (\<lambda>r.
      if rv r \<noteq> n then andthen (log_error 278 ''Expected epoll_wait() to return num_sk events.'') (fail 5)
      else bind (all_of (check_event 283 EPOLLIN (store_events evs (nat n) r)) all_ix) (\<lambda>good.
      if \<not> good then fail 5
      else at_label labels 5 ''do_read'' (keep (rv r)) (\<lambda>_. fail 5) (\<lambda>_.
      bind (all_of (read_one sk) all_ix) (\<lambda>good.
      if \<not> good then fail 6
      else andthen (block [log_msg INFO 303 [], log_msg INFO 304 []])
             (out_of n efd (Some sk) (Some evs) INT_MAX 0))))))))"

text \<open>From label \<open>open\<close> on.\<close>

definition write_phase :: "int \<Rightarrow> int \<Rightarrow> socks \<Rightarrow> events \<Rightarrow> int kprog" where
  "write_phase n efd sk evs =
     (let fail = (\<lambda>sk op. out_of n efd (Some sk) (Some evs) op 1); all_ix = [0..<nat n] in
      at_label labels 1 ''open'' (keep 0) (\<lambda>_. fail sk 1) (\<lambda>_.
      bind (open_pairs efd (even_below n) sk evs) (\<lambda>(good, sk, evs).
      if \<not> good then fail sk 2
      else at_label labels 2 ''wait_write'' (epoll_wait efd n 1000) (\<lambda>_. fail sk 2) (\<lambda>r.
      if rv r \<noteq> n then andthen (log_error 249 ''Expected epoll_wait() to return num_sk events.'') (fail sk 3)
      else
        let evs = store_events evs (nat n) r in
        bind (all_of (check_event 254 EPOLLOUT evs) all_ix) (\<lambda>good.
        if \<not> good then fail sk 3
        else bind (all_of (write_one sk) all_ix) (\<lambda>good.
        if \<not> good then fail sk 3
        else read_phase n efd sk evs (int (length HELLO) + 1)))))))"

definition main :: "string list \<Rightarrow> int kprog" where
  "main args =
     andthen (block [parse_args args, emit (Unistd (Close 0))]) (
     bind (sysv (Stdio (Fopen LOG_FILE ''w+''))) (\<lambda>fp.
     if fp < 0 then andthen (emit (Stdio (Perror 192))) (exit_with 1)
     else andthen (modify (\<lambda>s. s\<lparr>logfp := Some fp\<rparr>)) (
     with_glob num_sk (\<lambda>n.
     bind (sysv (Unistd (Dup2 fp 1))) (\<lambda>d.
     if d < 0 then andthen (log_error 197 ''dup2(logfp, 1)'') (out_of n (-1) None None 0 1)
     else bind (sysv (Unistd (Dup2 fp 2))) (\<lambda>d.
     if d < 0 then andthen (log_error 201 ''dup2(logfp, 2)'') (out_of n (-1) None None 0 1)
     else bind (sysv (Proc (Malloc (n * 4)))) (\<lambda>p.
     if p = 0 then andthen (log_error 206 ''sk = malloc()'') (out_of n (-1) None None 0 1)
     else let sk = replicate (nat n) None in
     bind (sysv (Proc (Malloc (n * 12)))) (\<lambda>q.
     if q = 0 then andthen (log_error 211 ''evs = malloc()'') (out_of n (-1) (Some sk) None 0 1)
     else let evs = replicate (nat n) None in
     bind (sysv (Proc Getpid)) (\<lambda>pid.
     with_glob freezer (\<lambda>frz.
     bind (move_to_cgroup ''freezer'' frz pid) (\<lambda>m.
     if m = 0 then andthen (log_error 216 ''move_to_cgroup'') (exit_with 2)
     else at_label labels 0 ''create'' (sys (Ipc (EpollCreate n)))
       (\<lambda>e. out_of n (rv e) (Some sk) (Some evs) 0 1)
       (\<lambda>e. write_phase n (rv e) sk evs))))))))))))"

section \<open>The default number of sockets\<close>

text \<open>
  Whatever the limit and the open descriptors, the default number of sockets is even and
  at most 1000000, as the pairs and the comment on high limits need; but it can be negative: for
  an unlimited process (RLIM_INFINITY) the conversion to int of half the limit gives -1, and the
  default is -2 minus half the descriptors that are open.
\<close>

theorem default_sk_bounds:
  "even (default_sk rlim fds) \<and> default_sk rlim fds \<le> 1000000 \<and> default_sk (2 ^ 64 - 1) 5 = - 4"
proof -
  have "even (round_sk n) \<and> round_sk n \<le> 1000000" for n
    by (simp add: round_sk_def Let_def even_and_iff)
  moreover have "default_sk (2 ^ 64 - 1) 5 = - 4" by code_simp
  ultimately show ?thesis by (simp add: default_sk_def Let_def)
qed

end
