(* ===== verification/Eventfd_RW.thy ===== *)
theory Eventfd_RW
  imports Epoll_Empty
begin

text \<open>
  eventfd/rw.c: reads and writes of an eventfd, blocking and not, with a label after each. The
  first read blocks until SIGALRM, whose handler writes to the eventfd; the second
  out-parameter of the answer to that read is not 0 if the handler ran before it returned.
\<close>

section \<open>Constants and globals\<close>

definition LOG_FILE :: string where "LOG_FILE = ''log.rw''"
definition EFD_CLOEXEC :: int where "EFD_CLOEXEC = 524288"
definition O_NONBLOCK :: int where "O_NONBLOCK = 2048"
definition F_SETFL :: int where "F_SETFL = 4"
definition SIGALRM :: int where "SIGALRM = 14"

definition labels :: "string list" where
  "labels = [''create_eventfd'', ''prepare_blocking_read_timeout'', ''write_event1'', ''read_event1'',
     ''set_nonblocking'', ''write_event2'', ''read_event2'']"

record rw_globals =
  freezer :: string
  evfd :: int

type_synonym 'a rwprog = "(rw_globals, 'a) prog"

section \<open>Operations\<close>

definition usage :: "string \<Rightarrow> int \<Rightarrow> unit rwprog" where
  "usage prog pout =
     block [emit (Stdio (FprintfTo pout 26 [S prog, I (int (length labels) - 1)])), print_labels labels pout]"

definition other_option :: "char \<Rightarrow> string option \<Rightarrow> unit rwprog" where
  "other_option c optarg =
     (if c = CHR ''f'' then
        block [set_glob (\<lambda>g. g\<lparr>freezer := the optarg\<rparr>), emit (Stdio (Printf 65 [S (the optarg)]))]
      else return ())"

definition parse_label_args :: "string list \<Rightarrow> unit rwprog" where
  "parse_label_args argv =
     andthen (modify (\<lambda>s. s\<lparr>ckpt_op_num := -1, ckpt_label := None\<rparr>))
       (foreach (label_option labels 72 86 [] (usage (hd argv)) other_option)
          (fst (getopt_long ''f:LNhl:n:'' long_options (tl argv))))"

definition setup_test_output :: "string \<Rightarrow> unit rwprog" where
  "setup_test_output log_filename =
     andthen (emit (Unistd (Close 0))) (
     bind (sysv (Stdio (Fopen log_filename ''w+''))) (\<lambda>fp.
     if fp < 0 then andthen (emit (Stdio (Perror 103))) (exit_with 1)
     else andthen (modify (\<lambda>s. s\<lparr>logfp := Some fp\<rparr>)) (
     bind (sysv (Unistd (Dup2 fp 1))) (\<lambda>d.
     if d < 0 then andthen (log_error 108 ''dup2(logfp, 1)'') (exit_with 2)
     else bind (sysv (Unistd (Dup2 fp 2))) (\<lambda>d.
     if d < 0 then andthen (log_error 112 ''dup2(logfp, 2)'') (exit_with 3)
     else return ())))))"

definition handler :: "int \<Rightarrow> unit rwprog" where
  "handler signo =
     andthen (log_msg INFO 127 []) (with_glob evfd (\<lambda>fd. emit (Ipc (WriteU64 fd 1))))"

definition out_of :: "int \<Rightarrow> 'a rwprog" where
  "out_of ret =
     with_glob evfd (\<lambda>fd. bind (sysv (Unistd (Close fd))) (\<lambda>c.
     if c < 0 then andthen (block [emit (Stdio (Perror 209)), close_log]) (exit_with 1)
     else andthen close_log (exit_with ret)))"

text \<open>A check of the value read, which ends the program on any other value.\<close>

definition expect :: "nat \<Rightarrow> u64 \<Rightarrow> u64 \<Rightarrow> unit rwprog" where
  "expect n want v =
     (if v \<noteq> want
      then andthen (block [log_msg FAIL n [I (uint want), I (uint v)], close_log]) (exit_with 1)
      else return ())"

text \<open>The value a \<open>read\<close> leaves in \<open>v\<close>: what it stored, or the old value if it stored nothing.\<close>

definition read_value :: "u64 \<Rightarrow> resp \<Rightarrow> u64" where
  "read_value v r = (if outs r = [] then v else word_of_int (out 0 r))"

text \<open>
  From label \<open>prepare_blocking_read_timeout\<close> on. \<open>v\<close> is not initialised when the blocking read
  fails and stores nothing.
\<close>

definition rw_test :: "int rwprog" where
  "rw_test =
     with_glob evfd (\<lambda>fd.
     let goto_out = (\<lambda>r. out_of (rv r)); wr = (\<lambda>v. sys (Ipc (WriteU64 fd v))); rd = sys (Ipc (ReadU64 fd)) in
     andthen (emit (Proc (Signal SIGALRM 119))) (
     at_label labels 1 ''prepare_blocking_read_timeout'' (sys (Ipc SetITimer)) goto_out (\<lambda>_.
     andthen (log_msg INFO 165 []) (
     bind rd (\<lambda>r.
     andthen (if out 1 r \<noteq> 0 then handler SIGALRM else return ()) (
     if outs r = [] then crash
     else andthen (expect 168 1 (read_value 0 r)) (
     at_label labels 2 ''write_event1'' (wr 31337) goto_out (\<lambda>_.
     at_label labels 3 ''read_event1'' rd goto_out (\<lambda>r.
     andthen (expect 180 31337 (read_value 0 r)) (
     at_label labels 4 ''set_nonblocking'' (sys (Unistd (Fcntl fd F_SETFL [O_NONBLOCK]))) goto_out (\<lambda>_.
     bind rd (\<lambda>r.
     if rv r \<noteq> -1 \<or> er r \<noteq> EAGAIN
     then andthen (block [log_msg FAIL 190 [], close_log]) (exit_with 1)
     else
     at_label labels 5 ''write_event2'' (wr 1) goto_out (\<lambda>_.
     at_label labels 6 ''read_event2'' rd goto_out (\<lambda>r.
     andthen (expect 200 1 (read_value 0 r)) (out_of 0)))))))))))))))"

definition main :: "string list \<Rightarrow> int rwprog" where
  "main argv =
     andthen (block [parse_label_args argv, setup_test_output LOG_FILE]) (
     bind (sysv (Proc Getpid)) (\<lambda>pid.
     with_glob freezer (\<lambda>frz.
     bind (move_to_cgroup ''freezer'' frz pid) (\<lambda>m.
     if m = 0 then andthen (log_error 146 ''move_to_cgroup'') (exit_with 4)
     else andthen (log_msg INFO 149 [S frz]) (
     at_label labels 0 ''create_eventfd''
       (bind (sys (Ipc (Eventfd 0 EFD_CLOEXEC))) (\<lambda>r. andthen (set_glob (\<lambda>g. g\<lparr>evfd := rv r\<rparr>)) (return r)))
       (\<lambda>_. out_of 0)
       (\<lambda>r. if rv r < 0 then andthen (block [log_error 154 ''eventfd(EFD_CLOEXEC)'', close_log]) (exit_with 1)
            else rw_test))))))"

section \<open>The verdict\<close>

definition val :: "u64 \<Rightarrow> resp" where
  "val v = \<lparr>rv = 8, er = 0, rdat = [], outs = [uint v]\<rparr>"

lemma val_sel [simp]:
  "rv (val v) = 8" "outs (val v) = [uint v]" "read_value w (val v) = v"
  by (simp_all add: val_def read_value_def out_def)

text \<open>
  A run checkpointed at its first label ends with status 0 exactly when the three reads
  bring what was written (1 by the handler, 31337 and 1 by the program) and the nonblocking
  read of the empty eventfd fails with EAGAIN; otherwise it ends with status 1.
\<close>

theorem rw_verdict:
  fixes a :: u64
  assumes "script s = [ok 0, \<lparr>rv = 8, er = 0, rdat = [], outs = [uint a, 1]\<rparr>, ok 8, val b, ok 0, r, ok 8, val c, ok 0] @ rest"
    and "logfp s = Some lf" and "ckpt_op_num s = 0" and "ckpt_label s = None"
  shows "\<exists>t. rw_test s =
    Exited (if a = 1 \<and> b = 31337 \<and> rv r = -1 \<and> er r = EAGAIN \<and> c = 1 then 0 else 1) t"
proof -
  have v: "read_value 0 \<lparr>rv = 8, er = 0, rdat = [], outs = [uint a, 1]\<rparr> = a"
    by (simp add: read_value_def out_def)
  have o: "out 1 \<lparr>rv = 8, er = 0, rdat = [], outs = [uint a, 1]\<rparr> = 1"
    by (simp add: out_def)
  show ?thesis
    using assms
    by (simp add: rw_test_def Let_def run_at_label labels_def ckpt_here_def prog_simps expect_def v o
        close_log_def handler_def out_of_def)
qed

theorem rw_verdict_witness:
  "\<exists>t. rw_test (start [ok 0, \<lparr>rv = 8, er = 0, rdat = [], outs = [1, 1]\<rparr>, ok 8, val 31337, ok 0, failed EAGAIN, ok 8, val 1, ok 0]
      (Some 6) \<lparr>freezer = ''1'', evfd = 4\<rparr> \<lparr>ckpt_op_num := 0\<rparr>) = Exited 0 t"
  using rw_verdict [where a = 1 and b = 31337 and r = "failed EAGAIN" and c = 1 and rest = "[]" and lf = 6 and
      s = "start [ok 0, \<lparr>rv = 8, er = 0, rdat = [], outs = [1, 1]\<rparr>, ok 8, val 31337, ok 0, failed EAGAIN, ok 8, val 1, ok 0]
      (Some 6) \<lparr>freezer = ''1'', evfd = 4\<rparr> \<lparr>ckpt_op_num := 0\<rparr>"]
  by simp

end
