(* ===== verification/Ptree1.thy ===== *)
theory Ptree1
  imports Libcrtest_Files Getopt
begin

text \<open>
  process-tree/ptree1.c: a tree of processes, each of which copies a file of its own over and
  over (or sleeps) until the test is done. A process is the program with the answers its
  \<open>fork\<close> calls give to it: 0 in the child, the child's pid in the parent, so the script of a
  process deep in the tree holds the answers its ancestors got before they forked it.
\<close>

section \<open>Constants and globals\<close>

definition WORK_FILEIO :: int where "WORK_FILEIO = 0"
definition WORK_SLEEP :: int where "WORK_SLEEP = 1"

definition LOG_PREFIX :: string where "LOG_PREFIX = ''logs.d/ptree1''"
definition DATA_PREFIX :: string where "DATA_PREFIX = ''data.d/ptree1''"

record ptree_globals =
  max_depth :: int
  num_children :: int
  src :: string
  work :: int

definition init_globals :: ptree_globals where
  "init_globals = \<lparr>max_depth = 2, num_children = 2, src = ''input.data'', work = WORK_FILEIO\<rparr>"

type_synonym 'a tprog = "(ptree_globals, 'a) prog"

text \<open>\<open>sprintf\<close> into a buffer of \<open>n\<close> bytes: a longer result is undefined behaviour.\<close>

definition sprintf_buf :: "nat \<Rightarrow> string \<Rightarrow> (string \<Rightarrow> ('g, 'a) prog) \<Rightarrow> ('g, 'a) prog" where
  "sprintf_buf n str k = (if length str < n then k str else crash)"

definition data_file :: "string \<Rightarrow> string" where
  "data_file id_str = DATA_PREFIX @ ''-'' @ id_str @ ''.data''"

definition log_name :: "string \<Rightarrow> string" where
  "log_name id_str = LOG_PREFIX @ ''-'' @ id_str @ ''.log''"

definition child_id :: "string \<Rightarrow> nat \<Rightarrow> string" where
  "child_id parent_id i = parent_id @ ''-'' @ dec (int i)"

section \<open>Operations\<close>

definition do_work_body :: "string \<Rightarrow> string \<Rightarrow> int \<Rightarrow> (int + unit) tprog" where
  "do_work_body id_str dest i =
     bind test_done (\<lambda>d.
     if d \<noteq> 0 then return (Inr ())
     else andthen (fprintf 42 [S id_str, I i]) (
     with_glob work (\<lambda>w. with_glob src (\<lambda>from.
     andthen
       (if w = WORK_FILEIO then copy_data from dest
        else if w = WORK_SLEEP then emit (Proc (Sleep 1))
        else andthen (fprintf 52 [I w]) (do_exit 1))
       (return (Inl (i + 1)))))))"

definition do_work :: "string \<Rightarrow> 'a tprog" where
  "do_work id_str =
     sprintf_buf 1024 (data_file id_str) (\<lambda>dest.
     andthen (loop (do_work_body id_str dest) 0) (do_exit 0))"

text \<open>
  \<open>create_children\<close> and \<open>do_child\<close> call each other; the former takes the latter, for the depth
  it is called with, as an argument.
\<close>

text \<open>One turn of the loop in \<open>create_children\<close>.\<close>

definition fork_one :: "(string \<Rightarrow> unit tprog) \<Rightarrow> int \<Rightarrow> string \<Rightarrow> nat \<Rightarrow> unit tprog" where
  "fork_one child depth parent_id i =
     sprintf_buf (length parent_id + 16) (child_id parent_id i) (\<lambda>cid.
     bind (sysv (Proc Fork)) (\<lambda>pid.
     if pid = 0 then child cid
     else if pid < 0 then bind (gets errno) (\<lambda>e. andthen (fprintf 83 [I depth, I (int i), I e]) (do_exit 1))
     else return ()))"

definition create_children :: "(string \<Rightarrow> unit tprog) \<Rightarrow> int \<Rightarrow> string \<Rightarrow> unit tprog" where
  "create_children child depth parent_id =
     bind (sysv (Proc (Malloc (int (length parent_id) + 16)))) (\<lambda>p.
     if p = 0 then bind (gets errno) (\<lambda>e. andthen (fprintf 71 [I depth, S parent_id, I e]) (do_exit 1))
     else with_glob num_children (\<lambda>n.
       foreach (fork_one child depth parent_id) [0..<nat n]))"

definition do_child_body :: "string \<Rightarrow> string \<Rightarrow> string \<times> int \<Rightarrow> (string \<times> int + unit) tprog" where
  "do_child_body id_str cfile st =
     (case st of (mode, i) \<Rightarrow>
      bind test_done (\<lambda>d.
      if d \<noteq> 0 then return (Inr ())
      else bind (sysv (Stdio (Fopen cfile mode))) (\<lambda>cfp.
      if cfp < 0 then bind (gets errno) (\<lambda>e. andthen (fprintf 116 [S cfile, I e]) (do_exit 1))
      else andthen (block
        [emit (Stdio (FprintfTo cfp 120 [I i])), emit (Stdio (Fflush cfp)),
         do_work id_str,
         emit (Stdio (Fflush cfp)), emit (Stdio (Fclose cfp))]) (return (Inl (''a'', i + 1))))))"

text \<open>What a child does once it has its own children.\<close>

definition child_rest :: "string \<Rightarrow> unit tprog" where
  "child_rest id_str =
     sprintf_buf 256 (log_name id_str) (\<lambda>cfile.
     andthen (loop (do_child_body id_str cfile) (''w'', 0)) (
     with_glob num_children (\<lambda>n.
     bind (do_wait n) (\<lambda>_. do_exit 0))))"

text \<open>
  \<open>do_child\<close> with as many levels of the tree below it as its first argument says, and then with
  the levels that \<open>max_depth\<close> leaves at a depth.
\<close>

primrec do_child_levels :: "nat \<Rightarrow> int \<Rightarrow> string \<Rightarrow> unit tprog" where
  "do_child_levels 0 depth id_str =
     andthen (block [with_glob max_depth (\<lambda>md. fprintf 102 [I depth, I md]), flush_log]) (child_rest id_str)"
| "do_child_levels (Suc k) depth id_str =
     andthen (block [with_glob max_depth (\<lambda>md. fprintf 102 [I depth, I md]), flush_log]) (
     andthen (create_children (do_child_levels k (depth + 1)) (depth + 1) id_str) (child_rest id_str))"

definition do_child :: "int \<Rightarrow> string \<Rightarrow> unit tprog" where
  "do_child depth id_str = with_glob max_depth (\<lambda>md. do_child_levels (nat (md - depth)) depth id_str)"

definition usage :: "string list \<Rightarrow> unit tprog" where
  "usage argv =
     andthen (block
       [emit (Stdio (Printf 137 [S (hd argv)])), emit (Stdio (Printf 139 [])), emit (Stdio (Printf 140 []))])
       (do_exit 1)"

definition parse_opt :: "string list \<Rightarrow> char \<times> string option \<Rightarrow> unit tprog" where
  "parse_opt argv co =
     (case co of (c, optarg) \<Rightarrow>
      if c = CHR ''d'' then set_glob (\<lambda>g. g\<lparr>max_depth := atoi (the optarg)\<rparr>)
      else if c = CHR ''n'' then set_glob (\<lambda>g. g\<lparr>num_children := atoi (the optarg)\<rparr>)
      else if c = CHR ''w'' then
        (if take 1 (the optarg) = ''s'' then set_glob (\<lambda>g. g\<lparr>work := WORK_SLEEP\<rparr>) else return ())
      else usage argv)"

definition main :: "string list \<Rightarrow> int tprog" where
  "main argv =
     andthen (foreach (\<lambda>i. emit (Unistd (Close (int i)))) [0..<100]) (
     sprintf_buf 256 (log_name ''0'') (\<lambda>log_file.
     bind (sysv (Stdio (Fopen log_file ''w''))) (\<lambda>fp.
     if fp < 0 then
       bind (gets errno) (\<lambda>e.
       andthen (block [emit (Stdio (FprintfTo 2 157 [S log_file, I e])), emit (Stdio (Fflush 2))]) (do_exit 1))
     else
       andthen (modify (\<lambda>s. s\<lparr>logfp := Some fp\<rparr>)) (
       bind test_done (\<lambda>d.
       if d \<noteq> 0 then andthen (emit (Stdio (Printf 164 [S TEST_DONE]))) (do_exit 1)
       else
         andthen (block
           [set_glob (\<lambda>g. g\<lparr>work := WORK_FILEIO\<rparr>),
            foreach (parse_opt argv) (fst (getopt ''hd:n:w:'' (tl argv))),
            create_children (do_child 1) 1 ''0'',
            set_checkpoint_ready]) (
         with_glob num_children (\<lambda>n.
         bind (do_wait n) (\<lambda>_. return 0))))))))"

section \<open>The recursion of the source\<close>

text \<open>A program that never returns to its caller: it ends the process, waits or crashes.\<close>

definition endless :: "('g, 'a) prog \<Rightarrow> bool" where
  "endless p \<longleftrightarrow> (\<forall>s a t. p s \<noteq> Done a t)"

lemma endless_do_exit: "endless (do_exit c)"
  by (simp add: endless_def do_exit_def prog_simps split: option.split)

lemma endless_bind: "(\<And>a. endless (f a)) \<Longrightarrow> endless (bind p f)"
  by (simp add: endless_def bind_def split: outcome.split)

lemma endless_andthen: "endless q \<Longrightarrow> endless (andthen p q)"
  unfolding andthen_def by (rule endless_bind)

lemma endless_with_glob: "(\<And>x. endless (p x)) \<Longrightarrow> endless (with_glob sel p)"
  unfolding with_glob_def by (rule endless_bind)

lemma endless_sprintf: "endless (k str) \<Longrightarrow> endless (sprintf_buf n str k)"
  by (simp add: sprintf_buf_def endless_def crash_def)

lemmas endless_intros = endless_do_exit endless_bind endless_andthen endless_with_glob endless_sprintf

lemma endless_child_rest: "endless (child_rest id_str)"
  unfolding child_rest_def by (intro endless_intros)

lemma endless_do_child_levels: "endless (do_child_levels k depth id_str)"
  by (cases k) (simp_all add: endless_andthen endless_child_rest)

lemma endless_do_child: "endless (do_child depth id_str)"
  unfolding do_child_def by (intro endless_intros endless_do_child_levels)

lemma fork_one_Done:
  "fork_one child depth parent_id i s = Done () t \<Longrightarrow> \<forall>cid. endless (child cid) \<Longrightarrow> glob t = glob s"
  by (auto simp: fork_one_def sprintf_buf_def prog_simps do_exit_def endless_def
      split: if_splits list.splits option.splits)

lemma fork_one_cong:
  "(\<And>cid t. glob t = glob s \<Longrightarrow> child cid t = child' cid t) \<Longrightarrow>
   fork_one child depth parent_id i s = fork_one child' depth parent_id i s"
  by (simp add: fork_one_def sprintf_buf_def prog_simps split: list.split)

lemma foreach_fork_cong:
  assumes "\<And>cid t. glob t = glob s \<Longrightarrow> child cid t = child' cid t" and "\<forall>cid. endless (child cid)"
  shows "foreach (fork_one child depth parent_id) xs s = foreach (fork_one child' depth parent_id) xs s"
  using assms(1)
proof (induction xs arbitrary: s)
  case (Cons x xs)
  have one: "fork_one child depth parent_id x s = fork_one child' depth parent_id x s"
    by (rule fork_one_cong) (rule Cons.prems)
  have "foreach (fork_one child depth parent_id) xs t = foreach (fork_one child' depth parent_id) xs t"
    if "fork_one child depth parent_id x s = Done () t" for t
    using fork_one_Done [OF that assms(2)] Cons.prems by (intro Cons.IH) simp
  with one show ?case by (auto simp: andthen_def bind_def split: outcome.split)
qed simp

lemma create_children_cong:
  assumes "\<And>cid t. glob t = glob s \<Longrightarrow> child cid t = child' cid t" and "\<forall>cid. endless (child cid)"
  shows "create_children child depth parent_id s = create_children child' depth parent_id s"
  using foreach_fork_cong [OF _ assms(2), of _ child'] assms(1)
  by (simp add: create_children_def prog_simps split: list.split)

lemma do_child_unfold:
  "do_child depth id_str s =
     andthen (block [with_glob max_depth (\<lambda>md. fprintf 102 [I depth, I md]), flush_log]) (
     andthen (with_glob max_depth (\<lambda>md.
         if depth < md then create_children (do_child (depth + 1)) (depth + 1) id_str else return ()))
       (child_rest id_str)) s"
proof (cases "depth < max_depth (glob s)")
  case True
  define k where "k = nat (max_depth (glob s) - (depth + 1))"
  then have k': "nat (max_depth (glob s) - (depth + 1)) = k" and k: "nat (max_depth (glob s) - depth) = Suc k"
    using True by simp_all
  have "create_children (do_child_levels k (depth + 1)) (depth + 1) id_str t =
      create_children (do_child (depth + 1)) (depth + 1) id_str t" if "glob t = glob s" for t
    by (rule create_children_cong) (simp_all add: do_child_def prog_simps k' that endless_do_child_levels)
  then have "bind (create_children (do_child_levels k (depth + 1)) (depth + 1) id_str) f t =
      bind (create_children (do_child (depth + 1)) (depth + 1) id_str) f t" if "glob t = glob s" for t and f :: "unit \<Rightarrow> unit tprog"
    using that by (simp add: bind_def)
  with True show ?thesis by (simp add: do_child_def k prog_simps)
next
  case False
  then show ?thesis by (simp add: do_child_def prog_simps)
qed

section \<open>The tree\<close>

text \<open>The name of the process at the end of a path from the process named first.\<close>

fun id_of :: "string \<Rightarrow> nat list \<Rightarrow> string" where
  "id_of p [] = p"
| "id_of p (i # is) = id_of (child_id p i) is"

text \<open>
  The answers to the process at the end of a path, from the root on: on each level its ancestor
  got memory, the pids of the children before it, and then the 0 that makes it the child.
\<close>

definition forked :: "int list list \<Rightarrow> resp list" where
  "forked ps = concat (map (\<lambda>qs. ok 1 # map ok qs @ [ok 0]) ps)"

lemma child_id_fits: "int i < 2147483648 \<Longrightarrow> length (child_id p i) < length p + 16"
  using length_dec_nat [of 10 i] by (simp add: child_id_def dec_def)

lemma run_fork_one:
  assumes "script s = ok q # rs" and "int i < 2147483648" and "0 \<le> q"
  shows "fork_one child depth parent_id i s =
    (if q = 0 then child (child_id parent_id i) else return ()) (adv s [Got (Proc Fork) (ok q)] rs 0)"
  using assms child_id_fits [of i parent_id] by (simp add: fork_one_def sprintf_buf_def prog_simps)

lemma endless_outcome: "endless q \<Longrightarrow> p s = q t \<Longrightarrow> bind p f s = q t"
  for p q :: "('g, unit) prog" and f :: "unit \<Rightarrow> ('g, unit) prog"
  by (cases "q t") (simp_all add: bind_def endless_def)

lemma fork_child:
  assumes "script s = map ok qs @ ok 0 # rest" and "\<forall>q \<in> set qs. 0 < q"
    and "j + length qs < n" and "int n < 2147483648" and "\<forall>cid. endless (child cid)"
  shows "\<exists>t. foreach (fork_one child depth parent_id) [j..<n] s = child (child_id parent_id (j + length qs)) t \<and>
    script t = rest \<and> glob t = glob s \<and> logfp t = logfp s"
  using assms(1-3)
proof (induction qs arbitrary: s j)
  case Nil
  let ?t = "adv s [Got (Proc Fork) (ok 0)] rest 0"
  have "fork_one child depth parent_id j s = child (child_id parent_id j) ?t"
    using Nil assms(4) run_fork_one [of s 0 rest j child depth parent_id] by simp
  then have "bind (fork_one child depth parent_id j) f s = child (child_id parent_id j) ?t" for f :: "unit \<Rightarrow> unit tprog"
    using assms(5) by (intro endless_outcome) simp_all
  with Nil show ?case by (intro exI [of _ ?t]) (simp add: upt_conv_Cons andthen_def)
next
  case (Cons q qs)
  let ?t = "adv s [Got (Proc Fork) (ok q)] (map ok qs @ ok 0 # rest) 0"
  have "fork_one child depth parent_id j s = Done () ?t"
    using Cons.prems assms(4) run_fork_one [of s q _ j child depth parent_id] by (simp add: return_def)
  then have "foreach (fork_one child depth parent_id) [j..<n] s =
      foreach (fork_one child depth parent_id) [Suc j..<n] ?t"
    using Cons.prems(3) by (simp add: upt_conv_Cons andthen_def bind_def)
  with Cons.IH [of ?t "Suc j"] Cons.prems show ?case by simp
qed

lemma create_children_child:
  assumes "script s = ok 1 # map ok qs @ ok 0 # rest" and "\<forall>q \<in> set qs. 0 < q"
    and "int (length qs) < num_children (glob s)" and "num_children (glob s) < 2147483648"
    and "\<forall>cid. endless (child cid)"
  shows "\<exists>t. create_children child depth parent_id s = child (child_id parent_id (length qs)) t \<and>
    script t = rest \<and> glob t = glob s \<and> logfp t = logfp s"
proof -
  let ?n = "nat (num_children (glob s))"
  let ?u = "adv s [Got (Proc (Malloc (int (length parent_id) + 16))) (ok 1)] (map ok qs @ ok 0 # rest) 0"
  have "create_children child depth parent_id s = foreach (fork_one child depth parent_id) [0..<?n] ?u"
    using assms(1) by (simp add: create_children_def prog_simps)
  then show ?thesis
    using fork_child [of ?u qs rest 0 ?n child depth parent_id] assms by simp
qed

lemma process_path:
  assumes "script s = forked ps @ rest" and "ps \<noteq> []" and "logfp s = Some lf"
    and "\<forall>qs \<in> set ps. (\<forall>q \<in> set qs. 0 < q) \<and> int (length qs) < num_children (glob s)"
    and "num_children (glob s) < 2147483648"
    and "length ps = 1 \<or> d + int (length ps) - 1 \<le> max_depth (glob s)"
  shows "\<exists>t. create_children (do_child d) d p s = do_child (d + int (length ps) - 1) (id_of p (map length ps)) t \<and>
    script t = rest \<and> glob t = glob s"
  using assms
proof (induction ps arbitrary: s d p)
  case (Cons qs ps)
  have "script s = ok 1 # map ok qs @ ok 0 # forked ps @ rest"
    using Cons.prems(1) by (simp add: forked_def)
  from create_children_child [OF this, of "do_child d" d p] Cons.prems(4,5)
  obtain t where t: "create_children (do_child d) d p s = do_child d (child_id p (length qs)) t"
    and st: "script t = forked ps @ rest" "glob t = glob s" "logfp t = logfp s"
    by (auto simp: endless_do_child)
  show ?case
  proof (cases "ps = []")
    case True
    with t st show ?thesis by (auto simp: forked_def)
  next
    case False
    with Cons.prems(6) have d: "d < max_depth (glob s)" by (cases ps) auto
    let ?t' = "adv t [Did (Stdio (Fprintf 102 [I d, I (max_depth (glob s))])), Did (Stdio (Fflush lf))] (script t) (errno t)"
    let ?id = "child_id p (length qs)"
    have u: "do_child d ?id t =
        bind (create_children (do_child (d + 1)) (d + 1) ?id) (\<lambda>_. child_rest ?id) ?t'"
      using d st Cons.prems(3) by (simp add: do_child_unfold [of d] prog_simps)
    from Cons.IH [of ?t' "d + 1" ?id] Cons.prems st False obtain v where
      v: "create_children (do_child (d + 1)) (d + 1) ?id ?t' =
          do_child (d + int (length (qs # ps)) - 1) (id_of p (map length (qs # ps))) v"
      and sv: "script v = rest" "glob v = glob s"
      by (auto simp: algebra_simps)
    have "do_child d ?id t = do_child (d + int (length (qs # ps)) - 1) (id_of p (map length (qs # ps))) v"
      unfolding u by (rule endless_outcome) (rule endless_do_child, rule v)
    with t sv show ?thesis by (metis (no_types))
  qed
qed simp

text \<open>
  \<^bold>\<open>C24.\<close> The process tree. For every path of child numbers below \<open>num_children\<close> that is no longer
  than \<open>max_depth\<close> (or of length 1), the process that the forks along the path create runs
  \<open>do_child\<close> at the depth that is the length of the path, under the name the path spells.
\<close>

theorem process_tree:
  assumes "script s = forked ps @ rest" and "ps \<noteq> []" and "logfp s = Some lf"
    and "\<forall>qs \<in> set ps. (\<forall>q \<in> set qs. 0 < q) \<and> int (length qs) < num_children (glob s)"
    and "num_children (glob s) < 2147483648"
    and "length ps = 1 \<or> int (length ps) \<le> max_depth (glob s)"
  shows "\<exists>t. create_children (do_child 1) 1 ''0'' s = do_child (int (length ps)) (id_of ''0'' (map length ps)) t \<and>
    script t = rest \<and> glob t = glob s"
  using process_path [OF assms(1-5), of 1 "''0''"] assms(6) by simp

theorem process_tree_witness:
  "\<exists>t. create_children (do_child 1) 1 ''0'' (start [ok 1, ok 40, ok 0, ok 1, ok 0] (Some 3) init_globals) =
    do_child 2 ''0-1-0'' t"
proof -
  have "id_of ''0'' [1, 0] = ''0-1-0''" by code_simp
  with process_tree [where ps = "[[40], []]" and rest = "[]" and lf = 3
      and s = "start [ok 1, ok 40, ok 0, ok 1, ok 0] (Some 3) init_globals"]
  show ?thesis by (auto simp: forked_def init_globals_def)
qed

section \<open>How many children a process has\<close>

fun is_fork :: "event \<Rightarrow> bool" where
  "is_fork (Got c r) \<longleftrightarrow> c = Proc Fork"
| "is_fork (Did c) \<longleftrightarrow> c = Proc Fork"
| "is_fork (Pending c) \<longleftrightarrow> c = Proc Fork"

definition forks :: "event list \<Rightarrow> nat" where
  "forks es = length (filter is_fork es)"

lemma forks_simps [simp]:
  "forks [] = 0" "forks (e # es) = (if is_fork e then 1 else 0) + forks es" "forks (es @ fs) = forks es + forks fs"
  by (simp_all add: forks_def)

lemma fork_parent:
  assumes "script s = map ok qs @ rest" and "\<forall>q \<in> set qs. 0 < q"
    and "j + length qs = n" and "int n < 2147483648"
  shows "\<exists>e. foreach (fork_one child depth parent_id) [j..<n] s =
    Done () (adv s (map (\<lambda>q. Got (Proc Fork) (ok q)) qs) rest e)"
  using assms(1-3)
proof (induction qs arbitrary: s j)
  case Nil
  then show ?case by (auto simp: return_def intro!: exI [of _ "errno s"])
next
  case (Cons q qs)
  let ?t = "adv s [Got (Proc Fork) (ok q)] (map ok qs @ rest) 0"
  have "fork_one child depth parent_id j s = Done () ?t"
    using Cons.prems assms(4) run_fork_one [of s q _ j child depth parent_id] by (simp add: return_def)
  then have "foreach (fork_one child depth parent_id) [j..<n] s =
      foreach (fork_one child depth parent_id) [Suc j..<n] ?t"
    using Cons.prems(3) by (simp add: upt_conv_Cons andthen_def bind_def)
  with Cons.IH [of ?t "Suc j"] Cons.prems show ?case by simp
qed


lemma no_fork_do_exit: "only (\<lambda>e. \<not> is_fork e) (do_exit c)"
  unfolding do_exit_def by (auto intro!: only_intros split: option.split)

lemma no_fork_test_done: "only (\<lambda>e. \<not> is_fork e) test_done"
  unfolding test_done_def by (auto intro!: only_intros no_fork_do_exit)

lemma no_fork_do_sync: "only (\<lambda>e. \<not> is_fork e) (do_sync fp)"
  unfolding do_sync_def by (auto intro!: only_intros)

lemma no_fork_data_compare: "only (\<lambda>e. \<not> is_fork e) (data_compare f g)"
  unfolding data_compare_def
  by (auto simp: data_compare_body_def Let_def intro!: only_intros dc.only_loop)

lemma no_fork_copy_data: "only (\<lambda>e. \<not> is_fork e) (copy_data f g)"
  unfolding copy_data_def
  by (auto simp: copy_body_def copy_check_def
      intro!: only_intros cp.only_loop no_fork_do_exit no_fork_do_sync no_fork_data_compare)

lemma no_fork_do_wait: "only (\<lambda>e. \<not> is_fork e) (do_wait n)"
  unfolding do_wait_def
  by (auto simp: do_wait_body_def print_exit_status_def Let_def intro!: only_intros dw.only_loop split: prod.split)


lemma shrinking_endless: "endless p \<Longrightarrow> shrinking p"
  by (simp add: endless_def shrinking_def)

lemma shrinking_copy_data [shrink_intros]: "shrinking (copy_data f g)"
  unfolding copy_data_def copy_check_def data_compare_def
  by (auto simp: copy_body_def data_compare_body_def Let_def
      intro!: shrink_intros cp.shrinking_loop dc.shrinking_loop)

interpretation wk: script_loop "do_work_body id_str dest" for id_str dest
  by (rule script_loopI)
    (auto simp: do_work_body_def intro!: consuming_bind consuming_test_done shrink_intros)

lemma endless_do_work: "endless (do_work id_str)"
  unfolding do_work_def by (intro endless_intros)

interpretation ch: script_loop "do_child_body id_str cfile" for id_str cfile
  by (rule script_loopI)
    (auto simp: do_child_body_def intro!: consuming_bind consuming_test_done shrink_intros
      shrinking_endless [OF endless_do_work] split: prod.split)

lemma no_fork_do_work: "only (\<lambda>e. \<not> is_fork e) (do_work id_str)"
  unfolding do_work_def sprintf_buf_def
  by (auto simp: do_work_body_def
      intro!: only_intros wk.only_loop no_fork_test_done no_fork_copy_data no_fork_do_exit)

lemma no_fork_child_rest: "only (\<lambda>e. \<not> is_fork e) (child_rest id_str)"
  unfolding child_rest_def sprintf_buf_def
  by (auto simp: do_child_body_def
      intro!: only_intros ch.only_loop no_fork_test_done no_fork_do_work no_fork_do_exit no_fork_do_wait
      split: prod.split)

lemma forks_child_rest:
  assumes "trace v = trace s @ es"
  shows "forks (since s (final (child_rest id_str v))) = forks es"
proof -
  have "grows v (final (child_rest id_str v))"
    by (rule appendingD [OF only_appending [OF no_fork_child_rest]])
  moreover have "grows s v" using assms by (simp add: grows_def)
  ultimately have "since s (final (child_rest id_str v)) = es @ since v (final (child_rest id_str v))"
    using since_trans [of s v] assms by simp
  moreover have "forks (since v (final (child_rest id_str v))) = 0"
    using onlyD [OF no_fork_child_rest, of _ v id_str] by (auto simp: forks_def filter_empty_conv)
  ultimately show ?thesis by simp
qed

text \<open>
  A process of the tree whose forks succeed has exactly \<open>num_children\<close> children if it is
  above \<open>max_depth\<close>, and none otherwise, whatever else happens to it.
\<close>

theorem process_forks:
  assumes "logfp s = Some lf" and "num_children (glob s) < 2147483648" and "0 \<le> num_children (glob s)"
    and "depth < max_depth (glob s) \<longrightarrow>
      script s = ok 1 # map ok qs @ rest \<and> int (length qs) = num_children (glob s) \<and> (\<forall>q \<in> set qs. 0 < q)"
  shows "int (forks (since s (final (do_child depth id_str s)))) =
    (if depth < max_depth (glob s) then num_children (glob s) else 0)"
proof -
  let ?h = "[Did (Stdio (Fprintf 102 [I depth, I (max_depth (glob s))])), Did (Stdio (Fflush lf))]"
  define u where "u = adv s ?h (script s) (errno s)"
  show ?thesis
  proof (cases "depth < max_depth (glob s)")
    case True
    let ?v = "adv u [Got (Proc (Malloc (int (length id_str) + 16))) (ok 1)] (map ok qs @ rest) 0"
    let ?fs = "map (\<lambda>q. Got (Proc Fork) (ok q)) qs"
    have "length qs = nat (num_children (glob s))" using True assms(4) by auto
    with True assms fork_parent [of ?v qs rest 0 "nat (num_children (glob s))" "do_child (depth + 1)" "depth + 1" id_str]
    obtain e where "foreach (fork_one (do_child (depth + 1)) (depth + 1) id_str) [0..<nat (num_children (glob s))] ?v =
        Done () (adv ?v ?fs rest e)"
      by auto
    with True assms have "do_child depth id_str s = child_rest id_str (adv ?v ?fs rest e)"
      by (simp add: do_child_unfold [of depth] create_children_def prog_simps u_def bind_def [of "foreach _ _"])
    moreover have "forks ?fs = length qs" by (simp add: forks_def)
    ultimately show ?thesis
      using True assms(4) forks_child_rest [of "adv ?v ?fs rest e" s] by (simp add: u_def)
  next
    case False
    then have "do_child depth id_str s = child_rest id_str u"
      using assms(1) by (simp add: do_child_unfold [of depth] prog_simps u_def)
    with False show ?thesis using forks_child_rest [of u s] by (simp add: u_def)
  qed
qed

theorem process_forks_witness:
  "int (forks (since (start [ok 1, ok 40, ok 41] (Some 3) init_globals)
      (final (do_child 1 ''0-0'' (start [ok 1, ok 40, ok 41] (Some 3) init_globals))))) = 2"
  using process_forks [of "start [ok 1, ok 40, ok 41] (Some 3) init_globals" 3 1 "[40, 41]" "[]" "''0-0''"]
  by (simp add: init_globals_def)

section \<open>Every process has its own files\<close>

lemma id_of_concat: "id_of p is = p @ concat (map (\<lambda>i. CHR ''-'' # dec_nat i) is)"
  by (induction p "is" rule: id_of.induct) (simp_all add: child_id_def dec_def)

lemma concat_dashed_inj:
  "concat (map (\<lambda>i. CHR ''-'' # dec_nat i) is) = concat (map (\<lambda>i. CHR ''-'' # dec_nat i) js) \<Longrightarrow> is = js"
proof (induction "is" arbitrary: js)
  case Nil
  then show ?case by (cases js) auto
next
  case (Cons i "is")
  let ?f = "\<lambda>xs. concat (map (\<lambda>i. CHR ''-'' # dec_nat i) xs)"
  have digits: "takeWhile isdigit (dec_nat k @ ?f ks) = dec_nat k" for k ks
    using dec_nat_isdigit by (cases ks) (auto simp: takeWhile_append2 isdigit_def)
  from Cons.prems obtain j js' where js: "js = j # js'" by (cases js) auto
  with Cons.prems have eq: "dec_nat i @ ?f is = dec_nat j @ ?f js'" by simp
  then have "takeWhile isdigit (dec_nat i @ ?f is) = takeWhile isdigit (dec_nat j @ ?f js')" by (rule arg_cong)
  then have ij: "dec_nat i = dec_nat j" unfolding digits .
  have "digits_val (dec_nat i) = digits_val (dec_nat j)" using ij by (rule arg_cong)
  then have "i = j" by (simp only: digits_val_dec_nat of_nat_eq_iff)
  moreover from eq ij have "is = js'" by (intro Cons.IH) simp
  ultimately show ?case using js by simp
qed

text \<open>
  Two processes of the tree (the empty path is the main one) use the same data file, or the
  same log file, only if they are the same process: the names are unique whatever the depth and
  the number of children.
\<close>

theorem private_files:
  "(data_file (id_of ''0'' is) = data_file (id_of ''0'' js) \<longleftrightarrow> is = js) \<and>
   (log_name (id_of ''0'' is) = log_name (id_of ''0'' js) \<longleftrightarrow> is = js) \<and>
   data_file (id_of ''0'' is) \<noteq> log_name (id_of ''0'' js)"
  using concat_dashed_inj [of "is" js]
  by (auto simp: data_file_def log_name_def id_of_concat DATA_PREFIX_def LOG_PREFIX_def)

end
