(* ===== verification/Threads.thy ===== *)
theory Threads
  imports Libcrtest_Files Getopt
begin

text \<open>
  What process-tree/pthread2.c, pthread3.c and pthread4.c have in common, with the lines of
  their messages as a parameter (the first line of the function). A thread is a program of its
  own, which takes its answers from its own script; its result is what it passes to
  \<open>pthread_exit\<close>. The functions of the pthread library answer 0, or a positive error number.
\<close>

definition PTHREAD_BARRIER_SERIAL_THREAD :: int where "PTHREAD_BARRIER_SERIAL_THREAD = -1"

text \<open>\<open>ERROR_EXIT\<close>, or the address of the thread's element of \<open>tstatus\<close>, which holds the given value.\<close>

datatype thread_exit = ERROR_EXIT | Status int

abbreviation thr :: "thread_call \<Rightarrow> ('g, resp) prog" where
  "thr c \<equiv> sys (Thread c)"

text \<open>Waiting at a barrier, and the check of the result that the threads make.\<close>

definition barrier_wait :: "nat \<Rightarrow> string \<Rightarrow> int \<Rightarrow> ('g, unit) prog" where
  "barrier_wait line barrier tnum =
     bind (thr (BarrierWait barrier)) (\<lambda>r.
     if rv r \<noteq> PTHREAD_BARRIER_SERIAL_THREAD \<and> rv r \<noteq> 0
     then andthen (fprintf line [I tnum, I (rv r), I (er r)]) (do_exit 1)
     else return ())"

text \<open>
  The main thread waits at a barrier and then tests \<open>rc\<close>, which still holds the result of an
  earlier call.
\<close>

definition main_barrier_wait :: "nat \<Rightarrow> string \<Rightarrow> int \<Rightarrow> ('g, unit) prog" where
  "main_barrier_wait line barrier rc =
     bind (thr (BarrierWait barrier)) (\<lambda>_.
     if rc \<noteq> PTHREAD_BARRIER_SERIAL_THREAD \<and> rc \<noteq> 0
     then bind (gets errno) (\<lambda>e. andthen (fprintf line [I rc, I e]) (do_exit 1))
     else return ())"

definition alloc_thread_attr :: "nat \<Rightarrow> ('g, int) prog" where
  "alloc_thread_attr fl =
     bind (sysv (Proc (Malloc 56))) (\<lambda>attr.
     if attr = 0 then bind (gets errno) (\<lambda>e. andthen (fprintf (fl + 7) [I e]) (do_exit 1))
     else bind (thr (AttrInit attr)) (\<lambda>r.
     if rv r < 0 then andthen (fprintf (fl + 13) [I (rv r), I (er r)]) (do_exit 1)
     else return attr))"

text \<open>
  Creating the threads: for each number the attribute object the program prepares for it (0 for
  none) and then the thread itself. The lines are those of the three messages.
\<close>

fun create_each :: "nat \<Rightarrow> (nat \<Rightarrow> ('g, int) prog) \<Rightarrow> nat list \<Rightarrow> ('g, int list) prog" where
  "create_each line prepare [] = return []"
| "create_each line prepare (i # is) =
     bind (prepare i) (\<lambda>attr.
     bind (thr (PthreadCreate attr (int i))) (\<lambda>r.
     if rv r < 0 then andthen (fprintf line [I (int i), I (rv r), I (er r)]) (do_exit 1)
     else bind (create_each line prepare is) (\<lambda>ts. return (out 0 r # ts))))"

definition create_threads :: "nat \<times> nat \<times> nat \<Rightarrow> (nat \<Rightarrow> ('g, int) prog) \<Rightarrow> int \<Rightarrow> ('g, int list) prog" where
  "create_threads ls prepare n =
     (case ls of (line_malloc, line_create, line_done) \<Rightarrow>
      bind (sysv (Proc (Malloc (n * 8)))) (\<lambda>tid_list.
      bind (sysv (Proc (Malloc (4 * n)))) (\<lambda>tstatus.
      if tid_list = 0 \<or> tstatus = 0
      then bind (gets errno) (\<lambda>e. andthen (fprintf line_malloc [I n, I e]) (do_exit 1))
      else bind (create_each line_create prepare [0..<nat n]) (\<lambda>tids.
      andthen (block [fprintf line_done [I n], flush_log]) (return tids)))))"

text \<open>
  Joining the threads in order. An answer to \<open>pthread_join\<close> stores the pointer the thread gave,
  and has the integer found there; \<open>ERROR_EXIT\<close> is the address 1, which cannot be read.
\<close>

fun join_all :: "nat \<Rightarrow> (nat \<times> int) list \<Rightarrow> int \<Rightarrow> ('g, int) prog" where
  "join_all fl [] st = return st"
| "join_all fl ((i, tid) # ts) st =
     bind (thr (PthreadJoin tid)) (\<lambda>r.
     if rv r < 0 then andthen (fprintf (fl + 11) [I (int i), I (rv r), I (er r)]) (do_exit 1)
     else if out 0 r = 1 then crash
     else andthen (block [fprintf (fl + 16) [I (int i), I (out 1 r)], flush_log])
       (join_all fl ts (if out 1 r \<noteq> 0 then 1 else st)))"

definition wait_for_threads :: "nat \<Rightarrow> int list \<Rightarrow> ('g, int) prog" where
  "wait_for_threads fl tid_list = join_all fl (zip [0..<length tid_list] tid_list) 0"

text \<open>The descriptors below 100 but the log's are closed.\<close>

definition close_others :: "('g, unit) prog" where
  "close_others =
     bind (gets logfp) (\<lambda>lf.
     foreach (\<lambda>i. if lf = Some (int i) then return () else emit (Unistd (Close (int i)))) [0..<100])"

text \<open>The options of the three programs: -n, and the usage text for everything else.\<close>

definition usage :: "nat \<Rightarrow> string list \<Rightarrow> ('g, unit) prog" where
  "usage fl argv =
     andthen (block [emit (Stdio (Printf (fl + 2) [S (hd argv)])), emit (Stdio (Printf (fl + 3) []))]) (do_exit 1)"

fun num_threads_opt :: "nat \<Rightarrow> string list \<Rightarrow> options \<Rightarrow> int \<Rightarrow> ('g, int) prog" where
  "num_threads_opt fl argv [] n = return n"
| "num_threads_opt fl argv ((c, optarg) # os) n =
     (if c = CHR ''n'' then num_threads_opt fl argv os (atoi (the optarg))
      else andthen (usage fl argv) (num_threads_opt fl argv os n))"

text \<open>Opening the log and closing what is open.\<close>

definition open_log :: "nat \<Rightarrow> string \<Rightarrow> ('g, unit) prog" where
  "open_log fl log_file =
     bind (sysv (Stdio (Fopen log_file ''w''))) (\<lambda>fp.
     if fp < 0 then
       bind (gets errno) (\<lambda>e.
       andthen (block [emit (Stdio (FprintfTo 2 (fl + 2) [S log_file, I e])), emit (Stdio (Fflush 2))]) (do_exit 1))
     else block
       [modify (\<lambda>s. s\<lparr>logfp := Some fp\<rparr>),
        emit (Stdio (FprintfTo 2 (fl + 8) [S log_file])), emit (Stdio (Fflush 2)),
        close_others])"

section \<open>The status of the main thread\<close>

definition joined :: "int \<Rightarrow> resp" where
  "joined v = \<lparr>rv = 0, er = 0, rdat = [], outs = [4096, v]\<rparr>"

lemma joined_sel [simp]: "rv (joined v) = 0" "er (joined v) = 0" "out 0 (joined v) = 4096" "out 1 (joined v) = v" "out (Suc 0) (joined v) = v"
  by (simp_all add: joined_def out_def)

lemma join_all_status:
  assumes "script s = map joined vs @ rest" and "length ts = length vs" and "logfp s = Some lf"
  shows "\<exists>t. join_all fl ts st s = Done (if \<exists>v \<in> set vs. v \<noteq> 0 then 1 else st) t \<and>
    script t = rest \<and> logfp t = Some lf"
  using assms
proof (induction vs arbitrary: ts st s)
  case Nil
  then show ?case by (simp add: return_def)
next
  case (Cons v vs)
  from Cons.prems(2) obtain i tid ts' where ts: "ts = (i, tid) # ts'" by (cases ts) auto
  let ?u = "adv s [Got (Thread (PthreadJoin tid)) (joined v), Did (Stdio (Fprintf (fl + 16) [I (int i), I v])),
    Did (Stdio (Fflush lf))] (map joined vs @ rest) 0"
  have "join_all fl ts st s = join_all fl ts' (if v \<noteq> 0 then 1 else st) ?u"
    using Cons.prems by (simp add: ts prog_simps)
  with Cons.IH [of ?u ts' "if v \<noteq> 0 then 1 else st"] Cons.prems ts show ?case by auto
qed

end
