(* ===== verification/Interleave.thy ===== *)
theory Interleave
  imports Threads
begin

text \<open>
  Threads that run together. Each thread is a program of the model with the list of answers it
  has got so far; the call it is waiting in is the one its program is blocked in when run on
  those answers, and a step of the system answers one such call. The answers of barriers,
  mutexes and the condition variable come from a shared state, those of every other call from
  outside, without a restriction. Every order of the threads' calls is a path of \<open>reach\<close>.
\<close>

section \<open>The call a program waits in\<close>

definition waits_in :: "('a, 'g proc) outcome \<Rightarrow> call option" where
  "waits_in x = (case x of Blocked t \<Rightarrow> (case rev (trace t) of Pending c # _ \<Rightarrow> Some c | _ \<Rightarrow> None) | _ \<Rightarrow> None)"

lemma waits_in_simps [simp]:
  "waits_in (Done a t) = None" "waits_in (Exited st t) = None" "waits_in (Crashed t) = None"
  "waits_in (Blocked (adv s (es @ [Pending c]) rs e)) = Some c"
  "waits_in (Blocked (adv s [Pending c] rs e)) = Some c"
  by (simp_all add: waits_in_def)

lemma waits_in_Blocked: "waits_in x = Some c \<Longrightarrow> \<exists>t. x = Blocked t \<and> Pending c \<in> set (trace t)"
  unfolding waits_in_def set_rev [of "trace _", symmetric]
  by (auto split: outcome.splits list.splits event.splits)

lemma waits_in_only:
  assumes "only Q p" and "waits_in (p s) = Some c" and "trace s = []"
  shows "Q (Pending c)"
proof -
  obtain t where "p s = Blocked t" "Pending c \<in> set (trace t)" using waits_in_Blocked [OF assms(2)] by blast
  with assms(3) have "Pending c \<in> set (since s (final (p s)))" by (simp add: since_def)
  then show ?thesis by (rule onlyD [OF assms(1)])
qed

section \<open>Programs with an open log\<close>

definition logging :: "'g proc \<Rightarrow> bool" where
  "logging s \<longleftrightarrow> logfp s \<noteq> None"

lemma logging_adv [simp]: "logging (adv s es rs e) \<longleftrightarrow> logging s"
  by (simp add: logging_def)

lemma bind_do_exit: "bind (do_exit c) f = do_exit c"
  by (auto simp: do_exit_def prog_simps fun_eq_iff split: option.split)

lemma run_wait_test_done:
  "bind wait_test_done k s =
     (case script s of [] \<Rightarrow> Blocked (adv s [Pending (Unistd (Access TEST_DONE))] [] (errno s))
      | r # rs \<Rightarrow> let t = adv s [Got_access TEST_DONE r] rs (er r) in
         if rv r = 0 then k () t
         else if er r = ENOENT then bind wait_test_done k (adv t [Did (Proc (Sleep 1))] rs (er r))
         else bind (andthen (fprintf 35 [S TEST_DONE, I (er r)]) (do_exit 1)) k t)"
proof -
  have "bind wait_test_done k s =
      bind (bind test_done (\<lambda>d. if d = 0 then andthen (emit (Proc (Sleep 1))) wait_test_done else return ())) k s"
    by (subst (1 2) bind_def, subst td.poll_unfold) (rule refl)
  then show ?thesis
    by (simp add: test_done_def prog_simps Let_def bind_do_exit split: list.split)
qed

lemma wait_test_done_Cons:
  "script s = r # rs \<Longrightarrow> bind wait_test_done k s =
     (let t = adv s [Got_access TEST_DONE r] rs (er r) in
      if rv r = 0 then k () t
      else if er r = ENOENT then bind wait_test_done k (adv t [Did (Proc (Sleep 1))] rs (er r))
      else bind (andthen (fprintf 35 [S TEST_DONE, I (er r)]) (do_exit 1)) k t)"
  by (simp add: run_wait_test_done)

section \<open>Programs as machines\<close>

text \<open>
  A machine for a program: \<open>K p\<close> is what is left of the program at the control point \<open>p\<close>, \<open>call_of p\<close>
  the call it waits in there, \<open>delta p r\<close> the point that the answer \<open>r\<close> takes it to. The laws say
  that the program moves as the machine does; then the call it waits in after any answers is
  the machine's.
\<close>

locale machine =
  fixes K :: "'p \<Rightarrow> 'g proc \<Rightarrow> ('a, 'g proc) outcome" and delta :: "'p \<Rightarrow> resp \<Rightarrow> 'p"
    and call_of :: "'p \<Rightarrow> call option" and good :: "'g proc \<Rightarrow> bool"
  assumes block: "good s \<Longrightarrow> script s = [] \<Longrightarrow> call_of p = Some c \<Longrightarrow> waits_in (K p s) = Some c"
    and move: "good s \<Longrightarrow> script s = r # rs \<Longrightarrow> call_of p = Some c \<Longrightarrow>
      \<exists>s'. K p s = K (delta p r) s' \<and> script s' = rs \<and> good s'"
    and stop: "good s \<Longrightarrow> call_of p = None \<Longrightarrow> waits_in (K p s) = None"
    and stay: "call_of p = None \<Longrightarrow> delta p r = p"
begin

lemma stays: "call_of p = None \<Longrightarrow> foldl delta p as = p"
  by (induction as) (simp_all add: stay)

lemma run:
  "good s \<Longrightarrow> \<exists>s'. K p s = K (foldl delta p (script s)) s' \<and> good s' \<and>
    (call_of (foldl delta p (script s)) \<noteq> None \<longrightarrow> script s' = [])"
proof (induction "script s" arbitrary: p s)
  case Nil
  then show ?case by (metis foldl_Nil)
next
  case (Cons r rs)
  show ?case
  proof (cases "call_of p")
    case None
    then show ?thesis using stays [OF None] Cons.prems by auto
  next
    case (Some c)
    with move [OF Cons.prems Cons.hyps(2) [symmetric]] obtain s' where
      s': "K p s = K (delta p r) s'" "script s' = rs" "good s'" by blast
    with Cons.hyps(1) [of s' "delta p r"] Cons.hyps(2) [symmetric] show ?thesis by simp
  qed
qed

lemma waits: "good s \<Longrightarrow> waits_in (K p s) = call_of (foldl delta p (script s))"
  using run [of s p] block stop
  by (cases "call_of (foldl delta p (script s))") fastforce+

lemma done_stops:
  assumes "good s" and "K p s = Done a t"
  shows "call_of (foldl delta p (script s)) = None"
  using waits [OF assms(1), of p] assms(2) by simp

end

section \<open>Shared objects and steps\<close>

record world =
  arrived :: "string \<Rightarrow> nat set"
  limit :: "string \<Rightarrow> nat"
  owner :: "string \<Rightarrow> nat option"
  sleepers :: "nat set"
  woken :: "nat set"

record config =
  wd :: world
  ans :: "nat \<Rightarrow> resp list"

definition give :: "nat \<Rightarrow> resp \<Rightarrow> world \<Rightarrow> config \<Rightarrow> config" where
  "give i r w c = c\<lparr>wd := w, ans := (ans c)(i := ans c i @ [r])\<rparr>"

lemma give_sel [simp]:
  "wd (give i r w c) = w" "ans (give i r w c) = (ans c)(i := ans c i @ [r])"
  by (simp_all add: give_def)

definition arrive_at :: "nat \<Rightarrow> string \<Rightarrow> config \<Rightarrow> config" where
  "arrive_at i b c = c\<lparr>wd := (wd c)\<lparr>arrived := (arrived (wd c))(b := insert i (arrived (wd c) b))\<rparr>\<rparr>"

lemma arrive_at_sel [simp]:
  "arrived (wd (arrive_at i b c)) = (arrived (wd c))(b := insert i (arrived (wd c) b))"
  "limit (wd (arrive_at i b c)) = limit (wd c)" "owner (wd (arrive_at i b c)) = owner (wd c)"
  "sleepers (wd (arrive_at i b c)) = sleepers (wd c)" "woken (wd (arrive_at i b c)) = woken (wd c)"
  "ans (arrive_at i b c) = ans c"
  by (simp_all add: arrive_at_def)

text \<open>The calls whose answers depend on the shared state.\<close>

fun synchronising :: "call \<Rightarrow> bool" where
  "synchronising (Thread (BarrierWait b)) = True"
| "synchronising (Thread (MutexTrylock m)) = True"
| "synchronising (Thread (MutexUnlock m)) = True"
| "synchronising (Thread CondWait) = True"
| "synchronising (Thread CondSignal) = True"
| "synchronising _ = False"

text \<open>
  \<open>try_lock\<close> and \<open>un_lock\<close> give the answer and the new owner. An unlock by a thread that does not
  hold the mutex fails and changes nothing, as with an error-checking mutex.
\<close>

definition try_lock :: "nat \<Rightarrow> nat option \<Rightarrow> int \<times> nat option" where
  "try_lock i ow = (if ow = None then (0, Some i) else (EBUSY, ow))"

definition un_lock :: "nat \<Rightarrow> nat option \<Rightarrow> int \<times> nat option" where
  "un_lock i ow = (if ow = Some i then (0, None) else (EPERM, ow))"

text \<open>
  The threads are those with numbers up to \<open>n\<close>. A barrier lets a thread pass once as many threads
  as its limit have arrived. A waiter on the condition variable gives up the mutex if it has
  it, and gets it back before it goes on; a signal wakes one waiter if there is one.
\<close>

inductive reach :: "(nat \<Rightarrow> resp list \<Rightarrow> call option) \<Rightarrow> nat \<Rightarrow> config \<Rightarrow> config \<Rightarrow> bool"
  for nxt n c0 where
  start: "reach nxt n c0 c0"
| arrive: "reach nxt n c0 c \<Longrightarrow> i \<le> n \<Longrightarrow> nxt i (ans c i) = Some (Thread (BarrierWait b)) \<Longrightarrow>
    reach nxt n c0 (arrive_at i b c)"
| pass: "reach nxt n c0 c \<Longrightarrow> i \<le> n \<Longrightarrow> nxt i (ans c i) = Some (Thread (BarrierWait b)) \<Longrightarrow>
    i \<in> arrived (wd c) b \<Longrightarrow> limit (wd c) b \<le> card (arrived (wd c) b) \<Longrightarrow>
    rv r = 0 \<or> rv r = PTHREAD_BARRIER_SERIAL_THREAD \<Longrightarrow>
    reach nxt n c0 (give i r (wd c) c)"
| trylock: "reach nxt n c0 c \<Longrightarrow> i \<le> n \<Longrightarrow> nxt i (ans c i) = Some (Thread (MutexTrylock m)) \<Longrightarrow>
    try_lock i (owner (wd c) m) = (v, ow) \<Longrightarrow>
    reach nxt n c0 (give i (ok v) ((wd c)\<lparr>owner := (owner (wd c))(m := ow)\<rparr>) c)"
| unlock: "reach nxt n c0 c \<Longrightarrow> i \<le> n \<Longrightarrow> nxt i (ans c i) = Some (Thread (MutexUnlock m)) \<Longrightarrow>
    un_lock i (owner (wd c) m) = (v, ow) \<Longrightarrow>
    reach nxt n c0 (give i (ok v) ((wd c)\<lparr>owner := (owner (wd c))(m := ow)\<rparr>) c)"
| sleep: "reach nxt n c0 c \<Longrightarrow> i \<le> n \<Longrightarrow> nxt i (ans c i) = Some (Thread CondWait) \<Longrightarrow>
    i \<notin> sleepers (wd c) \<Longrightarrow> i \<notin> woken (wd c) \<Longrightarrow>
    reach nxt n c0 (c\<lparr>wd := (wd c)\<lparr>sleepers := insert i (sleepers (wd c)),
      owner := (owner (wd c))(''mutex'' := snd (un_lock i (owner (wd c) ''mutex'')))\<rparr>\<rparr>)"
| wake: "reach nxt n c0 c \<Longrightarrow> i \<le> n \<Longrightarrow> nxt i (ans c i) = Some (Thread CondWait) \<Longrightarrow>
    i \<in> woken (wd c) \<Longrightarrow> owner (wd c) ''mutex'' = None \<Longrightarrow>
    reach nxt n c0 (give i (ok 0) ((wd c)\<lparr>woken := woken (wd c) - {i},
      owner := (owner (wd c))(''mutex'' := Some i)\<rparr>) c)"
| signal: "reach nxt n c0 c \<Longrightarrow> i \<le> n \<Longrightarrow> nxt i (ans c i) = Some (Thread CondSignal) \<Longrightarrow>
    j \<in> sleepers (wd c) \<Longrightarrow>
    reach nxt n c0 (give i (ok 0) ((wd c)\<lparr>sleepers := sleepers (wd c) - {j}, woken := insert j (woken (wd c))\<rparr>) c)"
| signal_lost: "reach nxt n c0 c \<Longrightarrow> i \<le> n \<Longrightarrow> nxt i (ans c i) = Some (Thread CondSignal) \<Longrightarrow>
    sleepers (wd c) = {} \<Longrightarrow>
    reach nxt n c0 (give i (ok 0) (wd c) c)"
| other: "reach nxt n c0 c \<Longrightarrow> i \<le> n \<Longrightarrow> nxt i (ans c i) = Some k \<Longrightarrow> \<not> synchronising k \<Longrightarrow>
    reach nxt n c0 (give i r (wd c) c)"

text \<open>The state in which the threads start, with the limits of the barriers.\<close>

definition initial :: "(string \<Rightarrow> nat) \<Rightarrow> config" where
  "initial lim = \<lparr>wd = \<lparr>arrived = (\<lambda>_. {}), limit = lim, owner = (\<lambda>_. None), sleepers = {}, woken = {}\<rparr>, ans = (\<lambda>_. [])\<rparr>"

lemma initial_sel [simp]:
  "arrived (wd (initial lim)) b = {}" "limit (wd (initial lim)) = lim" "owner (wd (initial lim)) m = None"
  "sleepers (wd (initial lim)) = {}" "woken (wd (initial lim)) = {}" "ans (initial lim) i = []"
  by (simp_all add: initial_def)

lemma reach_trans: "reach nxt n c0 c1 \<Longrightarrow> reach nxt n c1 c2 \<Longrightarrow> reach nxt n c0 c2"
  by (rotate_tac, induction rule: reach.induct) (auto intro: reach.intros)

text \<open>A thread that is given several answers in a row, none of them to a synchronising call.\<close>

lemma reach_others:
  assumes "reach nxt n c0 c" and "i \<le> n"
    and "\<forall>m < length rs. \<exists>k. nxt i (ans c i @ take m rs) = Some k \<and> \<not> synchronising k"
  shows "reach nxt n c0 (c\<lparr>ans := (ans c)(i := ans c i @ rs)\<rparr>)"
  using assms(3)
proof (induction rs rule: rev_induct)
  case Nil
  then show ?case using assms(1) by simp
next
  case (snoc r rs)
  let ?c = "c\<lparr>ans := (ans c)(i := ans c i @ rs)\<rparr>"
  have "reach nxt n c0 ?c"
  proof (rule snoc.IH, intro allI impI)
    fix m assume "m < length rs"
    with snoc.prems [rule_format, of m] show "\<exists>k. nxt i (ans c i @ take m rs) = Some k \<and> \<not> synchronising k" by simp
  qed
  moreover obtain k where "nxt i (ans ?c i) = Some k" "\<not> synchronising k"
    using snoc.prems [rule_format, of "length rs"] by auto
  ultimately have "reach nxt n c0 (give i r (wd ?c) ?c)" using assms(2) by (intro reach.other)
  then show ?case by (simp add: give_def fun_upd_def cong: if_cong)
qed

section \<open>Barriers\<close>

text \<open>Whether a thread has come as far as the barrier with the answers it got, or further.\<close>

definition been_at :: "(nat \<Rightarrow> resp list \<Rightarrow> call option) \<Rightarrow> string \<Rightarrow> nat \<Rightarrow> resp list \<Rightarrow> bool" where
  "been_at nxt b i as \<longleftrightarrow> (\<exists>m \<le> length as. nxt i (take m as) = Some (Thread (BarrierWait b)))"

lemma been_at_snoc: "been_at nxt b i as \<Longrightarrow> been_at nxt b i (as @ [r])"
  unfolding been_at_def by (elim exE conjE) (rule_tac x = m in exI, simp)

text \<open>
  A thread counted as arrived has been at the barrier, and a thread that has passed a barrier
  found its limit reached.
\<close>

lemma arrived_been_at:
  assumes "reach nxt n (initial lim) c"
  shows "arrived (wd c) b \<subseteq> {..n} \<and> (\<forall>i \<in> arrived (wd c) b. been_at nxt b i (ans c i)) \<and> limit (wd c) = lim"
  using assms
proof induction
  case (arrive c i b')
  then show ?case by (auto simp: been_at_def intro: exI [of _ "length (ans c i)"])
qed (auto simp: been_at_snoc)

locale barrier_user =
  fixes nxt :: "nat \<Rightarrow> resp list \<Rightarrow> call option" and n :: nat and lim :: "string \<Rightarrow> nat" and b :: string
  assumes first: "nxt n [] = Some (Thread (BarrierWait b))"
    and everybody: "lim b = Suc n"
begin

lemma not_first:
  "nxt i (ans c i) = Some k \<Longrightarrow> k \<noteq> Thread (BarrierWait b) \<Longrightarrow> ans (give i r w c) n \<noteq> [] \<Longrightarrow> ans c n \<noteq> []"
  using first by (auto split: if_splits)

lemma passed: "reach nxt n (initial lim) c \<Longrightarrow> ans c n \<noteq> [] \<Longrightarrow> arrived (wd c) b = {..n}"
proof (induction rule: reach.induct)
  case (pass c i b' r)
  show ?case
  proof (cases "ans c n = [] \<and> i = n")
    case True
    with pass first have b: "b' = b" by simp
    have "arrived (wd c) b \<subseteq> {..n}" and "limit (wd c) = lim"
      using arrived_been_at [OF pass(1), of b] by auto
    moreover have "Suc n \<le> card (arrived (wd c) b)"
      using pass b everybody \<open>limit (wd c) = lim\<close> by simp
    ultimately have "arrived (wd c) b = {..n}" by (intro card_subset_eq) (auto dest: card_mono [rotated])
    then show ?thesis by simp
  qed (use pass in \<open>auto split: if_splits\<close>)
next
  case (arrive c i b')
  then show ?case using arrived_been_at [OF arrive(1), of b] by auto
next
  case (trylock c i m v ow)
  then show ?case using not_first [OF trylock(3)] by simp
next
  case (unlock c i m v ow)
  then show ?case using not_first [OF unlock(3)] by simp
next
  case (wake c i)
  then show ?case using not_first [OF wake(3)] by simp
next
  case (signal c i j)
  then show ?case using not_first [OF signal(3)] by simp
next
  case (signal_lost c i)
  then show ?case using not_first [OF signal_lost(3)] by simp
next
  case (other c i k r)
  then have "k \<noteq> Thread (BarrierWait b)" by auto
  with other show ?case using not_first [OF other(3)] by simp
qed simp_all

text \<open>Once thread \<open>n\<close> has passed the barrier, every other thread has come to it.\<close>

theorem all_at_barrier:
  assumes "reach nxt n (initial lim) c" and "ans c n \<noteq> []" and "i < n"
  shows "been_at nxt b i (ans c i)"
  using arrived_been_at [OF assms(1), of b] passed [OF assms(1,2)] assms(3) by auto

end

end
