(* ===== verification/Pthread1.thy ===== *)
theory Pthread1
  imports Interleave
begin

text \<open>
  process-tree/pthread1.c: the threads wait on a condition variable; after the restart the
  coordinator signals it, and each thread that wakes signals it again. In the model of all
  threads together the coordinator has the number 0 and the others the numbers from 1 on.
\<close>

section \<open>Constants and globals\<close>

definition LOG_PREFIX :: string where "LOG_PREFIX = ''logs.d/pthread1''"

record p1_globals =
  num_threads :: int

definition init_globals :: p1_globals where "init_globals = \<lparr>num_threads = 5\<rparr>"

type_synonym 'a p1prog = "(p1_globals, 'a) prog"

section \<open>The threads\<close>

definition signal_next :: "nat \<Rightarrow> nat \<Rightarrow> unit p1prog" where
  "signal_next line_error line_exit =
     bind (thr CondSignal) (\<lambda>r.
     block [if rv r < 0 then fprintf line_error [I (er r)] else return (), fprintf line_exit [], flush_log])"

definition woken_up :: "unit p1prog" where
  "woken_up =
     bind (thr (MutexUnlock ''mutex'')) (\<lambda>_. andthen (fprintf 46 []) (signal_next 49 52))"

definition do_work :: "unit p1prog" where
  "do_work =
     andthen (block [fprintf 36 [], flush_log]) (
     bind (thr CondWait) (\<lambda>r.
     if rv r < 0 then andthen (emit (Stdio (Perror 41))) (exit_with 1)
     else woken_up))"

definition do_work_coord :: "unit p1prog" where
  "do_work_coord = andthen wait_test_done (andthen (fprintf 67 []) (signal_next 71 74))"

section \<open>The main thread\<close>

definition usage :: "string list \<Rightarrow> unit p1prog" where
  "usage argv =
     andthen (block [emit (Stdio (Printf 20 [S (hd argv)])), emit (Stdio (Printf 21 []))]) (do_exit 1)"

fun create_rest :: "nat list \<Rightarrow> int list p1prog" where
  "create_rest [] = return []"
| "create_rest (i # is) =
     bind (thr (PthreadCreate 0 (int i))) (\<lambda>r.
     if rv r < 0 then andthen (fprintf 112 [I (int i), I (rv r), I (er r)]) (do_exit 1)
     else bind (create_rest is) (\<lambda>ts. return (out 0 r # ts)))"

text \<open>The coordinator's id is stored at index 0 even if the list has no element.\<close>

definition create_threads :: "int \<Rightarrow> int list p1prog" where
  "create_threads n =
     bind (sysv (Proc (Malloc (n * 8)))) (\<lambda>tid_list.
     if tid_list = 0 then bind (gets errno) (\<lambda>e. andthen (fprintf 96 [I (n * 8), I e]) (do_exit 1))
     else bind (thr (PthreadCreate 0 0)) (\<lambda>r.
     if rv r < 0 then andthen (fprintf 103 [I (rv r), I (er r)]) (do_exit 1)
     else if n < 1 then crash
     else bind (create_rest [1..<nat n]) (\<lambda>ts.
     andthen (fprintf 119 [I n]) (return (out 0 r # ts)))))"

fun wait_for_threads :: "(nat \<times> int) list \<Rightarrow> unit p1prog" where
  "wait_for_threads [] = return ()"
| "wait_for_threads ((i, tid) # ts) =
     bind (thr (PthreadJoin tid)) (\<lambda>r.
     if rv r < 0 then andthen (fprintf 132 [I (int i), I (rv r), I (er r)]) (do_exit 1)
     else wait_for_threads ts)"

fun num_threads_opt :: "string list \<Rightarrow> options \<Rightarrow> int \<Rightarrow> int p1prog" where
  "num_threads_opt argv [] n = return n"
| "num_threads_opt argv ((c, optarg) # os) n =
     (if c = CHR ''n'' then num_threads_opt argv os (atoi (the optarg))
      else andthen (usage argv) (num_threads_opt argv os n))"

definition main :: "string list \<Rightarrow> int p1prog" where
  "main argv =
     (let log_file = LOG_PREFIX @ ''.log'' in
      bind (sysv (Stdio (Fopen log_file ''w''))) (\<lambda>fp.
      if fp < 0 then
        bind (gets errno) (\<lambda>e.
        andthen (block [emit (Stdio (FprintfTo 2 151 [S log_file, I e])), emit (Stdio (Fflush 2))]) (do_exit 1))
      else
        andthen (block
          [modify (\<lambda>s. s\<lparr>logfp := Some fp\<rparr>), emit (Stdio (FprintfTo 2 157 [S log_file])), close_others]) (
        bind test_done (\<lambda>d.
        if d \<noteq> 0 then andthen (emit (Stdio (Printf 165 [S TEST_DONE]))) (do_exit 1)
        else with_glob num_threads (\<lambda>n0.
        bind (num_threads_opt argv (fst (getopt ''hd:n:'' (tl argv))) n0) (\<lambda>n.
        andthen (set_glob (\<lambda>g. g\<lparr>num_threads := n\<rparr>)) (
        bind (create_threads n) (\<lambda>tids.
        andthen (block [set_checkpoint_ready, wait_for_threads (zip [0..<length tids] tids)])
          (return 0)))))))))"

section \<open>The machines of the threads\<close>

text \<open>
  One machine for both kinds of thread: the coordinator starts at \<open>Polling\<close>, the others at
  \<open>Waiting\<close>; the flag of \<open>Signalling\<close> and \<open>Failed\<close> says whether it is the coordinator.
\<close>

datatype phase = Polling | Waiting | Woken | Signalling bool | Ended | Failed bool

fun call_of :: "phase \<Rightarrow> call option" where
  "call_of Polling = Some (Unistd (Access TEST_DONE))"
| "call_of Waiting = Some (Thread CondWait)"
| "call_of Woken = Some (Thread (MutexUnlock ''mutex''))"
| "call_of (Signalling coord) = Some (Thread CondSignal)"
| "call_of Ended = None"
| "call_of (Failed coord) = None"

fun delta :: "phase \<Rightarrow> resp \<Rightarrow> phase" where
  "delta Polling r = (if rv r = 0 then Signalling True else if er r = ENOENT then Polling else Failed True)"
| "delta Waiting r = (if rv r < 0 then Failed False else Woken)"
| "delta Woken r = Signalling False"
| "delta (Signalling coord) r = Ended"
| "delta Ended r = Ended"
| "delta (Failed coord) r = Failed coord"

fun K :: "phase \<Rightarrow> unit p1prog" where
  "K Polling = do_work_coord"
| "K Waiting = do_work"
| "K Woken = woken_up"
| "K (Signalling coord) = (if coord then signal_next 71 74 else signal_next 49 52)"
| "K Ended = return ()"
| "K (Failed coord) = (if coord then do_exit 1 else exit_with 1)"

lemmas thread_defs = do_work_def do_work_coord_def woken_up_def signal_next_def
  bind_do_exit run_sys_Cons wait_test_done_Cons

lemma p1_move_on:
  assumes "logging s" and "script s = r # rs" and "call_of p = Some c"
  shows "\<exists>s'. K p s = K (delta p r) s' \<and> script s' = rs \<and> logging s'"
proof -
  obtain lf where lf: "logfp s = Some lf" using assms(1) by (auto simp: logging_def)
  have go: "\<exists>s'. f t = f s' \<and> script s' = rs \<and> logging s'" if "script t = rs" and "logging t"
    for f :: "p1_globals proc \<Rightarrow> (unit, p1_globals proc) outcome" and t
    using that by blast
  note sim = thread_defs prog_simps Let_def
  show ?thesis
  proof (cases p)
    case Polling
    then show ?thesis using assms(1,2) lf
      by (cases "rv r = 0"; cases "er r = ENOENT") (simp add: sim del: run_sys; rule go; simp)+
  next
    case Waiting
    then show ?thesis using assms(1,2) lf
      by (cases "rv r < 0") (simp add: sim del: run_sys; rule go; simp)+
  next
    case Woken
    then show ?thesis using assms(1,2) lf
      by (simp add: sim del: run_sys) (rule go; simp)
  next
    case (Signalling coord)
    then show ?thesis using assms(1,2) lf
      by (cases coord; cases "rv r < 0") (simp add: sim del: run_sys; rule go; simp)+
  qed (use assms(3) in simp_all)
qed

interpretation cm: machine K delta call_of logging
proof
  fix s :: "p1_globals proc" and p c
  assume "logging s" and "script s = []" and "call_of p = Some c"
  then show "waits_in (K p s) = Some c"
    by (cases p)
      (auto simp: logging_def do_work_def do_work_coord_def woken_up_def signal_next_def run_wait_test_done prog_simps
        waits_in_def)
next
  fix s :: "p1_globals proc" and r rs p c
  assume "logging s" and "script s = r # rs" and "call_of p = Some c"
  then show "\<exists>s'. K p s = K (delta p r) s' \<and> script s' = rs \<and> logging s'"
    by (rule p1_move_on)
next
  fix s :: "p1_globals proc" and p
  assume "logging s" and "call_of p = None"
  then show "waits_in (K p s) = None"
    by (cases p) (auto simp: logging_def do_exit_def prog_simps)
next
  fix p r
  assume "call_of p = None"
  then show "delta p r = p" by (cases p) simp_all
qed

section \<open>All threads together\<close>

definition nxt :: "nat \<Rightarrow> resp list \<Rightarrow> call option" where
  "nxt i as =
     (if i = 0 then waits_in (do_work_coord (start as (Some 3) init_globals))
      else waits_in (do_work (start as (Some 3) init_globals)))"

definition phase_of :: "config \<Rightarrow> nat \<Rightarrow> phase" where
  "phase_of c i = foldl delta (if i = 0 then Polling else Waiting) (ans c i)"

lemma nxt_phase: "nxt i (ans c i) = call_of (phase_of c i)"
  using cm.waits [of "start (ans c i) (Some 3) init_globals" "if i = 0 then Polling else Waiting"]
  by (cases "i = 0") (simp_all add: nxt_def phase_of_def logging_def)

lemma phase_of_give [simp]: "phase_of (give i r w c) = (phase_of c)(i := delta (phase_of c i) r)"
  by (auto simp: phase_of_def fun_eq_iff)

lemma phase_of_world [simp]: "phase_of (wd_update f c) = phase_of c"
  by (simp add: phase_of_def fun_eq_iff)

lemma ended:
  assumes "phase_of c i = Ended" and "0 < i"
  shows "\<exists>t. do_work (start (ans c i) (Some 3) init_globals) = Done () t"
  using cm.run [of "start (ans c i) (Some 3) init_globals" Waiting] assms
  by (auto simp: phase_of_def logging_def prog_simps)

text \<open>
  The invariant once every thread waits: a thread that has the mutex is between its wake-up and
  its unlock; and while a thread sleeps, somebody is still going to signal, unless the
  coordinator has failed.
\<close>

definition will_signal :: "phase \<Rightarrow> bool" where
  "will_signal p \<longleftrightarrow> p \<noteq> Waiting \<and> p \<noteq> Ended"

fun own :: "nat \<Rightarrow> phase \<Rightarrow> bool" where
  "own i Polling \<longleftrightarrow> i = 0"
| "own i (Signalling coord) \<longleftrightarrow> coord = (i = 0)"
| "own i (Failed coord) \<longleftrightarrow> coord \<and> i = 0"
| "own i Waiting \<longleftrightarrow> 0 < i"
| "own i Woken \<longleftrightarrow> 0 < i"
| "own i Ended \<longleftrightarrow> True"

definition wake_inv :: "nat \<Rightarrow> config \<Rightarrow> bool" where
  "wake_inv m c \<longleftrightarrow>
     (\<forall>i\<le>m. own i (phase_of c i)) \<and>
     (\<forall>i. owner (wd c) ''mutex'' = Some i \<longleftrightarrow> i \<le> m \<and> phase_of c i = Woken) \<and>
     (\<forall>i. i \<in> sleepers (wd c) \<or> i \<in> woken (wd c) \<longleftrightarrow> i \<le> m \<and> phase_of c i = Waiting) \<and>
     sleepers (wd c) \<inter> woken (wd c) = {} \<and>
     (sleepers (wd c) \<noteq> {} \<longrightarrow> woken (wd c) \<noteq> {} \<or> (\<exists>i\<le>m. will_signal (phase_of c i)))"

lemma wake_invD:
  assumes "wake_inv m c"
  shows "i \<le> m \<Longrightarrow> own i (phase_of c i)"
    and "owner (wd c) ''mutex'' = Some i \<longleftrightarrow> i \<le> m \<and> phase_of c i = Woken"
    and "i \<in> sleepers (wd c) \<or> i \<in> woken (wd c) \<longleftrightarrow> i \<le> m \<and> phase_of c i = Waiting"
    and "sleepers (wd c) \<inter> woken (wd c) = {}"
    and "sleepers (wd c) \<noteq> {} \<Longrightarrow> woken (wd c) \<noteq> {} \<or> (\<exists>i\<le>m. will_signal (phase_of c i))"
  using assms unfolding wake_inv_def by blast+

lemma call_of_iff:
  "call_of p = Some (Thread (BarrierWait b)) \<longleftrightarrow> False" "call_of p = Some (Thread (MutexTrylock x)) \<longleftrightarrow> False"
  "call_of p = Some (Thread (MutexUnlock x)) \<longleftrightarrow> p = Woken \<and> x = ''mutex''"
  "call_of p = Some (Thread CondWait) \<longleftrightarrow> p = Waiting"
  "call_of p = Some (Thread CondSignal) \<longleftrightarrow> (\<exists>coord. p = Signalling coord)"
  by (cases p; auto)+

lemma call_of_other: "call_of p = Some k \<Longrightarrow> \<not> synchronising k \<Longrightarrow> p = Polling"
  by (cases p) auto

lemma wake_inv_reach:
  assumes "reach nxt m c0 c" and "wake_inv m c0"
  shows "wake_inv m c"
  using assms(1)
proof induction
  case start
  then show ?case using assms(2) .
next
  case (sleep c i)
  then show ?case using wake_invD(3) [OF sleep.IH, of i] by (auto simp: nxt_phase call_of_iff)
next
  case (other c i k r)
  then have p: "phase_of c i = Polling" by (auto simp: nxt_phase dest: call_of_other)
  with wake_invD(1) [OF other.IH other(2)] have "i = 0" by simp
  then show ?case
    using wake_invD [OF other.IH] p other(2) unfolding wake_inv_def
    by (auto simp: will_signal_def)
next
  case (unlock c i x v ow)
  then have p: "phase_of c i = Woken" "x = ''mutex''" by (auto simp: nxt_phase call_of_iff)
  with unlock(2) wake_invD(2) [OF unlock.IH] have ow: "owner (wd c) ''mutex'' = Some i" by simp
  with unlock(4) p have "ow = None" by (simp add: un_lock_def)
  have "phase_of c j \<noteq> Woken" if "j \<le> m" "j \<noteq> i" for j
    using wake_invD(2) [OF unlock.IH, of j] that ow by auto
  moreover have "0 < i" using wake_invD(1) [OF unlock.IH unlock(2)] p by simp
  moreover have "will_signal (Signalling False)" by (simp add: will_signal_def)
  ultimately show ?case
    using wake_invD(1,3,4) [OF unlock.IH] p unlock(2) \<open>ow = None\<close> unfolding wake_inv_def
    by (intro conjI) (simp_all, auto)
next
  case (wake c i)
  then have p: "phase_of c i = Waiting" by (auto simp: nxt_phase call_of_iff)
  moreover have "phase_of c j \<noteq> Woken" if "j \<le> m" for j
    using wake_invD(2) [OF wake.IH, of j] that wake(5) by auto
  moreover have "0 < i" using wake_invD(1) [OF wake.IH wake(2)] p by simp
  ultimately show ?case
    using wake_invD [OF wake.IH] wake(2,4,5) unfolding wake_inv_def
    by (auto simp: will_signal_def)
next
  case (signal c i j)
  then obtain b where p: "phase_of c i = Signalling b" by (auto simp: nxt_phase call_of_iff)
  with wake_invD(3) [OF signal.IH, of i] signal(4) have "i \<noteq> j" by auto
  then show ?case
    using wake_invD [OF signal.IH] p signal(2,4) unfolding wake_inv_def
    by (auto simp: will_signal_def)
next
  case (signal_lost c i)
  then obtain b where p: "phase_of c i = Signalling b" by (auto simp: nxt_phase call_of_iff)
  show ?case
    using wake_invD [OF signal_lost.IH] p signal_lost(2,4) unfolding wake_inv_def
    by (auto simp: will_signal_def)
qed (simp_all add: nxt_phase call_of_iff)

text \<open>Once the coordinator has ended, somebody can go on until all threads have.\<close>

fun steps_left :: "phase \<Rightarrow> nat" where
  "steps_left Waiting = 3"
| "steps_left Woken = 2"
| "steps_left (Signalling coord) = 1"
| "steps_left _ = 0"

definition todo :: "nat \<Rightarrow> config \<Rightarrow> nat" where
  "todo m c = (\<Sum>i\<in>{1..m}. steps_left (phase_of c i))"

lemma todo_give:
  assumes "i \<in> {1..m}" and "steps_left (delta (phase_of c i) r) < steps_left (phase_of c i)"
  shows "todo m (give i r w c) < todo m c"
  unfolding todo_def using assms by (intro sum_strict_mono_ex1) (auto intro!: bexI [of _ i])

lemma progress:
  assumes inv: "wake_inv m c" and "phase_of c 0 = Ended" and "\<exists>i\<in>{1..m}. phase_of c i \<noteq> Ended"
  shows "\<exists>i r w. i \<in> {1..m} \<and> reach nxt m c (give i r w c) \<and> rv r = 0 \<and> call_of (phase_of c i) \<noteq> None"
proof -
  note inv = wake_invD [OF inv]
  have pos: "i \<in> {1..m}" if "i \<le> m" "phase_of c i \<noteq> Ended" for i
    using assms(2) that by (cases "i = 0") auto
  note here = reach.start [of nxt m c]
  consider (woken) i where "i \<le> m" "phase_of c i = Woken"
    | (signalling) i b where "i \<le> m" "phase_of c i = Signalling b"
    | (waking) i where "i \<in> woken (wd c)" "\<forall>j\<le>m. phase_of c j \<noteq> Woken"
  proof (cases "\<exists>i\<le>m. will_signal (phase_of c i)")
    case True
    then obtain i where "i \<le> m" "will_signal (phase_of c i)" by blast
    with inv(1) [of i] pos [of i] show ?thesis using that(1,2) by (cases "phase_of c i") (auto simp: will_signal_def)
  next
    case False
    from assms(3) obtain i where i: "i \<in> {1..m}" "phase_of c i \<noteq> Ended" by blast
    with False have "phase_of c i = Waiting" by (auto simp: will_signal_def)
    with inv(3) [of i] i inv(5) False obtain j where "j \<in> woken (wd c)" by auto
    moreover have "\<forall>j\<le>m. phase_of c j \<noteq> Woken" using False by (auto simp: will_signal_def)
    ultimately show ?thesis using that(3) by blast
  qed
  then show ?thesis
  proof cases
    case woken
    with inv(2) [of i] reach.unlock [OF here woken(1), of "''mutex''"] pos [of i] show ?thesis
      by (fastforce simp: nxt_phase un_lock_def)
  next
    case signalling
    then show ?thesis
      using reach.signal [OF here signalling(1)] reach.signal_lost [OF here signalling(1)] pos [of i]
      by (cases "sleepers (wd c) = {}") (fastforce simp: nxt_phase)+
  next
    case waking
    with inv(3) [of i] have i: "i \<le> m" "phase_of c i = Waiting" by auto
    moreover have "owner (wd c) ''mutex'' = None"
      using inv(2) waking(2) by (cases "owner (wd c) ''mutex''") auto
    ultimately show ?thesis using reach.wake [OF here i(1)] waking(1) pos [of i] by (fastforce simp: nxt_phase)
  qed
qed

lemma all_can_end:
  assumes "wake_inv m c" and "phase_of c 0 = Ended"
  shows "\<exists>c'. reach nxt m c c' \<and> (\<forall>i\<in>{1..m}. phase_of c' i = Ended)"
  using assms
proof (induction "todo m c" arbitrary: c rule: less_induct)
  case less
  show ?case
  proof (cases "\<exists>i\<in>{1..m}. phase_of c i \<noteq> Ended")
    case True
    from progress [OF less.prems True] obtain i r w where i: "i \<in> {1..m}" and r: "rv r = 0"
      and step: "reach nxt m c (give i r w c)" and "call_of (phase_of c i) \<noteq> None" by blast
    moreover from this wake_invD(1) [OF less.prems(1), of i]
    have "steps_left (delta (phase_of c i) r) < steps_left (phase_of c i)" by (cases "phase_of c i") auto
    ultimately have "todo m (give i r w c) < todo m c" by (intro todo_give)
    moreover have "wake_inv m (give i r w c)" using step less.prems(1) by (rule wake_inv_reach)
    moreover have "phase_of (give i r w c) 0 = Ended" using i less.prems(2) by simp
    ultimately show ?thesis using less.hyps step by (meson reach_trans)
  qed (use reach.start in blast)
qed

text \<open>The state in which every worker sleeps and the coordinator has not got an answer yet.\<close>

definition asleep :: "nat \<Rightarrow> (string \<Rightarrow> nat) \<Rightarrow> config" where
  "asleep m lim = (initial lim)\<lparr>wd := (wd (initial lim))\<lparr>sleepers := {1..m}\<rparr>\<rparr>"

lemma all_sleep:
  assumes "reach nxt m c0 c" and "sleepers (wd c) = {}" and "woken (wd c) = {}"
    and "owner (wd c) ''mutex'' = None" and "\<forall>i\<in>{1..m}. phase_of c i = Waiting" and "k \<le> m"
  shows "reach nxt m c0 (c\<lparr>wd := (wd c)\<lparr>sleepers := {1..k}\<rparr>\<rparr>)"
  using assms(6)
proof (induction k)
  case 0
  have "(wd c)\<lparr>sleepers := {}\<rparr> = wd c" using assms(2) by (cases "wd c") simp
  then show ?case using assms(1) by simp
next
  case (Suc k)
  let ?c = "c\<lparr>wd := (wd c)\<lparr>sleepers := {1..k}\<rparr>\<rparr>"
  have "reach nxt m c0 ?c" using Suc by simp
  moreover have "nxt (Suc k) (ans ?c (Suc k)) = Some (Thread CondWait)"
    using assms(5) Suc.prems nxt_phase [of "Suc k" c] by simp
  moreover have "(owner (wd c))(''mutex'' := None) = owner (wd c)" using assms(4) by (simp add: fun_upd_idem)
  moreover have "insert (Suc k) {1..k} = {1..Suc k}" by auto
  ultimately show ?case
    using reach.sleep [of nxt m c0 ?c "Suc k"] Suc.prems assms(3,4) by (simp add: un_lock_def)
qed

lemma asleep_reachable: "reach nxt m (initial lim) (asleep m lim)"
  unfolding asleep_def by (rule all_sleep [OF reach.start]) (auto simp: phase_of_def)

lemma wake_inv_asleep: "wake_inv m (asleep m lim)"
  by (auto simp: wake_inv_def asleep_def phase_of_def will_signal_def)

lemma coord_done:
  assumes "do_work_coord (start (ans c 0) (Some 3) init_globals) = Done () t"
  shows "phase_of c 0 = Ended"
proof -
  let ?s = "start (ans c 0) (Some 3) init_globals"
  have "K Polling ?s = Done () t" using assms by simp
  moreover from this cm.done_stops [of ?s Polling] have "call_of (phase_of c 0) = None"
    by (simp add: phase_of_def logging_def)
  moreover from cm.run [of ?s Polling] obtain s' where "K Polling ?s = K (phase_of c 0) s'" "logging s'"
    by (auto simp: phase_of_def logging_def)
  ultimately show ?thesis
    by (cases "phase_of c 0") (auto simp: do_exit_def prog_simps logging_def split: if_splits)
qed

text \<open>
  \<^bold>\<open>C22.\<close> If every worker waits on the condition variable before the coordinator signals it, no
  wake-up is lost: once the coordinator has returned, in every interleaving and for every
  number of workers, the workers can all go on until each of them has returned too.
\<close>

theorem everyone_is_woken:
  assumes "reach nxt m (asleep m lim) c"
    and "do_work_coord (start (ans c 0) (Some 3) init_globals) = Done () t"
  shows "\<exists>c'. reach nxt m c c' \<and>
    (\<forall>i\<in>{1..m}. \<exists>t'. do_work (start (ans c' i) (Some 3) init_globals) = Done () t')"
  using all_can_end [OF wake_inv_reach [OF assms(1) wake_inv_asleep] coord_done [OF assms(2)]] ended
  by (metis atLeastAtMost_iff less_le_trans zero_less_one)

text \<open>The coordinator's signal, when nobody sleeps or when everybody does.\<close>

lemma coord_returns: "\<exists>t. do_work_coord (start [ok 0, ok 0] (Some 3) init_globals) = Done () t"
  using cm.run [of "start [ok 0, ok 0] (Some 3) init_globals" Polling] by (auto simp: logging_def prog_simps)

lemma coord_polls: "reach nxt m c0 c \<Longrightarrow> ans c 0 = [] \<Longrightarrow> reach nxt m c0 (give 0 (ok 0) (wd c) c)"
  using nxt_phase [of 0 c] by (intro reach.other [where k = "Unistd (Access TEST_DONE)"]) (auto simp: phase_of_def)

theorem everyone_is_woken_witness:
  "\<exists>c c' t. reach nxt 1 (asleep 1 (\<lambda>_. 0)) c \<and> do_work_coord (start (ans c 0) (Some 3) init_globals) = Done () t \<and>
    reach nxt 1 c c' \<and> (\<forall>i\<in>{1..1}. \<exists>t'. do_work (start (ans c' i) (Some 3) init_globals) = Done () t')"
proof -
  let ?c0 = "asleep 1 (\<lambda>_. 0)"
  let ?c1 = "give 0 (ok 0) (wd ?c0) ?c0"
  have "reach nxt 1 ?c0 ?c1" by (rule coord_polls [OF reach.start]) (simp add: asleep_def)
  moreover have "nxt 0 (ans ?c1 0) = Some (Thread CondSignal)" using nxt_phase [of 0 ?c1] by (simp add: phase_of_def asleep_def)
  ultimately obtain w where r: "reach nxt 1 ?c0 (give 0 (ok 0) w ?c1)"
    using reach.signal [of nxt 1 ?c0 ?c1 0 1] by (auto simp: asleep_def)
  moreover have "ans (give 0 (ok 0) w ?c1) 0 = [ok 0, ok 0]" by (simp add: asleep_def)
  ultimately show ?thesis using everyone_is_woken [OF r] coord_returns by metis
qed

lemma stuck:
  assumes "reach nxt m c c'" and "phase_of c 0 = Ended" and "\<forall>i\<in>{1..m}. phase_of c i = Waiting"
    and "sleepers (wd c) = {1..m}" and "woken (wd c) = {}"
  shows "c' = c"
  using assms(1)
proof induction
  case (other c' i k r)
  then show ?case using assms(2,3) call_of_other [of "phase_of c i" k] by (cases "i = 0") (auto simp: nxt_phase)
next
  case (sleep c' i)
  then show ?case using assms(2-4) by (cases "i = 0") (auto simp: nxt_phase call_of_iff)
next
  case (signal c' i j)
  then show ?case using assms(2,3) by (cases "i = 0") (auto simp: nxt_phase call_of_iff)
next
  case (signal_lost c' i)
  then show ?case using assms(2,3) by (cases "i = 0") (auto simp: nxt_phase call_of_iff)
next
  case (unlock c' i x v ow)
  then show ?case using assms(2,3) by (cases "i = 0") (auto simp: nxt_phase call_of_iff)
qed (use assms in \<open>auto simp: nxt_phase call_of_iff\<close>)

text \<open>
  \<^bold>\<open>C23.\<close> If the coordinator signals before any worker waits, the signal is lost: the coordinator
  has returned, every worker sleeps, and no step of any thread is left, so the main thread
  waits for the workers without end. The program has nothing that rules this order out.
\<close>

theorem wakeup_can_be_lost:
  assumes "0 < m"
  shows "\<exists>c t. reach nxt m (initial lim) c \<and> do_work_coord (start (ans c 0) (Some 3) init_globals) = Done () t \<and>
    (\<forall>i\<in>{1..m}. nxt i (ans c i) = Some (Thread CondWait)) \<and> (\<forall>c'. reach nxt m c c' \<longrightarrow> c' = c)"
proof -
  let ?c1 = "give 0 (ok 0) (wd (initial lim)) (initial lim)"
  let ?c2 = "give 0 (ok 0) (wd ?c1) ?c1"
  let ?c = "?c2\<lparr>wd := (wd ?c2)\<lparr>sleepers := {1..m}\<rparr>\<rparr>"
  have "reach nxt m (initial lim) ?c1" by (rule coord_polls [OF reach.start]) simp
  moreover have "nxt 0 (ans ?c1 0) = Some (Thread CondSignal)" using nxt_phase [of 0 ?c1] by (simp add: phase_of_def)
  ultimately have "reach nxt m (initial lim) ?c2" by (intro reach.signal_lost [of _ _ _ ?c1]) simp_all
  then have r: "reach nxt m (initial lim) ?c" by (rule all_sleep) (auto simp: phase_of_def)
  have ph: "phase_of ?c 0 = Ended" "\<forall>i\<in>{1..m}. phase_of ?c i = Waiting" by (auto simp: phase_of_def)
  have "\<forall>i\<in>{1..m}. nxt i (ans ?c i) = Some (Thread CondWait)" using ph(2) by (simp only: nxt_phase call_of.simps) simp
  then show ?thesis
    using r stuck [OF _ ph] coord_returns by (intro exI [of _ ?c]) auto
qed

theorem wakeup_can_be_lost_witness:
  "(0::nat) < 1 \<and> (\<exists>c t. reach nxt 1 (initial (\<lambda>_. 0)) c \<and> do_work_coord (start (ans c 0) (Some 3) init_globals) = Done () t \<and>
    (\<forall>i\<in>{1..1}. nxt i (ans c i) = Some (Thread CondWait)) \<and> (\<forall>c'. reach nxt 1 c c' \<longrightarrow> c' = c))"
  using wakeup_can_be_lost [of 1 "\<lambda>_. 0"] by simp

end
