(* ===== verification/Pthread2.thy ===== *)
theory Pthread2
  imports Interleave
begin

text \<open>
  process-tree/pthread2.c: each thread reads its attributes before and after the restart and
  compares them. An attribute object is known by a number, which \<open>pthread_getattr_np\<close> stores;
  the getters of the library are calls on that number.
\<close>

section \<open>Constants and globals\<close>

definition LOG_PREFIX :: string where "LOG_PREFIX = ''logs.d/pthread2''"
definition MIN_STACK_SIZE :: int where "MIN_STACK_SIZE = 64 * 1024"

record p2_globals =
  num_threads :: int

definition init_globals :: p2_globals where "init_globals = \<lparr>num_threads = 8\<rparr>"

type_synonym 'a p2prog = "(p2_globals, 'a) prog"

section \<open>Attributes\<close>

definition get_attr :: "nat \<Rightarrow> string \<Rightarrow> int \<Rightarrow> resp p2prog" where
  "get_attr line field attr =
     bind (thr (AttrGet field attr)) (\<lambda>r.
     if rv r < 0 then andthen (fprintf line [I (rv r), I (er r)]) (do_exit 1) else return r)"

text \<open>A comparison of two integers, the message of which has the expected and the actual one.\<close>

definition compare_ints :: "nat \<Rightarrow> (int \<Rightarrow> int p2prog) \<Rightarrow> int \<Rightarrow> int \<Rightarrow> int \<Rightarrow> unit p2prog" where
  "compare_ints line get tnum exp_attr act_attr =
     bind (get exp_attr) (\<lambda>e. bind (get act_attr) (\<lambda>a.
     if e \<noteq> a then andthen (fprintf line [I tnum, I e, I a]) (do_exit 1) else return ()))"

definition get_affinity :: "int \<Rightarrow> string p2prog" where
  "get_affinity attr =
     andthen (fprintf 59 [I 128]) (bind (get_attr 63 ''affinity'' attr) (\<lambda>r. return (rdat r)))"

definition compare_affinity :: "int \<Rightarrow> int \<Rightarrow> unit p2prog" where
  "compare_affinity exp_attr act_attr =
     bind (get_affinity exp_attr) (\<lambda>e. bind (get_affinity act_attr) (\<lambda>a.
     if e \<noteq> a then andthen (fprintf 78 []) (do_exit 1) else return ()))"

definition get_detachstate :: "int \<Rightarrow> int p2prog" where
  "get_detachstate attr = bind (get_attr 89 ''detachstate'' attr) (\<lambda>r. return (out 0 r))"

definition compare_detachstate :: "int \<Rightarrow> int \<Rightarrow> int \<Rightarrow> unit p2prog" where
  "compare_detachstate = compare_ints 105 get_detachstate"

definition get_guardsize :: "int \<Rightarrow> int p2prog" where
  "get_guardsize attr = bind (get_attr 117 ''guardsize'' attr) (\<lambda>r. return (out 0 r))"

definition compare_guardsize :: "int \<Rightarrow> int \<Rightarrow> int \<Rightarrow> unit p2prog" where
  "compare_guardsize = compare_ints 132 get_guardsize"

definition get_inheritsched :: "int \<Rightarrow> int p2prog" where
  "get_inheritsched attr = bind (get_attr 144 ''inheritsched'' attr) (\<lambda>r. return (out 0 r))"

definition compare_inheritsched :: "int \<Rightarrow> int \<Rightarrow> int \<Rightarrow> unit p2prog" where
  "compare_inheritsched = compare_ints 159 get_inheritsched"

definition get_schedparam :: "int \<Rightarrow> int p2prog" where
  "get_schedparam attr = bind (get_attr 172 ''schedparam'' attr) (\<lambda>r. return (out 0 r))"

definition compare_schedparam :: "int \<Rightarrow> int \<Rightarrow> int \<Rightarrow> unit p2prog" where
  "compare_schedparam = compare_ints 187 get_schedparam"

definition get_schedpolicy :: "int \<Rightarrow> int p2prog" where
  "get_schedpolicy attr = bind (get_attr 199 ''schedpolicy'' attr) (\<lambda>r. return (out 0 r))"

definition compare_schedpolicy :: "int \<Rightarrow> int \<Rightarrow> int \<Rightarrow> unit p2prog" where
  "compare_schedpolicy = compare_ints 214 get_schedpolicy"

definition get_scope :: "int \<Rightarrow> int p2prog" where
  "get_scope attr = bind (get_attr 226 ''scope'' attr) (\<lambda>r. return (out 0 r))"

definition compare_scope :: "int \<Rightarrow> int \<Rightarrow> int \<Rightarrow> unit p2prog" where
  "compare_scope = compare_ints 240 get_scope"

text \<open>The address and the size of the stack; \<open>None\<close> is \<open>pthread_exit(ERROR_EXIT)\<close>.\<close>

definition get_stack :: "int \<Rightarrow> (int \<times> int) option p2prog" where
  "get_stack attr =
     bind (thr (AttrGet ''stack'' attr)) (\<lambda>r.
     if rv r < 0 then andthen (fprintf 252 [I (rv r), I (er r)]) (return None)
     else return (Some (out 0 r, out 1 r)))"

text \<open>\<open>True\<close> if the comparison returned, \<open>False\<close> if the thread has exited.\<close>

definition compare_stack :: "int \<Rightarrow> int \<Rightarrow> int \<Rightarrow> bool p2prog" where
  "compare_stack tnum exp_attr act_attr =
     bind (get_stack exp_attr) (\<lambda>e. case e of None \<Rightarrow> return False | Some (ea, es) \<Rightarrow>
     bind (get_stack act_attr) (\<lambda>a. case a of None \<Rightarrow> return False | Some (aa, as) \<Rightarrow>
     if aa \<noteq> ea \<or> as \<noteq> es
     then andthen (block [fprintf 270 [I tnum, I ea, I es, I aa, I as], flush_log]) (do_exit 1)
     else return True))"

definition compare_attr :: "int \<Rightarrow> int \<Rightarrow> int \<Rightarrow> bool p2prog" where
  "compare_attr tnum e a =
     andthen (block
       [compare_affinity e a, compare_detachstate tnum e a, compare_guardsize tnum e a,
        compare_inheritsched tnum e a, compare_schedparam tnum e a, compare_schedpolicy tnum e a,
        compare_scope tnum e a]) (compare_stack tnum e a)"

section \<open>The threads\<close>

definition getattr_np :: "nat \<Rightarrow> (int \<Rightarrow> thread_exit p2prog) \<Rightarrow> thread_exit p2prog" where
  "getattr_np line k =
     bind (thr PthreadSelf) (\<lambda>self.
     bind (thr (Getattr (rv self))) (\<lambda>r.
     if rv r < 0 then andthen (fprintf line [I (rv r), I (er r)]) (return ERROR_EXIT)
     else k (out 0 r)))"

definition check_after :: "int \<Rightarrow> int \<Rightarrow> thread_exit p2prog" where
  "check_after tnum exp_attr =
     andthen wait_test_done (
     getattr_np 349 (\<lambda>act_attr.
     bind (compare_attr tnum exp_attr act_attr) (\<lambda>returned.
     if \<not> returned then return ERROR_EXIT
     else andthen (block [fprintf 359 [I tnum], flush_log]) (return (Status 0)))))"

definition do_work :: "int \<Rightarrow> thread_exit p2prog" where
  "do_work tnum =
     andthen (block [fprintf 311 [I tnum], flush_log]) (
     getattr_np 323 (\<lambda>exp_attr.
     andthen (barrier_wait 333 ''barrier'' tnum) (check_after tnum exp_attr)))"

section \<open>The main thread\<close>

definition set_stack :: "int \<Rightarrow> nat \<Rightarrow> unit p2prog" where
  "set_stack attr tnum =
     bind (sysv (Thread Getpagesize)) (\<lambda>pg.
     let sz = MIN_STACK_SIZE + int tnum * pg in
     bind (sysv (Proc (Malloc sz))) (\<lambda>stack.
     if stack = 0 then bind (gets errno) (\<lambda>e. andthen (fprintf 376 [I e]) (do_exit 1))
     else bind (thr (AttrSetstack attr stack sz)) (\<lambda>r.
     if rv r < 0 then andthen (fprintf 382 [I (rv r), I (er r)]) (do_exit 1) else return ())))"

definition set_thread_attrs :: "int \<Rightarrow> nat \<Rightarrow> unit p2prog" where
  "set_thread_attrs attr tnum = set_stack attr tnum"

definition prepare :: "nat \<Rightarrow> int p2prog" where
  "prepare i =
     bind (alloc_thread_attr 28) (\<lambda>attr.
     if attr = 0 then do_exit 1
     else andthen (set_thread_attrs attr i) (return attr))"

definition main_rest :: "int \<Rightarrow> int list \<Rightarrow> int p2prog" where
  "main_rest rc tid_list =
     andthen (block [main_barrier_wait 533 ''barrier'' rc, set_checkpoint_ready]) (
     bind (wait_for_threads 439 tid_list) (\<lambda>st.
     andthen (fprintf 546 [I st]) (do_exit st)))"

definition main :: "string list \<Rightarrow> int p2prog" where
  "main argv =
     bind test_done (\<lambda>d.
     if d \<noteq> 0 then andthen (emit (Stdio (FprintfTo 2 477 [S TEST_DONE]))) (do_exit 1)
     else with_glob num_threads (\<lambda>n0.
     bind (num_threads_opt 21 argv (fst (getopt ''hn:'' (tl argv))) n0) (\<lambda>n.
     andthen (block [set_glob (\<lambda>g. g\<lparr>num_threads := n\<rparr>), open_log 491 (LOG_PREFIX @ ''.log'')]) (
     bind (thr (BarrierInit ''barrier'' (n + 1))) (\<lambda>b.
     if rv b < 0 then andthen (fprintf 514 [I (rv b), I (er b)]) (do_exit 1)
     else bind (thr (MutexInit ''dump_lock'')) (\<lambda>r.
     if rv r \<noteq> 0 then andthen (fprintf 521 [I (rv r), I (er r)]) (do_exit 1)
     else bind (create_threads (411, 425, 433) prepare n) (\<lambda>tid_list.
     main_rest (rv r) tid_list)))))))"

section \<open>The comparison\<close>

text \<open>The attributes that are compared, and the answers of the getters on two objects with given attributes.\<close>

record attrs =
  affinity :: string
  detachstate :: int
  guardsize :: int
  inheritsched :: int
  schedparam :: int
  schedpolicy :: int
  scope :: int
  stack :: "int \<times> int"

definition val :: "int \<Rightarrow> resp" where
  "val v = \<lparr>rv = 0, er = 0, rdat = [], outs = [v]\<rparr>"

lemma attr_val_sel [simp]: "rv (val v) = 0" "er (val v) = 0" "out 0 (val v) = v"
  by (simp_all add: val_def out_def)

definition cpus :: "string \<Rightarrow> resp" where
  "cpus b = \<lparr>rv = 0, er = 0, rdat = b, outs = []\<rparr>"

lemma cpus_sel [simp]: "rv (cpus b) = 0" "er (cpus b) = 0" "rdat (cpus b) = b"
  by (simp_all add: cpus_def)

definition stk :: "int \<times> int \<Rightarrow> resp" where
  "stk p = \<lparr>rv = 0, er = 0, rdat = [], outs = [fst p, snd p]\<rparr>"

lemma stk_sel [simp]: "rv (stk p) = 0" "er (stk p) = 0" "out 0 (stk p) = fst p" "out (Suc 0) (stk p) = snd p"
  by (simp_all add: stk_def out_def)

definition attr_answers :: "attrs \<Rightarrow> attrs \<Rightarrow> resp list" where
  "attr_answers e a =
     [cpus (affinity e), cpus (affinity a), val (detachstate e), val (detachstate a),
      val (guardsize e), val (guardsize a), val (inheritsched e), val (inheritsched a),
      val (schedparam e), val (schedparam a), val (schedpolicy e), val (schedpolicy a),
      val (scope e), val (scope a), stk (stack e), stk (stack a)]"

text \<open>A check that takes two answers: it returns if they agree, and ends the process if not.\<close>

definition decides :: "unit p2prog \<Rightarrow> resp \<Rightarrow> resp \<Rightarrow> bool \<Rightarrow> bool" where
  "decides p x y same \<longleftrightarrow>
     (\<forall>s lf rest. script s = x # y # rest \<longrightarrow> logfp s = Some lf \<longrightarrow>
       (\<exists>t. p s = (if same then Done () t else Exited 1 t) \<and> (same \<longrightarrow> script t = rest \<and> logfp t = Some lf)))"

lemma run_checks:
  assumes "\<forall>(p, x, y, b) \<in> set cs. decides p x y b"
    and "script s = concat (map (\<lambda>(p, x, y, b). [x, y]) cs) @ rest" and "logfp s = Some lf"
  shows "\<exists>t. block (map fst cs) s = (if \<forall>(p, x, y, b) \<in> set cs. b then Done () t else Exited 1 t) \<and>
    ((\<forall>(p, x, y, b) \<in> set cs. b) \<longrightarrow> script t = rest \<and> logfp t = Some lf)"
  using assms
proof (induction cs arbitrary: s)
  case Nil
  then show ?case by (simp add: return_def)
next
  case (Cons c cs)
  obtain p x y b where c: "c = (p, x, y, b)" by (cases c) auto
  let ?rs = "concat (map (\<lambda>(p, x, y, b). [x, y]) cs) @ rest"
  from Cons.prems c have "decides p x y b" and "script s = x # y # ?rs" by auto
  with Cons.prems(3) obtain t where t: "p s = (if b then Done () t else Exited 1 t)"
    and st: "b \<longrightarrow> script t = ?rs \<and> logfp t = Some lf" unfolding decides_def by blast
  show ?case
  proof (cases b)
    case True
    with Cons.IH [of t] Cons.prems(1) st c t show ?thesis by (simp add: andthen_def bind_def)
  next
    case False
    with t c show ?thesis by (auto simp: andthen_def bind_def)
  qed
qed

lemma decides_affinity: "decides (compare_affinity e a) (cpus b) (cpus c) (c = b)"
  by (auto simp: decides_def compare_affinity_def get_affinity_def get_attr_def prog_simps do_exit_def)

lemmas get_defs = get_detachstate_def get_guardsize_def get_inheritsched_def get_schedparam_def
  get_schedpolicy_def get_scope_def get_attr_def

lemma decides_ints:
  "decides (compare_detachstate tnum e a) (val v) (val w) (w = v)"
  "decides (compare_guardsize tnum e a) (val v) (val w) (w = v)"
  "decides (compare_inheritsched tnum e a) (val v) (val w) (w = v)"
  "decides (compare_schedparam tnum e a) (val v) (val w) (w = v)"
  "decides (compare_schedpolicy tnum e a) (val v) (val w) (w = v)"
  "decides (compare_scope tnum e a) (val v) (val w) (w = v)"
  by (auto simp: decides_def compare_ints_def get_defs prog_simps do_exit_def compare_detachstate_def
      compare_guardsize_def compare_inheritsched_def compare_schedparam_def compare_schedpolicy_def compare_scope_def)

lemma run_compare_stack:
  "script s = stk p # stk q # rest \<Longrightarrow> logfp s = Some lf \<Longrightarrow>
   \<exists>t. compare_stack tnum x y s = (if q = p then Done True t else Exited 1 t)"
  by (cases p; cases q) (auto simp: compare_stack_def get_stack_def prog_simps do_exit_def)

text \<open>
  When the getters answer for two attribute objects with the attributes \<open>e\<close> and \<open>a\<close>,
  \<open>compare_attr\<close> returns exactly when all of them agree, and otherwise ends the process with
  status 1.
\<close>

theorem compare_attr_decides:
  assumes "script s = attr_answers e a @ rest" and "logfp s = Some lf"
  shows "\<exists>t. compare_attr tnum x y s = (if a = e then Done True t else Exited 1 t)"
proof -
  define cs where "cs = [(compare_affinity x y, cpus (affinity e), cpus (affinity a), affinity a = affinity e),
    (compare_detachstate tnum x y, val (detachstate e), val (detachstate a), detachstate a = detachstate e),
    (compare_guardsize tnum x y, val (guardsize e), val (guardsize a), guardsize a = guardsize e),
    (compare_inheritsched tnum x y, val (inheritsched e), val (inheritsched a), inheritsched a = inheritsched e),
    (compare_schedparam tnum x y, val (schedparam e), val (schedparam a), schedparam a = schedparam e),
    (compare_schedpolicy tnum x y, val (schedpolicy e), val (schedpolicy a), schedpolicy a = schedpolicy e),
    (compare_scope tnum x y, val (scope e), val (scope a), scope a = scope e)]"
  define all where "all \<longleftrightarrow> (\<forall>(p, x, y, b) \<in> set cs. b)"
  let ?rs = "[stk (stack e), stk (stack a)] @ rest"
  have "\<forall>(p, x, y, b) \<in> set cs. decides p x y b" by (simp add: cs_def decides_affinity decides_ints)
  moreover have "script s = concat (map (\<lambda>(p, x, y, b). [x, y]) cs) @ ?rs"
    using assms(1) by (simp add: cs_def attr_answers_def)
  ultimately obtain t where t: "block (map fst cs) s = (if all then Done () t else Exited 1 t)"
    and st: "all \<longrightarrow> script t = ?rs \<and> logfp t = Some lf"
    unfolding all_def using run_checks [of cs s ?rs lf] assms(2) by blast
  have c: "compare_attr tnum x y s = andthen (block (map fst cs)) (compare_stack tnum x y) s"
    by (simp only: compare_attr_def cs_def list.map fst_conv)
  have eq: "a = e \<longleftrightarrow> all \<and> stack a = stack e" by (cases a, cases e) (auto simp: all_def cs_def)
  show ?thesis
  proof (cases all)
    case True
    with t c have "compare_attr tnum x y s = compare_stack tnum x y t" by (simp add: andthen_def bind_def)
    with True st eq run_compare_stack [of t "stack e" "stack a" rest lf tnum x y] show ?thesis by simp
  next
    case False
    with t c eq show ?thesis by (simp add: andthen_def bind_def)
  qed
qed

definition attrs0 :: attrs where
  "attrs0 = \<lparr>affinity = [NUL], detachstate = 0, guardsize = 4096, inheritsched = 0, schedparam = 0,
     schedpolicy = 0, scope = 0, stack = (8192, 65536)\<rparr>"

theorem compare_attr_decides_witness:
  "\<exists>t. compare_attr 0 1 2 (start (attr_answers attrs0 (attrs0\<lparr>stack := (8192, 69632)\<rparr>)) (Some 3) init_globals) = Exited 1 t"
proof -
  let ?a = "attrs0\<lparr>stack := (8192, 69632)\<rparr>"
  have "?a \<noteq> attrs0" by (simp add: attrs0_def)
  moreover have "\<exists>t. compare_attr 0 1 2 (start (attr_answers attrs0 ?a) (Some 3) init_globals) =
      (if ?a = attrs0 then Done True t else Exited 1 t)"
    by (rule compare_attr_decides [where rest = "[]" and lf = 3]) simp_all
  ultimately show ?thesis by simp
qed

section \<open>Ready for the checkpoint\<close>

definition nxt :: "nat \<Rightarrow> int \<Rightarrow> int list \<Rightarrow> nat \<Rightarrow> resp list \<Rightarrow> call option" where
  "nxt n rc tid_list i as =
     (if i < n then waits_in (do_work (int i) (start as (Some 3) init_globals))
      else waits_in (main_rest rc tid_list (start as (Some 3) init_globals)))"

lemma p2_main_first: "nxt n rc tid_list n [] = Some (Thread (BarrierWait ''barrier''))"
  by (simp add: nxt_def main_rest_def main_barrier_wait_def prog_simps)

interpretation p2: barrier_user "nxt n rc tid_list" n "\<lambda>_. Suc n" "''barrier''" for n rc tid_list
  by unfold_locales (simp_all add: p2_main_first)

text \<open>With its first two answers a thread comes to the barrier: its id and its attributes.\<close>

lemma nxt_worker_start:
  assumes "i < n" and "0 \<le> rv r"
  shows "nxt n rc tid_list i [] = Some (Thread PthreadSelf)"
    and "nxt n rc tid_list i [x] = Some (Thread (Getattr (rv x)))"
    and "nxt n rc tid_list i [x, r] = Some (Thread (BarrierWait ''barrier''))"
  using assms by (simp_all add: nxt_def do_work_def getattr_np_def barrier_wait_def prog_simps waits_in_def)

section \<open>What the main thread makes of the threads\<close>

text \<open>
  The main thread of pthread2 ends the process with status 0 if every thread left the status 0,
  and with 1 if one left another status.
\<close>

lemma main_status:
  assumes "script s = ok 0 # ok 0 # map joined vs @ rest" and "length tid_list = length vs" and "logfp s = Some lf"
  shows "\<exists>t. main_rest 0 tid_list s = Exited (if \<exists>v \<in> set vs. v \<noteq> 0 then 1 else 0) t"
proof -
  let ?u = "adv s [Got (Thread (BarrierWait ''barrier'')) (ok 0), Got_access CKPT_DRY_RUN (ok 0)] (map joined vs @ rest) 0"
  have "main_rest 0 tid_list s = bind (wait_for_threads 439 tid_list) (\<lambda>st. andthen (fprintf 546 [I st]) (do_exit st)) ?u"
    using assms(1,3) by (simp add: main_rest_def main_barrier_wait_def set_checkpoint_ready_def prog_simps)
  moreover obtain t where "wait_for_threads 439 tid_list ?u = Done (if \<exists>v \<in> set vs. v \<noteq> 0 then 1 else 0) t"
    and "logfp t = Some lf"
    using join_all_status [of ?u vs rest "zip [0..<length tid_list] tid_list" lf 439 0] assms
    by (auto simp: wait_for_threads_def)
  ultimately show ?thesis by (simp add: bind_def [of "wait_for_threads _ _"] prog_simps do_exit_def)
qed

end
