(* ===== verification/Pthread3.thy ===== *)
theory Pthread3
  imports Interleave
begin

text \<open>
  process-tree/pthread3.c: each thread records what the library says about it (its id, its
  thread-specific value, signal mask and scheduling parameters), waits for the restart, and
  compares with what the library says then.
\<close>

section \<open>Constants, data and globals\<close>

definition LOG_PREFIX :: string where "LOG_PREFIX = ''logs.d/pthread3''"
definition SIG_SETMASK :: int where "SIG_SETMASK = 2"

record thread_info =
  tid :: int
  concurrency :: int
  specific :: int
  sigmask :: string
  sched_policy :: int
  sched_priority :: int

record p3_globals =
  num_threads :: int

definition init_globals :: p3_globals where "init_globals = \<lparr>num_threads = 4\<rparr>"

type_synonym 'a p3prog = "(p3_globals, 'a) prog"

section \<open>The threads\<close>

definition set_thread_info :: "int \<Rightarrow> unit p3prog" where
  "set_thread_info tnum =
     bind (thr PthreadSelf) (\<lambda>self.
     bind (thr (Setspecific (rv self))) (\<lambda>r.
     if rv r < 0 then andthen (fprintf 47 [I tnum, I (rv r), I (er r)]) (do_exit 1)
     else return ()))"

text \<open>A structure that was set to zero and that the calls fill.\<close>

definition get_thread_info :: "int \<Rightarrow> thread_info p3prog" where
  "get_thread_info tnum =
     bind (sysv (Thread PthreadSelf)) (\<lambda>id.
     bind (sysv (Thread Getconcurrency)) (\<lambda>conc.
     bind (sysv (Thread Getspecific)) (\<lambda>spec.
     if spec \<noteq> id then andthen (fprintf 66 [I tnum, I id, I spec]) (do_exit 1)
     else bind (thr (Sigmask SIG_SETMASK)) (\<lambda>m.
     if rv m < 0 then andthen (fprintf 74 [I tnum, I (rv m), I (er m)]) (do_exit 1)
     else bind (sysv (Thread PthreadSelf)) (\<lambda>self.
     bind (thr (Getschedparam self)) (\<lambda>p.
     if rv p < 0 then andthen (fprintf 82 [I tnum, I (rv p), I (er p)]) (do_exit 1)
     else return \<lparr>tid = id, concurrency = conc, specific = spec, sigmask = rdat m,
            sched_policy = out 0 p, sched_priority = out 1 p\<rparr>))))))"

text \<open>A message for each field that differs; \<open>rc\<close> is set by any of them.\<close>

definition complain :: "bool \<Rightarrow> nat \<Rightarrow> arg list \<Rightarrow> unit p3prog" where
  "complain differs line args = (if differs then fprintf line args else return ())"

definition compare_thread_info :: "thread_info \<Rightarrow> thread_info \<Rightarrow> unit p3prog" where
  "compare_thread_info e a =
     (let rc = tid e \<noteq> tid a \<or> concurrency e \<noteq> concurrency a \<or> specific e \<noteq> specific a \<or>
            sigmask e \<noteq> sigmask a \<or> sched_policy e \<noteq> sched_policy a \<or> sched_priority e \<noteq> sched_priority a in
      andthen (block
        [complain (tid e \<noteq> tid a) 96 [I (tid e), I (tid a)],
         complain (concurrency e \<noteq> concurrency a) 103 [I (concurrency e), I (concurrency a)],
         complain (specific e \<noteq> specific a) 110 [I (specific e), I (specific a)],
         complain (sigmask e \<noteq> sigmask a) 117 [],
         complain (sched_policy e \<noteq> sched_policy a) 122 [I (sched_policy e), I (sched_policy a)],
         complain (sched_priority e \<noteq> sched_priority a) 130 [I (sched_priority e), I (sched_priority a)]])
        (if rc then do_exit 1 else return ()))"

text \<open>From the barrier on, with the information recorded before it.\<close>

definition check_after :: "int \<Rightarrow> thread_info \<Rightarrow> thread_exit p3prog" where
  "check_after tnum exp_tinfo =
     andthen wait_test_done (
     bind (get_thread_info tnum) (\<lambda>act_tinfo.
     andthen (block [compare_thread_info exp_tinfo act_tinfo, fprintf 184 [I tnum], flush_log])
       (return (Status 0))))"

definition get_ready :: "int \<Rightarrow> thread_info \<Rightarrow> thread_exit p3prog" where
  "get_ready tnum exp_tinfo =
     andthen (block [fprintf 154 [I tnum], flush_log, barrier_wait 163 ''barrier'' tnum])
       (check_after tnum exp_tinfo)"

definition do_work :: "int \<Rightarrow> thread_exit p3prog" where
  "do_work tnum = andthen (set_thread_info tnum) (bind (get_thread_info tnum) (get_ready tnum))"

section \<open>The main thread\<close>

definition create_key :: "unit p3prog" where
  "create_key =
     bind (thr KeyCreate) (\<lambda>r.
     if rv r < 0 then andthen (fprintf 198 [I (rv r), I (er r)]) (do_exit 1) else return ())"

definition alloc_thread_attr :: "int p3prog" where
  "alloc_thread_attr = Threads.alloc_thread_attr 204"

definition create_threads :: "int \<Rightarrow> int list p3prog" where
  "create_threads n = Threads.create_threads (237, 249, 257) (\<lambda>_.
     bind alloc_thread_attr (\<lambda>attr. if attr = 0 then do_exit 1 else return attr)) n"

definition wait_for_threads :: "int list \<Rightarrow> int p3prog" where
  "wait_for_threads tid_list = Threads.wait_for_threads 263 tid_list"

definition main_rest :: "int \<Rightarrow> int list \<Rightarrow> int p3prog" where
  "main_rest rc tid_list =
     andthen (block [main_barrier_wait 358 ''barrier'' rc, set_checkpoint_ready]) (
     bind (wait_for_threads tid_list) (\<lambda>st.
     andthen (fprintf 371 [I st]) (do_exit st)))"

definition main :: "string list \<Rightarrow> int p3prog" where
  "main argv =
     bind test_done (\<lambda>d.
     if d \<noteq> 0 then andthen (emit (Stdio (FprintfTo 2 300 [S TEST_DONE]))) (do_exit 1)
     else with_glob num_threads (\<lambda>n0.
     bind (num_threads_opt 31 argv (fst (getopt ''hn:'' (tl argv))) n0) (\<lambda>n.
     andthen (block [set_glob (\<lambda>g. g\<lparr>num_threads := n\<rparr>), open_log 314 (LOG_PREFIX @ ''.log'')]) (
     bind (thr (BarrierInit ''barrier'' (n + 1))) (\<lambda>b.
     if rv b < 0 then andthen (fprintf 337 [I (rv b), I (er b)]) (do_exit 1)
     else bind (thr (MutexInit ''dump_lock'')) (\<lambda>r.
     if rv r \<noteq> 0 then andthen (fprintf 344 [I (rv r), I (er r)]) (do_exit 1)
     else andthen create_key (
     bind (create_threads n) (\<lambda>tid_list.
     main_rest (rv r) tid_list))))))))"

section \<open>The verdict of a thread\<close>

text \<open>The answers that make up a piece of thread information.\<close>

definition info_answers :: "thread_info \<Rightarrow> resp list" where
  "info_answers ti =
     [ok (tid ti), ok (concurrency ti), ok (specific ti), \<lparr>rv = 0, er = 0, rdat = sigmask ti, outs = []\<rparr>,
      ok (tid ti), \<lparr>rv = 0, er = 0, rdat = [], outs = [sched_policy ti, sched_priority ti]\<rparr>]"

lemma run_get_thread_info:
  assumes "script s = info_answers ti @ rest" and "specific ti = tid ti" and "logfp s = Some lf"
  shows "\<exists>t. bind (get_thread_info tnum) k s = k ti t \<and> script t = rest \<and> logfp t = Some lf"
  using assms
  by (cases ti) (simp add: get_thread_info_def info_answers_def prog_simps out_def, rule exI, rule conjI, rule refl, simp)

lemma get_thread_info_rejects:
  assumes "script s = info_answers ti @ rest" and "specific ti \<noteq> tid ti" and "logfp s = Some lf"
  shows "\<exists>t. bind (get_thread_info tnum) k s = Exited 1 t"
  using assms by (simp add: get_thread_info_def info_answers_def prog_simps do_exit_def)

lemma compare_same: "bind (compare_thread_info e e) k s = k () s"
  by (simp add: compare_thread_info_def complain_def Let_def prog_simps)

lemma compare_differs:
  assumes "e \<noteq> a" and "logfp s = Some lf"
  shows "\<exists>t. \<forall>k. bind (compare_thread_info e a) k s = Exited 1 t"
proof -
  from assms(1) have "tid e \<noteq> tid a \<or> concurrency e \<noteq> concurrency a \<or> specific e \<noteq> specific a \<or> sigmask e \<noteq> sigmask a
      \<or> sched_policy e \<noteq> sched_policy a \<or> sched_priority e \<noteq> sched_priority a" by auto
  with assms(2) show ?thesis
    by (auto simp: compare_thread_info_def complain_def Let_def prog_simps do_exit_def)
qed

lemma do_work_to_barrier:
  assumes "script s = [ok (tid e), ok 0] @ info_answers e @ [ok 0] @ rest" and "specific e = tid e" and "logfp s = Some lf"
  shows "\<exists>t. do_work tnum s = check_after tnum e t \<and> script t = rest \<and> logfp t = Some lf"
proof -
  let ?s1 = "adv s [Got (Thread PthreadSelf) (ok (tid e)), Got (Thread (Setspecific (tid e))) (ok 0)]
    (tl (tl (script s))) 0"
  have "do_work tnum s = bind (get_thread_info tnum) (get_ready tnum) ?s1"
    using assms(1) by (simp add: do_work_def set_thread_info_def prog_simps)
  with run_get_thread_info [of ?s1 e "[ok 0] @ rest" lf tnum] assms
  obtain s2 where 2: "do_work tnum s = get_ready tnum e s2" and s2: "script s2 = [ok 0] @ rest" "logfp s2 = Some lf"
    by auto
  then show ?thesis by (simp add: get_ready_def barrier_wait_def prog_simps) (rule exI, rule conjI, rule refl, simp)
qed

text \<open>
  A thread of pthread3 whose calls succeed and that has seen the test done ends with
  status 0 exactly when everything the library says about it is as it was before; otherwise it
  ends the process with status 1.
\<close>

theorem thread_info_verdict:
  assumes "script s = [ok (tid e), ok 0] @ info_answers e @ [ok 0] @ ms @ f # info_answers a @ rest"
    and "specific e = tid e" and "\<forall>m \<in> set ms. rv m \<noteq> 0 \<and> er m = ENOENT" and "rv f = 0"
    and "logfp s = Some lf"
  shows "\<exists>t. do_work tnum s = (if a = e then Done (Status 0) t else Exited 1 t)"
proof -
  obtain s3 where 3: "do_work tnum s = check_after tnum e s3"
    and s3: "script s3 = ms @ f # info_answers a @ rest" "logfp s3 = Some lf"
    using do_work_to_barrier [OF assms(1,2,5)] by blast
  let ?s4 = "adv s3 (concat (map td_miss ms) @ [Got_access TEST_DONE f]) (info_answers a @ rest) (er f)"
  have 4: "check_after tnum e s3 = bind (get_thread_info tnum) (\<lambda>act_tinfo.
      andthen (block [compare_thread_info e act_tinfo, fprintf 184 [I tnum], flush_log]) (return (Status 0))) ?s4"
    unfolding check_after_def andthen_def by (rule td_polls [OF s3(1) assms(3,4)])
  have s4: "script ?s4 = info_answers a @ rest" "logfp ?s4 = Some lf" using s3(2) by simp_all
  show ?thesis
  proof (cases "specific a = tid a")
    case True
    from run_get_thread_info [OF s4(1) True s4(2), of tnum
        "\<lambda>act_tinfo. andthen (block [compare_thread_info e act_tinfo, fprintf 184 [I tnum], flush_log]) (return (Status 0))"]
    obtain s5 where "do_work tnum s =
        andthen (block [compare_thread_info e a, fprintf 184 [I tnum], flush_log]) (return (Status 0)) s5"
      and s5: "logfp s5 = Some lf" unfolding 3 4 by blast
    then have "do_work tnum s = bind (compare_thread_info e a)
        (\<lambda>_. andthen (block [fprintf 184 [I tnum], flush_log]) (return (Status 0))) s5"
      by (simp add: prog_simps)
    with s5 compare_differs [OF _ s5, of e a] show ?thesis
      by (cases "a = e") (auto simp: compare_same prog_simps)
  next
    case False
    with assms(2) have "a \<noteq> e" by auto
    with get_thread_info_rejects [OF s4(1) False s4(2)] 3 4 show ?thesis by simp
  qed
qed


definition ti0 :: thread_info where
  "ti0 = \<lparr>tid = 70, concurrency = 0, specific = 70, sigmask = [NUL], sched_policy = 0, sched_priority = 0\<rparr>"

theorem thread_info_verdict_witness:
  "\<exists>t. do_work 0 (start ([ok 70, ok 0] @ info_answers ti0 @ [ok 0] @ [failed ENOENT] @ ok 0 #
      info_answers (ti0\<lparr>sigmask := []\<rparr>)) (Some 3) init_globals) = Exited 1 t"
proof -
  have "ti0\<lparr>sigmask := []\<rparr> \<noteq> ti0" by (simp add: ti0_def)
  moreover have "\<exists>t. do_work 0 (start ([ok 70, ok 0] @ info_answers ti0 @ [ok 0] @ [failed ENOENT] @ ok 0 #
      info_answers (ti0\<lparr>sigmask := []\<rparr>)) (Some 3) init_globals) =
      (if ti0\<lparr>sigmask := []\<rparr> = ti0 then Done (Status 0) t else Exited 1 t)"
    by (rule thread_info_verdict [where ms = "[failed ENOENT]" and f = "ok 0" and rest = "[]" and lf = 3])
      (simp_all add: ti0_def)
  ultimately show ?thesis by simp
qed

section \<open>Ready for the checkpoint\<close>

definition nxt :: "nat \<Rightarrow> int \<Rightarrow> int list \<Rightarrow> nat \<Rightarrow> resp list \<Rightarrow> call option" where
  "nxt n rc tid_list i as =
     (if i < n then waits_in (do_work (int i) (start as (Some 3) init_globals))
      else waits_in (main_rest rc tid_list (start as (Some 3) init_globals)))"

lemma p3_main_first: "nxt n rc tid_list n [] = Some (Thread (BarrierWait ''barrier''))"
  by (simp add: nxt_def main_rest_def main_barrier_wait_def prog_simps)

interpretation p3: barrier_user "nxt n rc tid_list" n "\<lambda>_. Suc n" "''barrier''" for n rc tid_list
  by unfold_locales (simp_all add: p3_main_first)

text \<open>A thread comes to the barrier only with its information recorded.\<close>

fun not_barrier :: "event \<Rightarrow> bool" where
  "not_barrier (Pending (Thread (BarrierWait b))) = False"
| "not_barrier _ = True"

lemma not_barrier_do_exit: "only not_barrier (do_exit c)"
  unfolding do_exit_def by (auto intro!: only_intros split: option.split)

lemma not_barrier_set: "only not_barrier (set_thread_info tnum)"
  unfolding set_thread_info_def by (auto intro!: only_intros not_barrier_do_exit)

lemma not_barrier_get: "only not_barrier (get_thread_info tnum)"
  unfolding get_thread_info_def by (auto intro!: only_intros not_barrier_do_exit)

lemma appending_check_after: "appending (check_after tnum e)"
  unfolding check_after_def compare_thread_info_def complain_def get_thread_info_def Let_def
  by (auto intro!: append_intros td.appending_poll)

lemma get_thread_info_Done:
  "get_thread_info tnum s = Done ti t \<Longrightarrow> \<exists>x r. Got (Thread (Getschedparam x)) r \<in> set (trace t)"
  by (fastforce simp: get_thread_info_def prog_simps do_exit_def split: list.splits if_splits option.splits)

lemma appending_get_ready: "appending (get_ready tnum e)"
  unfolding get_ready_def barrier_wait_def by (auto intro!: append_intros appending_check_after)

lemma at_barrier_recorded:
  assumes "waits_in (do_work tnum s) = Some (Thread (BarrierWait b))" and "trace s = []"
  shows "\<exists>t x r. do_work tnum s = Blocked t \<and> Got (Thread (Getschedparam x)) r \<in> set (trace t)"
proof -
  let ?e = "Pending (Thread (BarrierWait b))"
  have app: "appending (bind (get_thread_info tnum) (get_ready tnum))"
    by (intro append_intros appending_get_ready only_appending [OF not_barrier_get])
  obtain t where t: "do_work tnum s = Blocked t" "?e \<in> set (trace t)"
    using waits_in_Blocked [OF assms(1)] by blast
  then have "?e \<in> set (since s (final (bind (set_thread_info tnum) (\<lambda>_. bind (get_thread_info tnum) (get_ready tnum)) s)))"
    using assms(2) by (simp add: do_work_def andthen_def since_def)
  then obtain u v where u: "set_thread_info tnum s = Done u v"
    and e: "?e \<in> set (since v (final (bind (get_thread_info tnum) (get_ready tnum) v)))"
    by (rule after_bind [OF _ not_barrier_set _ app]) auto
  from e obtain ti w where w: "get_thread_info tnum v = Done ti w"
    by (rule after_bind [OF _ not_barrier_get _ appending_get_ready]) auto
  have "get_ready tnum ti w = Blocked t" using u w t(1) by (simp add: do_work_def andthen_def bind_def)
  then have "grows w t" using appendingD [OF appending_get_ready, of w tnum ti] by simp
  then show ?thesis using get_thread_info_Done [OF w] t(1) by (fastforce simp: grows_def)
qed

text \<open>
  In every interleaving of the threads of pthread3, once the main thread is past its
  barrier, and so announces that the program is ready for its checkpoint, each thread has come
  to the barrier, and before that has recorded its information.
\<close>

theorem ready_after_recording:
  assumes "reach (nxt n rc tid_list) n (initial (\<lambda>_. Suc n)) c" and "ans c n \<noteq> []" and "i < n"
  shows "\<exists>m \<le> length (ans c i). \<exists>t x r. do_work (int i) (start (take m (ans c i)) (Some 3) init_globals) = Blocked t \<and>
    Got (Thread (Getschedparam x)) r \<in> set (trace t)"
proof -
  from p3.all_at_barrier [OF assms] obtain m where "m \<le> length (ans c i)"
    and "nxt n rc tid_list i (take m (ans c i)) = Some (Thread (BarrierWait ''barrier''))"
    by (auto simp: been_at_def)
  with assms(3) at_barrier_recorded show ?thesis by (fastforce simp: nxt_def)
qed

theorem ready_after_recording_witness:
  "\<exists>c. reach (nxt 1 0 [7]) 1 (initial (\<lambda>_. 2)) c \<and>
    (\<exists>m \<le> length (ans c 0). \<exists>t x r. do_work 0 (start (take m (ans c 0)) (Some 3) init_globals) = Blocked t \<and>
      Got (Thread (Getschedparam x)) r \<in> set (trace t))"
proof -
  let ?as = "[ok 70, ok 0] @ info_answers ti0"
  define N where "N = nxt 1 0 [7]"
  define c1 where "c1 = (initial (\<lambda>_. 2))\<lparr>ans := (ans (initial (\<lambda>_. 2)))(0 := ans (initial (\<lambda>_. 2)) 0 @ ?as)\<rparr>"
  define c2 where "c2 = arrive_at 1 ''barrier'' (arrive_at 0 ''barrier'' c1)"
  define c3 where "c3 = give 1 (ok 0) (wd c2) c2"
  have "\<forall>m < length ?as. \<exists>k. N 0 (ans (initial (\<lambda>_. 2)) 0 @ take m ?as) = Some k \<and> \<not> synchronising k"
    by (simp add: info_answers_def N_def nxt_def do_work_def set_thread_info_def get_thread_info_def prog_simps
        ti0_def All_less_Suc waits_in_def)
  then have "reach N 1 (initial (\<lambda>_. 2)) c1" unfolding c1_def by (intro reach_others reach.start) simp_all
  moreover have a: "ans c1 0 = ?as" "ans c1 (Suc 0) = []" by (simp_all add: c1_def)
  have "N 0 ?as = Some (Thread (BarrierWait ''barrier''))"
    by (simp add: info_answers_def N_def nxt_def do_work_def set_thread_info_def get_thread_info_def get_ready_def
        barrier_wait_def prog_simps ti0_def waits_in_def)
  ultimately have "reach N 1 (initial (\<lambda>_. 2)) (arrive_at 0 ''barrier'' c1)" by (intro reach.arrive) (simp_all add: a)
  then have "reach N 1 (initial (\<lambda>_. 2)) c2"
    unfolding c2_def by (rule reach.arrive) (simp_all add: a N_def p3_main_first)
  then have r: "reach N 1 (initial (\<lambda>_. 2)) c3"
    unfolding c3_def by (rule reach.pass [where b = "''barrier''"]) (simp_all add: c2_def c1_def N_def p3_main_first)
  then have "reach (nxt 1 0 [7]) 1 (initial (\<lambda>_. Suc 1)) c3" by (simp only: N_def Suc_1)
  from ready_after_recording [OF this, of 0]
  have "\<exists>m \<le> length (ans c3 0). \<exists>t x r. do_work 0 (start (take m (ans c3 0)) (Some 3) init_globals) = Blocked t \<and>
      Got (Thread (Getschedparam x)) r \<in> set (trace t)"
    by (simp add: c3_def)
  with r show ?thesis unfolding N_def by blast
qed

end
