(* ===== verification/Pthread4.thy ===== *)
theory Pthread4
  imports Interleave
begin

text \<open>
  process-tree/pthread4.c: one of several threads takes a mutex, and after the restart each
  thread tries again whether it is still taken. The status a thread leaves in \<open>tstatus\<close> is the
  result of its program.
\<close>

section \<open>Constants and globals\<close>

definition LOG_PREFIX :: string where "LOG_PREFIX = ''logs.d/pthread4''"
definition PTHREAD_MUTEX_ERRORCHECK :: int where "PTHREAD_MUTEX_ERRORCHECK = 2"

record p4_globals =
  num_threads :: int

definition init_globals :: p4_globals where "init_globals = \<lparr>num_threads = 4\<rparr>"

type_synonym 'a p4prog = "(p4_globals, 'a) prog"

section \<open>The threads\<close>

definition trylock :: "nat \<Rightarrow> int \<Rightarrow> (int \<Rightarrow> 'a p4prog) \<Rightarrow> 'a p4prog" where
  "trylock line tnum k =
     bind (thr (MutexTrylock ''mutex'')) (\<lambda>r.
     if rv r \<noteq> 0 \<and> rv r \<noteq> EBUSY
     then andthen (fprintf line [I tnum, I (rv r), I (er r)]) (do_exit 1)
     else k (rv r))"

text \<open>What is left of \<open>do_work\<close> after the second try.\<close>

definition finish :: "int \<Rightarrow> bool \<Rightarrow> int \<Rightarrow> thread_exit p4prog" where
  "finish tnum lock_acquired rc =
     andthen (block [fprintf 99 [I tnum], flush_log])
       (return (Status (of_bool (lock_acquired \<and> rc = 0))))"

definition release :: "int \<Rightarrow> bool \<Rightarrow> int \<Rightarrow> thread_exit p4prog" where
  "release tnum lock_acquired rc =
     andthen (if lock_acquired \<and> rc = 0 then fprintf 90 [I tnum, I rc, I (of_bool lock_acquired)] else return ()) (
     if lock_acquired \<or> rc = 0
     then bind (thr (MutexUnlock ''mutex'')) (\<lambda>_. finish tnum lock_acquired rc)
     else finish tnum lock_acquired rc)"

definition after_restart :: "int \<Rightarrow> bool \<Rightarrow> thread_exit p4prog" where
  "after_restart tnum lock_acquired = trylock 80 tnum (release tnum lock_acquired)"

definition wait_for_restart :: "int \<Rightarrow> bool \<Rightarrow> thread_exit p4prog" where
  "wait_for_restart tnum lock_acquired = andthen wait_test_done (after_restart tnum lock_acquired)"

definition get_ready :: "int \<Rightarrow> int \<Rightarrow> thread_exit p4prog" where
  "get_ready tnum rc =
     andthen (block [fprintf 58 [I tnum, I (of_bool (rc = 0))], flush_log,
       barrier_wait 67 ''cr_ready'' tnum]) (wait_for_restart tnum (rc = 0))"

definition do_work :: "int \<Rightarrow> thread_exit p4prog" where
  "do_work tnum =
     andthen (barrier_wait 42 ''threads_created'' tnum) (trylock 49 tnum (get_ready tnum))"

section \<open>The main thread\<close>

definition init_mutex :: "int p4prog" where
  "init_mutex =
     bind (thr MutexattrInit) (\<lambda>r.
     if rv r \<noteq> 0 then andthen (fprintf 175 [I (rv r), I (er r)]) (do_exit 1)
     else bind (thr (MutexattrSettype PTHREAD_MUTEX_ERRORCHECK)) (\<lambda>r.
     if rv r \<noteq> 0 then andthen (fprintf 182 [I (rv r), I (er r)]) (do_exit 1)
     else bind (thr (MutexInit ''mutex'')) (\<lambda>r.
     if rv r \<noteq> 0 then andthen (fprintf 193 [I (rv r), I (er r)]) (do_exit 1)
     else return (rv r))))"

definition barrier_init :: "nat \<Rightarrow> string \<Rightarrow> int \<Rightarrow> int p4prog" where
  "barrier_init line b n =
     bind (thr (BarrierInit b n)) (\<lambda>r.
     if rv r < 0 then andthen (fprintf line [I (rv r), I (er r)]) (do_exit 1) else return (rv r))"

text \<open>The two barriers \<open>main\<close> sets up: the second result is the \<open>rc\<close> it goes on with.\<close>

definition init_barriers :: "int \<Rightarrow> int p4prog" where
  "init_barriers n =
     bind (barrier_init 246 ''cr_ready'' (n + 1)) (\<lambda>_. barrier_init 253 ''threads_created'' n)"

definition create_threads :: "int \<Rightarrow> int list p4prog" where
  "create_threads n = Threads.create_threads (119, 128, 136) (\<lambda>_. return 0) n"

definition wait_for_threads :: "int list \<Rightarrow> int p4prog" where
  "wait_for_threads tid_list = Threads.wait_for_threads 142 tid_list"

text \<open>From the barrier on, with the ids of the threads and the stale \<open>rc\<close>.\<close>

definition main_rest :: "int \<Rightarrow> int list \<Rightarrow> int p4prog" where
  "main_rest rc tid_list =
     andthen (block [main_barrier_wait 267 ''cr_ready'' rc, set_checkpoint_ready]) (
     bind (wait_for_threads tid_list) (\<lambda>st.
     andthen (fprintf 280 [I st]) (do_exit st)))"

definition main :: "string list \<Rightarrow> int p4prog" where
  "main argv =
     bind test_done (\<lambda>d.
     if d \<noteq> 0 then andthen (emit (Stdio (FprintfTo 2 210 [S TEST_DONE]))) (do_exit 1)
     else with_glob num_threads (\<lambda>n0.
     bind (num_threads_opt 23 argv (fst (getopt ''hn:'' (tl argv))) n0) (\<lambda>n.
     andthen (block [set_glob (\<lambda>g. g\<lparr>num_threads := n\<rparr>), open_log 223 (LOG_PREFIX @ ''.log'')]) (
     bind (init_barriers n) (\<lambda>rc.
     bind init_mutex (\<lambda>_.
     bind (create_threads n) (\<lambda>tid_list.
     main_rest rc tid_list)))))))"

section \<open>The machine of a thread\<close>

datatype phase =
    Created | TryFirst | AtReady bool | Polling bool | TrySecond bool | Unlocking bool int
  | Finished bool int | Gone

fun call_of :: "phase \<Rightarrow> call option" where
  "call_of Created = Some (Thread (BarrierWait ''threads_created''))"
| "call_of TryFirst = Some (Thread (MutexTrylock ''mutex''))"
| "call_of (AtReady a) = Some (Thread (BarrierWait ''cr_ready''))"
| "call_of (Polling a) = Some (Unistd (Access TEST_DONE))"
| "call_of (TrySecond a) = Some (Thread (MutexTrylock ''mutex''))"
| "call_of (Unlocking a v) = Some (Thread (MutexUnlock ''mutex''))"
| "call_of (Finished a v) = None"
| "call_of Gone = None"

definition barrier_ok :: "resp \<Rightarrow> bool" where
  "barrier_ok r \<longleftrightarrow> rv r = 0 \<or> rv r = PTHREAD_BARRIER_SERIAL_THREAD"

fun delta :: "phase \<Rightarrow> resp \<Rightarrow> phase" where
  "delta Created r = (if barrier_ok r then TryFirst else Gone)"
| "delta TryFirst r = (if rv r \<noteq> 0 \<and> rv r \<noteq> EBUSY then Gone else AtReady (rv r = 0))"
| "delta (AtReady a) r = (if barrier_ok r then Polling a else Gone)"
| "delta (Polling a) r = (if rv r = 0 then TrySecond a else if er r = ENOENT then Polling a else Gone)"
| "delta (TrySecond a) r =
     (if rv r \<noteq> 0 \<and> rv r \<noteq> EBUSY then Gone
      else if a \<or> rv r = 0 then Unlocking a (rv r) else Finished a (rv r))"
| "delta (Unlocking a v) r = Finished a v"
| "delta (Finished a v) r = Finished a v"
| "delta Gone r = Gone"

fun K :: "int \<Rightarrow> phase \<Rightarrow> thread_exit p4prog" where
  "K tnum Created = do_work tnum"
| "K tnum TryFirst = trylock 49 tnum (get_ready tnum)"
| "K tnum (AtReady a) = andthen (barrier_wait 67 ''cr_ready'' tnum) (wait_for_restart tnum a)"
| "K tnum (Polling a) = wait_for_restart tnum a"
| "K tnum (TrySecond a) = after_restart tnum a"
| "K tnum (Unlocking a v) = bind (thr (MutexUnlock ''mutex'')) (\<lambda>_. finish tnum a v)"
| "K tnum (Finished a v) = finish tnum a v"
| "K tnum Gone = do_exit 1"

lemmas thread_defs = do_work_def get_ready_def wait_for_restart_def after_restart_def release_def
  barrier_wait_def trylock_def barrier_ok_def bind_do_exit run_sys_Cons wait_test_done_Cons

text \<open>One answer moves the program as it moves the machine.\<close>

lemma p4_move_on:
  assumes "logging s" and "script s = r # rs" and "call_of p = Some c"
  shows "\<exists>s'. K tnum p s = K tnum (delta p r) s' \<and> script s' = rs \<and> logging s'"
proof -
  obtain lf where lf: "logfp s = Some lf" using assms(1) by (auto simp: logging_def)
  have go: "\<exists>s'. f t = f s' \<and> script s' = rs \<and> logging s'" if "script t = rs" and "logging t"
    for f :: "p4_globals proc \<Rightarrow> (thread_exit, p4_globals proc) outcome" and t
    using that by blast
  note sim = thread_defs prog_simps Let_def
  show ?thesis
  proof (cases p)
    case Created
    then show ?thesis using assms(1,2) lf
      by (cases "rv r = 0"; cases "rv r = PTHREAD_BARRIER_SERIAL_THREAD") (simp add: sim del: run_sys; rule go; simp)+
  next
    case TryFirst
    then show ?thesis using assms(1,2) lf
      by (cases "rv r = 0"; cases "rv r = EBUSY") (simp add: sim del: run_sys; rule go; simp)+
  next
    case (AtReady a)
    then show ?thesis using assms(1,2) lf
      by (cases "rv r = 0"; cases "rv r = PTHREAD_BARRIER_SERIAL_THREAD") (simp add: sim del: run_sys; rule go; simp)+
  next
    case (Polling a)
    then show ?thesis using assms(1,2) lf
      by (cases "rv r = 0"; cases "er r = ENOENT") (simp add: sim del: run_sys; rule go; simp)+
  next
    case (TrySecond a)
    then show ?thesis using assms(1,2) lf
      by (cases "rv r = 0"; cases "rv r = EBUSY"; cases a) (simp add: sim del: run_sys; rule go; simp)+
  next
    case (Unlocking a v)
    then show ?thesis using assms(1,2) lf
      by (simp add: sim del: run_sys) (rule go; simp)
  qed (use assms(3) in simp_all)
qed

interpretation wm: machine "K tnum" delta call_of logging for tnum
proof
  fix s :: "p4_globals proc" and p c
  assume "logging s" and "script s = []" and "call_of p = Some c"
  then show "waits_in (K tnum p s) = Some c"
    by (cases p)
      (auto simp: logging_def do_work_def wait_for_restart_def after_restart_def run_wait_test_done prog_simps
        barrier_wait_def trylock_def)
next
  fix s :: "p4_globals proc" and r rs p c
  assume "logging s" and "script s = r # rs" and "call_of p = Some c"
  then show "\<exists>s'. K tnum p s = K tnum (delta p r) s' \<and> script s' = rs \<and> logging s'"
    by (rule p4_move_on)
next
  fix s :: "p4_globals proc" and p
  assume "logging s" and "call_of p = None"
  then show "waits_in (K tnum p s) = None"
    by (cases p) (auto simp: logging_def finish_def do_exit_def prog_simps)
next
  fix p r
  assume "call_of p = None"
  then show "delta p r = p" by (cases p) simp_all
qed

section \<open>All threads together\<close>

definition nxt :: "nat \<Rightarrow> int \<Rightarrow> int list \<Rightarrow> nat \<Rightarrow> resp list \<Rightarrow> call option" where
  "nxt n rc tid_list i as =
     (if i < n then waits_in (do_work (int i) (start as (Some 3) init_globals))
      else waits_in (main_rest rc tid_list (start as (Some 3) init_globals)))"

definition phase_of :: "resp list \<Rightarrow> phase" where
  "phase_of as = foldl delta Created as"

lemma phase_of_simps [simp]: "phase_of [] = Created" "phase_of (as @ [r]) = delta (phase_of as) r"
  by (simp_all add: phase_of_def)

lemma nxt_worker: "i < n \<Longrightarrow> nxt n rc tid_list i as = call_of (phase_of as)"
  using wm.waits [of "start as (Some 3) init_globals" "int i" Created]
  by (simp add: nxt_def phase_of_def logging_def)

text \<open>The main thread does not touch the mutex.\<close>

fun lock_free :: "event \<Rightarrow> bool" where
  "lock_free (Pending (Thread c)) \<longleftrightarrow> (case c of BarrierWait b \<Rightarrow> True | PthreadJoin t \<Rightarrow> True | _ \<Rightarrow> False)"
| "lock_free _ = True"

lemma lock_free_do_exit: "only lock_free (do_exit c)"
  unfolding do_exit_def by (auto intro!: only_intros split: option.split)

lemma lock_free_join_all: "only lock_free (join_all fl ts st)"
proof (induction ts arbitrary: st)
  case (Cons t ts)
  then show ?case by (cases t) (auto intro!: only_intros lock_free_do_exit)
qed (auto intro!: only_intros)

lemma lock_free_main_rest: "only lock_free (main_rest rc tid_list)"
  unfolding main_rest_def main_barrier_wait_def set_checkpoint_ready_def wait_for_threads_def Threads.wait_for_threads_def
  by (auto intro!: only_intros lock_free_do_exit lock_free_join_all)

lemma nxt_main:
  "nxt n rc tid_list n as = Some (Thread c) \<Longrightarrow> \<exists>b t. c = BarrierWait b \<or> c = PthreadJoin t"
  using waits_in_only [OF lock_free_main_rest, of rc tid_list "start as (Some 3) init_globals"]
  by (auto simp: nxt_def split: thread_call.splits)

text \<open>
  Between the first and the second try exactly the thread that got the lock has it; after the
  second try a thread that has it is about to give it back.
\<close>

fun holds :: "phase \<Rightarrow> bool" where
  "holds (AtReady a) = a"
| "holds (Polling a) = a"
| "holds (TrySecond a) = a"
| "holds (Unlocking a v) = True"
| "holds _ = False"

fun kept :: "phase \<Rightarrow> bool" where
  "kept (Unlocking a v) \<longleftrightarrow> (a \<longrightarrow> v \<noteq> 0)"
| "kept (Finished a v) \<longleftrightarrow> (a \<longrightarrow> v \<noteq> 0)"
| "kept _ = True"

fun finished :: "phase \<Rightarrow> bool" where
  "finished (Finished a v) = True"
| "finished _ = False"

definition lock_inv :: "nat \<Rightarrow> nat option \<Rightarrow> (nat \<Rightarrow> phase) \<Rightarrow> bool" where
  "lock_inv n ow ph \<longleftrightarrow>
     (\<forall>i<n. holds (ph i) \<longrightarrow> ow = Some i) \<and> (\<forall>i<n. kept (ph i)) \<and>
     (\<forall>h. ow = Some h \<longrightarrow> h < n \<and> (holds (ph h) \<or> ph h = Gone)) \<and>
     (ow = None \<longrightarrow> (\<forall>i<n. ph i \<in> {Created, TryFirst}) \<or> (\<exists>i<n. finished (ph i)))"

lemma call_of_simps:
  "call_of p = Some (Thread (BarrierWait b)) \<longleftrightarrow>
     p = Created \<and> b = ''threads_created'' \<or> (\<exists>a. p = AtReady a) \<and> b = ''cr_ready''"
  "call_of p = Some (Thread (MutexTrylock m)) \<longleftrightarrow> (p = TryFirst \<or> (\<exists>a. p = TrySecond a)) \<and> m = ''mutex''"
  "call_of p = Some (Thread (MutexUnlock m)) \<longleftrightarrow> (\<exists>a v. p = Unlocking a v) \<and> m = ''mutex''"
  "call_of p \<noteq> Some (Thread CondWait)" "call_of p \<noteq> Some (Thread CondSignal)"
  "call_of p = Some k \<Longrightarrow> \<not> synchronising k \<Longrightarrow> \<exists>a. p = Polling a"
  by (cases p; auto)+


lemma lock_invD:
  assumes "lock_inv n ow ph"
  shows "i < n \<Longrightarrow> holds (ph i) \<Longrightarrow> ow = Some i" and "i < n \<Longrightarrow> kept (ph i)"
    and "ow = Some h \<Longrightarrow> h < n \<and> (holds (ph h) \<or> ph h = Gone)"
    and "ow = None \<Longrightarrow> (\<forall>i<n. ph i \<in> {Created, TryFirst}) \<or> (\<exists>i<n. finished (ph i))"
  using assms unfolding lock_inv_def by blast+

text \<open>A thread that moves without changing the owner.\<close>

lemma lock_inv_move:
  assumes inv: "lock_inv n ow ph" and i: "i < n" and q: "kept q" "holds q = holds (ph i) \<or> q = Gone"
    and early: "ph i \<in> {Created, TryFirst} \<Longrightarrow> ow = None \<Longrightarrow> q \<in> {Created, TryFirst}"
    and late: "\<not> finished (ph i)" "ph i \<noteq> Gone"
  shows "lock_inv n ow (ph(i := q))"
  unfolding lock_inv_def
proof (intro conjI allI impI)
  fix j assume "j < n" and "holds ((ph(i := q)) j)"
  then show "ow = Some j" using lock_invD(1) [OF inv] q(2) by (cases "j = i") auto
next
  fix j assume "j < n"
  then show "kept ((ph(i := q)) j)" using lock_invD(2) [OF inv] q(1) by (cases "j = i") auto
next
  fix h assume "ow = Some h"
  then show "h < n" and "holds ((ph(i := q)) h) \<or> (ph(i := q)) h = Gone"
    using lock_invD(3) [OF inv] q(2) late by (cases "h = i"; auto)+
next
  assume None: "ow = None"
  from lock_invD(4) [OF inv None]
  show "(\<forall>j<n. (ph(i := q)) j \<in> {Created, TryFirst}) \<or> (\<exists>j<n. finished ((ph(i := q)) j))"
  proof
    assume "\<forall>j<n. ph j \<in> {Created, TryFirst}"
    with early i None show ?thesis by simp
  next
    assume "\<exists>j<n. finished (ph j)"
    then obtain j where "j < n" "finished (ph j)" by blast
    with late have "finished ((ph(i := q)) j)" by (cases "j = i") auto
    with \<open>j < n\<close> show ?thesis by blast
  qed
qed

lemma lock_inv_pass:
  assumes "lock_inv n ow ph" and "i < n" and "ph i = Created \<or> ph i = AtReady a" and "barrier_ok r"
  shows "lock_inv n ow (ph(i := delta (ph i) r))"
  using assms by (intro lock_inv_move) auto

lemma lock_inv_poll:
  assumes "lock_inv n ow ph" and "i < n" and "ph i = Polling a"
  shows "lock_inv n ow (ph(i := delta (ph i) r))"
  using assms by (intro lock_inv_move) auto

lemma lock_inv_trylock:
  assumes inv: "lock_inv n ow ph" and i: "i < n" and ph: "ph i = TryFirst \<or> ph i = TrySecond a"
    and tl: "try_lock i ow = (v, ow')"
  shows "lock_inv n ow' (ph(i := delta (ph i) (ok v)))"
proof (cases ow)
  case None
  with tl have v: "v = 0" "ow' = Some i" by (auto simp: try_lock_def)
  have "\<not> holds (ph j)" if "j < n" for j using lock_invD(1) [OF inv that] None by auto
  moreover from this [OF i] ph have "ph i = TryFirst \<or> ph i = TrySecond False" by (cases a) auto
  then have "holds (delta (ph i) (ok v))" "kept (delta (ph i) (ok v))" using v(1) by auto
  ultimately show ?thesis using lock_invD(2) [OF inv] v(2) i by (simp add: lock_inv_def)
next
  case (Some h)
  with tl have v: "v = EBUSY" "ow' = Some h" by (auto simp: try_lock_def)
  have "EBUSY \<noteq> 0" by (simp add: EBUSY_def)
  with v ph have "kept (delta (ph i) (ok v))" "holds (delta (ph i) (ok v)) = holds (ph i)" by (auto split: if_splits)
  with inv i ph Some v(2) show ?thesis by (simp only:) (rule lock_inv_move, auto)
qed

lemma lock_inv_unlock:
  assumes inv: "lock_inv n ow ph" and i: "i < n" and ph: "ph i = Unlocking a v"
    and un: "un_lock i ow = (w, ow')"
  shows "lock_inv n ow' (ph(i := delta (ph i) r))"
proof -
  have "ow = Some i" using lock_invD(1) [OF inv i] ph by simp
  with un have "ow' = None" by (simp add: un_lock_def)
  moreover have "\<not> holds (ph j)" if "j < n" "j \<noteq> i" for j
    using lock_invD(1) [OF inv that(1)] that(2) \<open>ow = Some i\<close> by auto
  moreover have "kept (Finished a v)" using lock_invD(2) [OF inv i] ph by simp
  ultimately show ?thesis using lock_invD(2) [OF inv] i ph unfolding lock_inv_def
    by (simp add: exI [of _ i])
qed

text \<open>The counts with which the calls of a trace initialise the barriers, and those of \<open>main\<close>.\<close>

fun barrier_counts :: "event list \<Rightarrow> string \<Rightarrow> nat" where
  "barrier_counts [] b = 0"
| "barrier_counts (Got (Thread (BarrierInit b' k)) r # es) b = (if b' = b then nat k else barrier_counts es b)"
| "barrier_counts (_ # es) b = barrier_counts es b"

definition limits :: "nat \<Rightarrow> string \<Rightarrow> nat" where
  "limits n =
     barrier_counts (trace (final (init_barriers (int n) (start [ok 0, ok 0] (Some 3) init_globals))))"

lemma limits_eq: "limits n ''cr_ready'' = Suc n" "limits n ''threads_created'' = n"
  by (simp_all add: limits_def init_barriers_def barrier_init_def prog_simps)

lemma phases_give:
  "(\<lambda>j. phase_of (ans (give i r w c) j)) = (\<lambda>j. phase_of (ans c j))(i := delta (phase_of (ans c i)) r)"
  by auto

lemma lock_inv_main: "lock_inv n ow (ph(n := p)) = lock_inv n ow ph"
  unfolding lock_inv_def by (cases ow) auto

lemma reach_lock_inv:
  assumes "reach (nxt n rc tid_list) n (initial (limits n)) c"
  shows "lock_inv n (owner (wd c) ''mutex'') (\<lambda>i. phase_of (ans c i))"
  using assms
proof induction
  case start
  then show ?case by (simp add: lock_inv_def)
next
  case (pass c i b r)
  show ?case
  proof (cases "i = n")
    case True
    with pass show ?thesis unfolding phases_give by (simp only: lock_inv_main give_sel)
  next
    case False
    with pass have i: "i < n" and b: "barrier_ok r" by (simp_all add: barrier_ok_def)
    with pass show ?thesis
      unfolding phases_give by (auto simp: nxt_worker call_of_simps simp del: delta.simps intro!: lock_inv_pass)
  qed
next
  case (trylock c i m v ow)
  then have i: "i < n" using nxt_main [of n rc tid_list] by (cases "i = n") auto
  with trylock show ?case
    unfolding phases_give by (auto simp: nxt_worker call_of_simps simp del: delta.simps intro!: lock_inv_trylock)
next
  case (unlock c i m v ow)
  then have i: "i < n" using nxt_main [of n rc tid_list] by (cases "i = n") auto
  with unlock show ?case
    unfolding phases_give by (auto simp: nxt_worker call_of_simps simp del: delta.simps intro!: lock_inv_unlock)
next
  case (sleep c i)
  then show ?case using nxt_main [of n rc tid_list] nxt_worker [of i n] call_of_simps(4) by (cases "i = n") auto
next
  case (wake c i)
  then show ?case using nxt_main [of n rc tid_list] nxt_worker [of i n] call_of_simps(4) by (cases "i = n") auto
next
  case (signal c i j)
  then show ?case using nxt_main [of n rc tid_list] nxt_worker [of i n] call_of_simps(5) by (cases "i = n") auto
next
  case (signal_lost c i)
  then show ?case using nxt_main [of n rc tid_list] nxt_worker [of i n] call_of_simps(5) by (cases "i = n") auto
next
  case (other c i k r)
  show ?case
  proof (cases "i = n")
    case True
    with other show ?thesis unfolding phases_give by (simp only: lock_inv_main give_sel)
  next
    case False
    with other have i: "i < n" by simp
    with other call_of_simps(6) obtain a where "phase_of (ans c i) = Polling a" by (auto simp: nxt_worker)
    then show ?thesis unfolding phases_give using lock_inv_poll [OF other.IH i, of a r] by simp
  qed
qed simp


text \<open>The main thread starts at the barrier, which lets it pass when all threads have come.\<close>

lemma p4_main_first: "nxt n rc tid_list n [] = Some (Thread (BarrierWait ''cr_ready''))"
  by (simp add: nxt_def main_rest_def main_barrier_wait_def prog_simps)

interpretation p4: barrier_user "nxt n rc tid_list" n "limits n" "''cr_ready''" for n rc tid_list
  by unfold_locales (simp_all add: p4_main_first limits_eq)

fun rank :: "phase \<Rightarrow> nat" where
  "rank Created = 0"
| "rank TryFirst = 1"
| "rank (AtReady a) = 2"
| "rank (Polling a) = 3"
| "rank (TrySecond a) = 4"
| "rank (Unlocking a v) = 5"
| "rank (Finished a v) = 6"
| "rank Gone = 7"

lemma rank_delta: "rank p \<le> rank (delta p r)"
  by (cases p) auto

lemma rank_foldl: "rank p \<le> rank (foldl delta p as)"
  by (induction as arbitrary: p) (auto intro: order_trans [OF rank_delta])

lemma been_at_rank:
  assumes "been_at (nxt n rc tid_list) ''cr_ready'' i as" and "i < n"
  shows "2 \<le> rank (phase_of as)"
proof -
  from assms obtain m a where "phase_of (take m as) = AtReady a"
    by (auto simp: been_at_def nxt_worker call_of_simps)
  then have "phase_of as = foldl delta (AtReady a) (drop m as)"
    unfolding phase_of_def by (metis append_take_drop_id foldl_append)
  with rank_foldl [of "AtReady a"] show ?thesis by simp
qed

text \<open>A thread that has come to the second barrier has had an answer to its first try.\<close>

lemma appending_p4_get_ready: "appending (get_ready tnum rc)"
  unfolding get_ready_def wait_for_restart_def after_restart_def trylock_def release_def finish_def barrier_wait_def
  by (intro append_intros td.appending_poll)

lemma do_work_tries:
  assumes "phase_of (take m as) = AtReady a"
  shows "\<exists>r. Got (Thread (MutexTrylock ''mutex'')) r \<in>
    set (trace (final (do_work (int i) (start as (Some 3) init_globals))))"
proof -
  have gone: "foldl delta Gone bs = Gone" for bs by (induction bs) simp_all
  from assms obtain r1 r2 bs where as: "as = r1 # r2 # bs" and ok: "barrier_ok r1" "rv r2 = 0 \<or> rv r2 = EBUSY"
    by (cases as; cases m; cases "tl as"; cases "m - 1")
      (auto simp: phase_of_def gone split: if_splits)
  let ?s = "start as (Some 3) init_globals"
  let ?u = "adv ?s [Got (Thread (BarrierWait ''threads_created'')) r1, Got (Thread (MutexTrylock ''mutex'')) r2] bs (er r2)"
  have "do_work (int i) ?s = get_ready (int i) (rv r2) ?u"
    using ok by (auto simp: do_work_def barrier_wait_def trylock_def barrier_ok_def as prog_simps)
  moreover have "grows ?u (final (get_ready (int i) (rv r2) ?u))" by (rule appendingD [OF appending_p4_get_ready])
  ultimately show ?thesis by (auto simp: grows_def intro!: exI [of _ r2])
qed

text \<open>
  \<^bold>\<open>C19.\<close> When the main thread is past its barrier, and so announces that the program is ready for
  its checkpoint, every thread has tried the mutex; and as long as no thread has seen that the
  test is done, exactly one thread has the mutex, the one whose first try succeeded. This holds in
  every interleaving and for every number of threads, with the barriers as \<open>main\<close> initialises them.
\<close>

theorem ready_with_one_holder:
  assumes "reach (nxt n rc tid_list) n (initial (limits n)) c" and "0 < n" and "ans c n \<noteq> []"
  shows "(\<forall>i<n. \<exists>r. Got (Thread (MutexTrylock ''mutex'')) r \<in>
      set (trace (final (do_work (int i) (start (ans c i) (Some 3) init_globals))))) \<and>
    ((\<forall>i<n. rank (phase_of (ans c i)) \<le> rank (Polling True)) \<longrightarrow>
      (\<exists>!h. h < n \<and> owner (wd c) ''mutex'' = Some h \<and> phase_of (ans c h) \<in> {AtReady True, Polling True}))"
proof (intro conjI allI impI)
  fix i
  assume i: "i < n"
  from p4.all_at_barrier [OF assms(1,3) i] i obtain m a where "phase_of (take m (ans c i)) = AtReady a"
    by (auto simp: been_at_def nxt_worker call_of_simps)
  then show "\<exists>r. Got (Thread (MutexTrylock ''mutex'')) r \<in>
      set (trace (final (do_work (int i) (start (ans c i) (Some 3) init_globals))))"
    by (rule do_work_tries)
next
  assume early: "\<forall>i<n. rank (phase_of (ans c i)) \<le> rank (Polling True)"
  let ?ph = "\<lambda>i. phase_of (ans c i)"
  have inv: "lock_inv n (owner (wd c) ''mutex'') ?ph" using assms(1) by (rule reach_lock_inv)
  have "2 \<le> rank (?ph i)" if "i < n" for i
    using p4.all_at_barrier [OF assms(1,3) that] that by (rule been_at_rank)
  with early have ph: "\<exists>a. ?ph i = AtReady a \<or> ?ph i = Polling a" if "i < n" for i
    using that by (cases "?ph i") fastforce+
  have "\<not> (\<forall>i<n. ?ph i \<in> {Created, TryFirst})" using ph [OF assms(2)] assms(2) by auto
  moreover have "\<not> (\<exists>i<n. finished (?ph i))" using ph by fastforce
  ultimately obtain h where h: "owner (wd c) ''mutex'' = Some h"
    using lock_invD(4) [OF inv] by (cases "owner (wd c) ''mutex''") blast+
  with lock_invD(3) [OF inv h] ph [of h] have "h < n \<and> ?ph h \<in> {AtReady True, Polling True}" by auto
  with h show "\<exists>!h. h < n \<and> owner (wd c) ''mutex'' = Some h \<and> ?ph h \<in> {AtReady True, Polling True}"
    by (intro ex1I [of _ h]) auto
qed

text \<open>
  \<^bold>\<open>C20.\<close> If the restart keeps the mutex, every thread that finishes reports status 0, in every
  interleaving of the threads and whatever the other calls answer.
\<close>

theorem kept_lock_passes:
  assumes "reach (nxt n rc tid_list) n (initial (limits n)) c" and "i < n"
    and "do_work (int i) (start (ans c i) (Some 3) init_globals) = Done st t"
  shows "st = Status 0"
proof -
  let ?p = "phase_of (ans c i)"
  from wm.run [of "start (ans c i) (Some 3) init_globals" "int i" Created]
  obtain s' where "do_work (int i) (start (ans c i) (Some 3) init_globals) = K (int i) ?p s'" and "logging s'"
    and "call_of ?p \<noteq> None \<longrightarrow> script s' = []"
    by (auto simp: phase_of_def logging_def)
  with assms(3) have d: "K (int i) ?p s' = Done st t" by simp
  have "call_of ?p = None"
  proof (rule ccontr)
    assume "call_of ?p \<noteq> None"
    then obtain k where "call_of ?p = Some k" by auto
    with wm.block [OF \<open>logging s'\<close> _ this] \<open>call_of ?p \<noteq> None \<longrightarrow> script s' = []\<close>
    have "waits_in (K (int i) ?p s') = Some k" by auto
    with d show False by simp
  qed
  moreover have "kept ?p" using lock_invD(2) [OF reach_lock_inv [OF assms(1)] assms(2)] .
  ultimately show ?thesis
    using d by (cases ?p) (auto simp: finish_def do_exit_def prog_simps split: if_splits option.splits)
qed


lemma done_status:
  "do_work (int i) (start [ok 0, ok v, ok 0, ok 0, ok w, ok u] (Some 3) init_globals) =
     Done (Status (of_bool (v = 0 \<and> w = 0))) (final (do_work (int i) (start [ok 0, ok v, ok 0, ok 0, ok w, ok u] (Some 3) init_globals)))"
  if "v = 0 \<or> v = EBUSY" "w = 0 \<or> w = EBUSY" "v = 0 \<or> w = 0"
proof -
  let ?s = "start [ok 0, ok v, ok 0, ok 0, ok w, ok u] (Some 3) init_globals"
  from wm.run [of ?s "int i" Created]
  obtain s' where "do_work (int i) ?s = K (int i) (foldl delta Created (script ?s)) s'" and "logging s'"
    by (auto simp: logging_def)
  moreover have "foldl delta Created (script ?s) = Finished (v = 0) w"
    using that by (auto simp: barrier_ok_def)
  ultimately show ?thesis by (auto simp: finish_def prog_simps logging_def)
qed

text \<open>A run of one thread and the main one, for closed examples.\<close>

lemma one_thread_run:
  defines "N \<equiv> nxt 1 0 [7]"
  defines "c1 \<equiv> arrive_at 0 ''threads_created'' (initial (limits 1))"
  defines "c2 \<equiv> give 0 (ok 0) (wd c1) c1"
  defines "c3 \<equiv> give 0 (ok 0) ((wd c2)\<lparr>owner := (owner (wd c2))(''mutex'' := Some 0)\<rparr>) c2"
  defines "c4 \<equiv> arrive_at 1 ''cr_ready'' (arrive_at 0 ''cr_ready'' c3)"
  defines "c5 \<equiv> give 1 (ok 0) (wd c4) c4"
  shows "reach N 1 (initial (limits 1)) c5" and "ans c5 0 = [ok 0, ok 0]" and "ans c5 1 = [ok 0]"
    and "arrived (wd c5) ''cr_ready'' = {0, 1}" and "limit (wd c5) = limits 1" and "owner (wd c5) ''mutex'' = Some 0"
proof -
  have s1: "reach N 1 (initial (limits 1)) c1"
    unfolding c1_def N_def by (rule reach.arrive [OF reach.start]) (simp_all add: nxt_worker)
  have s2: "reach N 1 (initial (limits 1)) c2"
    unfolding c2_def by (rule reach.pass [OF s1, where b = "''threads_created''"])
      (simp_all add: N_def nxt_worker c1_def limits_eq)
  have a2: "ans c2 0 = [ok 0]" "ans c2 (Suc 0) = []" by (simp_all add: c2_def c1_def)
  have s3: "reach N 1 (initial (limits 1)) c3"
    unfolding c3_def by (rule reach.trylock [OF s2])
      (simp_all add: N_def nxt_worker a2 phase_of_def barrier_ok_def c2_def c1_def try_lock_def)
  have a3: "ans c3 0 = [ok 0, ok 0]" "ans c3 (Suc 0) = []" by (simp_all add: c3_def a2)
  have "reach N 1 (initial (limits 1)) (arrive_at 0 ''cr_ready'' c3)"
    by (rule reach.arrive [OF s3]) (simp_all add: N_def nxt_worker a3 barrier_ok_def phase_of_def)
  then have s4: "reach N 1 (initial (limits 1)) c4"
    unfolding c4_def by (rule reach.arrive) (simp_all add: N_def a3 p4_main_first)
  show "reach N 1 (initial (limits 1)) c5"
    unfolding c5_def by (rule reach.pass [OF s4, where b = "''cr_ready''"])
      (simp_all add: c4_def a3 N_def p4_main_first limits_eq c3_def c2_def c1_def)
  show "ans c5 0 = [ok 0, ok 0]" "ans c5 1 = [ok 0]" by (simp_all add: c5_def c4_def a3)
  show "arrived (wd c5) ''cr_ready'' = {0, 1}" "limit (wd c5) = limits 1" "owner (wd c5) ''mutex'' = Some 0"
    by (auto simp: c5_def c4_def c3_def c2_def c1_def)
qed

theorem ready_with_one_holder_witness:
  "\<exists>c. reach (nxt 1 0 [7]) 1 (initial (limits 1)) c \<and> ans c 1 \<noteq> [] \<and>
    (\<exists>r. Got (Thread (MutexTrylock ''mutex'')) r \<in>
      set (trace (final (do_work 0 (start (ans c 0) (Some 3) init_globals))))) \<and>
    (\<exists>!h. h < 1 \<and> owner (wd c) ''mutex'' = Some h \<and> phase_of (ans c h) \<in> {AtReady True, Polling True})"
proof -
  obtain c where c: "reach (nxt 1 0 [7]) 1 (initial (limits 1)) c" "ans c 0 = [ok 0, ok 0]" "ans c 1 = [ok 0]"
    using one_thread_run by blast
  have "phase_of (ans c 0) = AtReady True" using c(2) by (simp add: phase_of_def barrier_ok_def)
  with ready_with_one_holder [OF c(1)] c show ?thesis by (intro exI [of _ c]) auto
qed


theorem kept_lock_passes_witness:
  "\<exists>c t. reach (nxt 1 0 [7]) 1 (initial (limits 1)) c \<and>
    do_work 0 (start (ans c 0) (Some 3) init_globals) = Done (Status 0) t"
proof -
  obtain c where c: "reach (nxt 1 0 [7]) 1 (initial (limits 1)) c" and a: "ans c 0 = [ok 0, ok 0]"
    and w: "arrived (wd c) ''cr_ready'' = {0, 1}" "limit (wd c) = limits 1" "owner (wd c) ''mutex'' = Some 0"
    using one_thread_run by blast
  define c1 where "c1 = give 0 (ok 0) (wd c) c"
  define c2 where "c2 = give 0 (ok 0) (wd c1) c1"
  define c3 where "c3 = give 0 (ok EBUSY) ((wd c2)\<lparr>owner := (owner (wd c2))(''mutex'' := Some 0)\<rparr>) c2"
  define c4 where "c4 = give 0 (ok 0) ((wd c3)\<lparr>owner := (owner (wd c3))(''mutex'' := None)\<rparr>) c3"
  have E: "EBUSY \<noteq> 0" by (simp add: EBUSY_def)
  note sim = nxt_worker phase_of_def barrier_ok_def a w limits_eq
  have "reach (nxt 1 0 [7]) 1 (initial (limits 1)) c1"
    unfolding c1_def by (rule reach.pass [OF c, where b = "''cr_ready''"]) (simp_all add: sim)
  then have "reach (nxt 1 0 [7]) 1 (initial (limits 1)) c2"
    unfolding c2_def by (rule reach.other [where k = "Unistd (Access TEST_DONE)"]) (simp_all add: sim c1_def)
  then have "reach (nxt 1 0 [7]) 1 (initial (limits 1)) c3"
    unfolding c3_def by (rule reach.trylock) (simp_all add: sim c1_def c2_def try_lock_def)
  then have r: "reach (nxt 1 0 [7]) 1 (initial (limits 1)) c4"
    unfolding c4_def by (rule reach.unlock) (simp_all add: sim c1_def c2_def c3_def un_lock_def E)
  have "ans c4 0 = [ok 0, ok 0, ok 0, ok 0, ok EBUSY, ok 0]" by (simp add: c4_def c3_def c2_def c1_def a)
  with done_status [of 0 EBUSY 0 0] obtain st t
    where d: "do_work (int 0) (start (ans c4 0) (Some 3) init_globals) = Done st t" by auto
  with kept_lock_passes [OF r _ d] r show ?thesis by auto
qed

text \<open>Two threads that saw the end of the test, after a restart that lost the mutex of the first one.\<close>

definition mutex_lost :: config where
  "mutex_lost = (initial (limits 2))\<lparr>ans := (\<lambda>_. [])(0 := [ok 0, ok 0, ok 0, ok 0], 1 := [ok 0, ok EBUSY, ok 0, ok 0])\<rparr>"

text \<open>
  \<^bold>\<open>C21.\<close> If the restart loses the mutex the test can still pass: with two threads there is an
  interleaving after the restart, in which the thread that did not have the mutex takes it
  before the one that had it tries again, and both report status 0.
\<close>

theorem lost_lock_can_pass:
  "\<exists>c t u. reach (nxt 2 0 [7, 8]) 2 mutex_lost c \<and>
    do_work 0 (start (ans c 0) (Some 3) init_globals) = Done (Status 0) t \<and>
    do_work 1 (start (ans c 1) (Some 3) init_globals) = Done (Status 0) u"
proof -
  let ?own = "\<lambda>x c. (wd c)\<lparr>owner := (owner (wd c))(''mutex'' := x)\<rparr>"
  have E: "EBUSY \<noteq> 0" by (simp add: EBUSY_def)
  define c1 where "c1 = give 1 (ok 0) (?own (Some 1) mutex_lost) mutex_lost"
  define c2 where "c2 = give 0 (ok EBUSY) (?own (Some 1) c1) c1"
  define c3 where "c3 = give 0 (ok EPERM) (?own (Some 1) c2) c2"
  define c4 where "c4 = give 1 (ok 0) (?own None c3) c3"
  have a: "ans mutex_lost 0 = [ok 0, ok 0, ok 0, ok 0]" "ans mutex_lost (Suc 0) = [ok 0, ok EBUSY, ok 0, ok 0]" "owner (wd mutex_lost) ''mutex'' = None"
    by (simp_all add: mutex_lost_def)
  note sim = nxt_worker phase_of_def barrier_ok_def try_lock_def un_lock_def E
  have "reach (nxt 2 0 [7, 8]) 2 mutex_lost c1"
    unfolding c1_def by (rule reach.trylock [OF reach.start]) (simp_all add: sim a)
  then have "reach (nxt 2 0 [7, 8]) 2 mutex_lost c2"
    unfolding c2_def by (rule reach.trylock) (simp_all add: sim a c1_def)
  then have "reach (nxt 2 0 [7, 8]) 2 mutex_lost c3"
    unfolding c3_def by (rule reach.unlock) (simp_all add: sim a c2_def c1_def)
  then have "reach (nxt 2 0 [7, 8]) 2 mutex_lost c4"
    unfolding c4_def by (rule reach.unlock) (simp_all add: sim a c3_def c2_def c1_def)
  moreover have "ans c4 0 = [ok 0, ok 0, ok 0, ok 0, ok EBUSY, ok EPERM]"
    "ans c4 (Suc 0) = [ok 0, ok EBUSY, ok 0, ok 0, ok 0, ok 0]"
    by (simp_all add: c4_def c3_def c2_def c1_def a)
  then have "\<exists>t. do_work 0 (start (ans c4 0) (Some 3) init_globals) = Done (Status 0) t"
    and "\<exists>t. do_work 1 (start (ans c4 1) (Some 3) init_globals) = Done (Status 0) t"
    using done_status [of 0 EBUSY 0 EPERM] done_status [of EBUSY 0 1 0] E by auto
  ultimately show ?thesis by blast
qed

end
