(* ===== verification/Libfutex.thy ===== *)
theory Libfutex
  imports Answers Interleave Labels
begin

text \<open>
  futex/libfutex: the atomic operations of atomic.h, \<open>futex\<close> and \<open>alloc_futex_mem\<close>, and the log
  macro of libcrtest/log.h with its lock. An atomic variable is named by a number, and an operation
  on it is a call that is answered from the memory the threads share; none of them changes errno.
  The last part gives the steps of threads that share such variables.
\<close>

section \<open>atomic.h and libfutex.h\<close>

text \<open>A call that takes an answer and leaves errno as it is.\<close>

definition atom :: "call \<Rightarrow> ('g, int) prog" where
  "atom c s =
     (case script s of
        [] \<Rightarrow> Blocked (adv s [Pending c] [] (errno s))
      | r # rs \<Rightarrow> Done (rv r) (adv s [Got c r] rs (errno s)))"

lemma run_atom [prog_simps]:
  "bind (atom c) f s =
     (case script s of [] \<Rightarrow> Blocked (adv s [Pending c] [] (errno s))
      | r # rs \<Rightarrow> f (rv r) (adv s [Got c r] rs (errno s)))"
  by (simp add: bind_def atom_def split: list.split)

lemma run_atom_Cons: "script s = r # rs \<Longrightarrow> bind (atom c) f s = f (rv r) (adv s [Got c r] rs (errno s))"
  by (simp add: run_atom)

lemma shrinking_atom [shrink_intros]: "shrinking (atom c)"
  by (auto simp: shrinking_def atom_def split: list.splits)

lemma consuming_atom: "consuming (atom c)"
  by (auto simp: consuming_def atom_def split: list.splits)

lemma appending_atom [append_intros]: "appending (atom c)"
  by (simp add: appending_def atom_def grows_def split: list.split)

lemma only_atom [only_intros]: "(\<And>r. Q (Got c r)) \<Longrightarrow> Q (Pending c) \<Longrightarrow> only Q (atom c)"
  by (simp add: only_def append_intros atom_def split: list.split)

lemma steady_atom [steady_intros]: "steady (atom c)"
  by (auto simp: steady_def goes_on_def idle_def atom_def adv_more split: list.split)

definition atomic_read :: "nat \<Rightarrow> ('g, int) prog" where
  "atomic_read v = atom (Atomic (AtomicRead v))"

definition atomic_set :: "nat \<Rightarrow> int \<Rightarrow> ('g, unit) prog" where
  "atomic_set v val = bind (atom (Atomic (AtomicSet v val))) (\<lambda>_. return ())"

definition atomic_inc :: "nat \<Rightarrow> ('g, unit) prog" where
  "atomic_inc v = bind (atom (Atomic (AtomicInc v))) (\<lambda>_. return ())"

definition atomic_cmpxchg :: "nat \<Rightarrow> int \<Rightarrow> int \<Rightarrow> ('g, int) prog" where
  "atomic_cmpxchg v old new = atom (Atomic (AtomicCmpxchg v old new))"

definition gettid :: "('g, int) prog" where
  "gettid = atom (Proc Getpid)"

definition FUTEX_WAIT :: int where "FUTEX_WAIT = 0"
definition FUTEX_WAKE :: int where "FUTEX_WAKE = 1"
definition FUTEX_LOCK_PI :: int where "FUTEX_LOCK_PI = 6"
definition FUTEX_UNLOCK_PI :: int where "FUTEX_UNLOCK_PI = 7"

definition futex :: "nat \<Rightarrow> int \<Rightarrow> int \<Rightarrow> ('g, resp) prog" where
  "futex uaddr op val = sys (Atomic (Futex uaddr op val))"

lemmas atomic_defs = atomic_read_def atomic_set_def atomic_inc_def atomic_cmpxchg_def gettid_def futex_def

definition PROT_SEM :: int where "PROT_SEM = 8"

text \<open>The address of page-aligned memory with the access a futex needs, or 0.\<close>

definition alloc_futex_mem :: "int \<Rightarrow> ('g, int) prog" where
  "alloc_futex_mem sz =
     bind (sysv (Libc ''sysconf'' [S ''_SC_PAGE_SIZE''])) (\<lambda>pagesize.
     if pagesize = -1 then return 0
     else bind (sysv (Libc ''memalign'' [I pagesize, I sz])) (\<lambda>p.
     if p = 0 then return 0
     else bind (sysv (Libc ''mprotect'' [I p, I sz, I (3 OR PROT_SEM)])) (\<lambda>rc.
     if rc = 0 then return p
     else andthen (emit (Proc (Free p))) (return 0))))"

section \<open>The log with its lock\<close>

definition LOG_LOCK :: nat where "LOG_LOCK = 0"

definition lock_body :: "int \<Rightarrow> unit \<Rightarrow> ('g, unit + unit) prog" where
  "lock_body tid _ = bind (atomic_cmpxchg LOG_LOCK 0 tid) (\<lambda>v. return (if v \<noteq> 0 then Inl () else Inr ()))"

definition lock_log :: "int \<Rightarrow> ('g, unit) prog" where
  "lock_log tid = loop (lock_body tid) ()"

definition unlock_body :: "int \<Rightarrow> unit \<Rightarrow> ('g, unit + unit) prog" where
  "unlock_body tid _ = bind (atomic_cmpxchg LOG_LOCK tid 0) (\<lambda>v. return (if v \<noteq> tid then Inl () else Inr ()))"

definition unlock_log :: "int \<Rightarrow> ('g, unit) prog" where
  "unlock_log tid = loop (unlock_body tid) ()"

definition log_safe :: "tag \<Rightarrow> nat \<Rightarrow> arg list \<Rightarrow> ('g, unit) prog" where
  "log_safe tg n args = bind gettid (\<lambda>tid. block [lock_log tid, log_msg tg n args, unlock_log tid])"

definition log_error_safe :: "nat \<Rightarrow> string \<Rightarrow> ('g, unit) prog" where
  "log_error_safe n what = bind (gets errno) (\<lambda>e. log_safe FAIL n [S what, I e])"

interpretation ll: script_loop "lock_body tid" for tid
  by (rule script_loopI) (auto simp: lock_body_def atomic_defs intro!: consuming_bind consuming_atom shrink_intros)

interpretation ul: script_loop "unlock_body tid" for tid
  by (rule script_loopI) (auto simp: unlock_body_def atomic_defs intro!: consuming_bind consuming_atom shrink_intros)

text \<open>One turn of the two loops.\<close>

lemma lock_log_turn:
  "bind (lock_log tid) k s =
     (case script s of [] \<Rightarrow> Blocked (adv s [Pending (Atomic (AtomicCmpxchg LOG_LOCK 0 tid))] [] (errno s))
      | r # rs \<Rightarrow> let t = adv s [Got (Atomic (AtomicCmpxchg LOG_LOCK 0 tid)) r] rs (errno s) in
          if rv r \<noteq> 0 then bind (lock_log tid) k t else k () t)"
  by (cases "script s")
    (simp_all add: lock_log_def bind_def [of "loop _ _"] ll.unfold [of tid "()" s] lock_body_def atomic_defs
      bind_def [of "atom _"] bind_def [of "bind _ _"] atom_def return_def Let_def)

lemma unlock_log_turn:
  "bind (unlock_log tid) k s =
     (case script s of [] \<Rightarrow> Blocked (adv s [Pending (Atomic (AtomicCmpxchg LOG_LOCK tid 0))] [] (errno s))
      | r # rs \<Rightarrow> let t = adv s [Got (Atomic (AtomicCmpxchg LOG_LOCK tid 0)) r] rs (errno s) in
          if rv r \<noteq> tid then bind (unlock_log tid) k t else k () t)"
  by (cases "script s")
    (simp_all add: unlock_log_def bind_def [of "loop _ _"] ul.unfold [of tid "()" s] unlock_body_def atomic_defs
      bind_def [of "atom _"] bind_def [of "bind _ _"] atom_def return_def Let_def)

text \<open>A message while the lock is free.\<close>

lemma log_safe_free:
  assumes "script s = ok t # ok 0 # ok t # rs" and "logfp s = Some lf"
  shows "\<exists>u. bind (log_safe tg n args) k s = k () u \<and> script u = rs \<and> logfp u = Some lf \<and> glob u = glob s \<and> errno u = errno s"
  using assms
  by (simp add: log_safe_def gettid_def prog_simps lock_log_turn unlock_log_turn) (rule exI, rule conjI, rule refl, simp)

lemma shrinking_lock [shrink_intros]: "shrinking (lock_log tid)" "shrinking (unlock_log tid)"
  unfolding lock_log_def unlock_log_def
  by (auto intro!: ll.shrinking_loop ul.shrinking_loop shrink_intros simp: lock_body_def unlock_body_def atomic_defs)

lemma shrinking_log_safe [shrink_intros]: "shrinking (log_safe tg n args)" "shrinking (log_error_safe n what)"
  unfolding log_safe_def log_error_safe_def gettid_def log_msg_def by (auto intro!: shrink_intros)

lemma only_lock [only_intros]:
  "(\<And>t u r. Q (Got (Atomic (AtomicCmpxchg LOG_LOCK t u)) r)) \<Longrightarrow> (\<And>t u. Q (Pending (Atomic (AtomicCmpxchg LOG_LOCK t u)))) \<Longrightarrow>
   only Q (lock_log tid)"
  "(\<And>t u r. Q (Got (Atomic (AtomicCmpxchg LOG_LOCK t u)) r)) \<Longrightarrow> (\<And>t u. Q (Pending (Atomic (AtomicCmpxchg LOG_LOCK t u)))) \<Longrightarrow>
   only Q (unlock_log tid)"
  unfolding lock_log_def unlock_log_def
  by (auto intro!: ll.only_loop ul.only_loop only_intros simp: lock_body_def unlock_body_def atomic_defs)

lemma only_log_msg [only_intros]: "(\<And>c. Q (Did c)) \<Longrightarrow> only Q (log_msg tg n args)"
  unfolding log_msg_def by (auto intro!: only_intros)

lemma only_log_safe [only_intros]:
  assumes "\<And>t u r. Q (Got (Atomic (AtomicCmpxchg LOG_LOCK t u)) r)" and "\<And>t u. Q (Pending (Atomic (AtomicCmpxchg LOG_LOCK t u)))"
    and "\<And>r. Q (Got (Proc Getpid) r)" and "Q (Pending (Proc Getpid))" and "\<And>c. Q (Did c)"
  shows "only Q (log_safe tg n args)" and "only Q (log_error_safe n what)"
  unfolding log_safe_def log_error_safe_def gettid_def using assms by (auto intro!: only_intros)

lemma appending_log_safe [append_intros]:
  "appending (lock_log tid)" "appending (unlock_log tid)" "appending (log_msg tg n args)"
  "appending (log_safe tg n args)" "appending (log_error_safe n what)"
  by (auto intro!: only_appending [where Q = "\<lambda>_. True"] only_intros)

lemma steady_lock [steady_intros]: "steady (lock_log tid)" "steady (unlock_log tid)"
  unfolding lock_log_def unlock_log_def
  by (auto intro!: ll.steady_loop ul.steady_loop steady_intros simp: lock_body_def unlock_body_def atomic_defs)

lemma steady_log_msg [steady_intros]: "steady (log_msg tg n args)"
  unfolding log_msg_def by (auto intro!: steady_intros)

lemma steady_log_safe [steady_intros]: "steady (log_safe tg n args)" "steady (log_error_safe n what)"
  unfolding log_safe_def log_error_safe_def gettid_def by (auto intro!: steady_intros)

context keeper begin

lemma keeps_atom: "keeps R (atom c)"
  by (auto simp: keeps_def atom_def refl split: list.splits)

lemma keeps_lock: "keeps R (lock_log tid)" "keeps R (unlock_log tid)"
  unfolding lock_log_def unlock_log_def
  by (auto intro!: keeps_loop ll.script_loop_axioms ul.script_loop_axioms keeps_rules keeps_atom
      simp: lock_body_def unlock_body_def atomic_defs)

lemma keeps_log_safe: "keeps R (log_safe tg n args)" "keeps R (log_error_safe n what)"
  unfolding log_safe_def log_error_safe_def log_msg_def gettid_def
  by (intro keeps_rules keeps_atom keeps_lock)+

end

interpretation same: keeper "(=)"
  by unfold_locales simp_all

lemma pending_of_waits: "waits_in x = Some c \<Longrightarrow> \<exists>t es. x = Blocked t \<and> trace t = es @ [Pending c]"
  by (auto simp: waits_in_def rev_eq_Cons_iff split: outcome.splits list.splits event.splits)

section \<open>Threads that share memory\<close>

text \<open>What an atomic operation answers and leaves in the memory.\<close>

fun atomic_step :: "atomic_call \<Rightarrow> (nat \<Rightarrow> int) \<Rightarrow> (int \<times> (nat \<Rightarrow> int)) option" where
  "atomic_step (AtomicRead v) m = Some (m v, m)"
| "atomic_step (AtomicSet v x) m = Some (0, m(v := x))"
| "atomic_step (AtomicInc v) m = Some (to_int32 (m v + 1), m(v := to_int32 (m v + 1)))"
| "atomic_step (AtomicCmpxchg v old new) m = Some (m v, if m v = old then m(v := new) else m)"
| "atomic_step (AtomicOr v x) m = Some (m v OR x, m(v := m v OR x))"
| "atomic_step (Futex v op val) m = None"

record fstate =
  mem :: "nat \<Rightarrow> int"
  queue :: "nat \<Rightarrow> nat set"
  released :: "nat set"
  got :: "nat \<Rightarrow> resp list"

definition reply :: "nat \<Rightarrow> resp \<Rightarrow> fstate \<Rightarrow> fstate" where
  "reply i r c = c\<lparr>got := (got c)(i := got c i @ [r])\<rparr>"

lemma reply_sel [simp]:
  "mem (reply i r c) = mem c" "queue (reply i r c) = queue c" "released (reply i r c) = released c"
  "got (reply i r c) = (got c)(i := got c i @ [r])"
  by (simp_all add: reply_def)

fun own_call :: "call \<Rightarrow> bool" where
  "own_call (Atomic a) = False"
| "own_call (Proc Getpid) = False"
| "own_call _ = True"

text \<open>
  Thread \<open>i\<close> has the id \<open>tid i\<close>. A \<open>FUTEX_WAIT\<close> fails at once if the variable has changed, and
  otherwise sleeps until a wake-up or a signal; \<open>FUTEX_WAKE\<close> releases as many sleepers as asked
  for, or all. The answers of calls that do not concern the memory are arbitrary.
\<close>

inductive freach :: "(nat \<Rightarrow> int) \<Rightarrow> (nat \<Rightarrow> resp list \<Rightarrow> call option) \<Rightarrow> fstate \<Rightarrow> fstate \<Rightarrow> bool"
  for tid nxt c0 where
  start: "freach tid nxt c0 c0"
| getpid: "freach tid nxt c0 c \<Longrightarrow> nxt i (got c i) = Some (Proc Getpid) \<Longrightarrow> freach tid nxt c0 (reply i (ok (tid i)) c)"
| atomic: "freach tid nxt c0 c \<Longrightarrow> nxt i (got c i) = Some (Atomic a) \<Longrightarrow> atomic_step a (mem c) = Some (v, m) \<Longrightarrow>
    freach tid nxt c0 (reply i (ok v) (c\<lparr>mem := m\<rparr>))"
| changed: "freach tid nxt c0 c \<Longrightarrow> nxt i (got c i) = Some (Atomic (Futex v FUTEX_WAIT val)) \<Longrightarrow>
    i \<notin> queue c v \<Longrightarrow> i \<notin> released c \<Longrightarrow> mem c v \<noteq> val \<Longrightarrow> freach tid nxt c0 (reply i (failed EAGAIN) c)"
| sleep: "freach tid nxt c0 c \<Longrightarrow> nxt i (got c i) = Some (Atomic (Futex v FUTEX_WAIT val)) \<Longrightarrow>
    i \<notin> queue c v \<Longrightarrow> i \<notin> released c \<Longrightarrow> mem c v = val \<Longrightarrow>
    freach tid nxt c0 (c\<lparr>queue := (queue c)(v := insert i (queue c v))\<rparr>)"
| woken: "freach tid nxt c0 c \<Longrightarrow> nxt i (got c i) = Some (Atomic (Futex v FUTEX_WAIT val)) \<Longrightarrow> i \<in> released c \<Longrightarrow>
    freach tid nxt c0 (reply i (ok 0) (c\<lparr>released := released c - {i}\<rparr>))"
| interrupted: "freach tid nxt c0 c \<Longrightarrow> nxt i (got c i) = Some (Atomic (Futex v FUTEX_WAIT val)) \<Longrightarrow> i \<in> queue c v \<Longrightarrow>
    e = EINTR \<or> e = ERESTART \<Longrightarrow>
    freach tid nxt c0 (reply i (failed e) (c\<lparr>queue := (queue c)(v := queue c v - {i})\<rparr>))"
| wake: "freach tid nxt c0 c \<Longrightarrow> nxt i (got c i) = Some (Atomic (Futex v FUTEX_WAKE n)) \<Longrightarrow>
    W \<subseteq> queue c v \<Longrightarrow> card W = min (nat n) (card (queue c v)) \<Longrightarrow>
    freach tid nxt c0 (reply i (ok (int (card W)))
      (c\<lparr>queue := (queue c)(v := queue c v - W), released := released c \<union> W\<rparr>))"
| other: "freach tid nxt c0 c \<Longrightarrow> nxt i (got c i) = Some k \<Longrightarrow> own_call k \<Longrightarrow> freach tid nxt c0 (reply i r c)"

definition boot :: "(nat \<Rightarrow> int) \<Rightarrow> fstate" where
  "boot m = \<lparr>mem = m, queue = (\<lambda>_. {}), released = {}, got = (\<lambda>_. [])\<rparr>"

lemma boot_sel [simp]: "mem (boot m) = m" "queue (boot m) v = {}" "released (boot m) = {}" "got (boot m) i = []"
  by (simp_all add: boot_def)

text \<open>
  A run of one thread while the others do nothing, for closed examples: it takes the answers to
  its own calls from a list, and stops after the given number of steps.
\<close>

fun solo :: "nat \<Rightarrow> (resp list \<Rightarrow> call option) \<Rightarrow> int \<Rightarrow> resp list \<Rightarrow> (nat \<Rightarrow> int) \<Rightarrow> resp list \<Rightarrow> (nat \<Rightarrow> int) \<times> resp list" where
  "solo 0 nx t outside m as = (m, as)"
| "solo (Suc n) nx t outside m as =
     (case nx as of
        None \<Rightarrow> (m, as)
      | Some k \<Rightarrow>
          if k = Proc Getpid then solo n nx t outside m (as @ [ok t])
          else if own_call k then
            (case outside of [] \<Rightarrow> (m, as) | r # rs \<Rightarrow> solo n nx t rs m (as @ [r]))
          else
            (case k of
               Atomic a \<Rightarrow>
                 (case atomic_step a m of
                    Some (v, m') \<Rightarrow> solo n nx t outside m' (as @ [ok v])
                  | None \<Rightarrow>
                      (case a of Futex v op val \<Rightarrow> if op = FUTEX_WAKE then solo n nx t outside m (as @ [ok 0]) else (m, as)
                       | _ \<Rightarrow> (m, as)))
             | _ \<Rightarrow> (m, as)))"

definition set_got :: "nat \<Rightarrow> (nat \<Rightarrow> int) \<times> resp list \<Rightarrow> fstate \<Rightarrow> fstate" where
  "set_got i x c = c\<lparr>mem := fst x, got := (got c)(i := snd x)\<rparr>"

lemma set_got_reply:
  "set_got i x (reply i r (c\<lparr>mem := m\<rparr>)) = set_got i x c" "set_got i x (reply i r c) = set_got i x c"
  "set_got i (mem c, got c i) c = c" "set_got i x (c\<lparr>mem := m\<rparr>) = set_got i x c"
  by (simp_all add: set_got_def reply_def)

lemma solo_reach:
  assumes "freach tid nxt c0 c" and "\<forall>v. queue c v = {}"
  shows "freach tid nxt c0 (set_got i (solo n (nxt i) (tid i) outside (mem c) (got c i)) c)"
  using assms
proof (induction n arbitrary: c outside)
  case 0
  then show ?case by (simp add: set_got_reply)
next
  case (Suc n)
  note r = Suc.prems(1)
  note IH = Suc.IH [of "reply i _ c"] Suc.IH [of "reply i _ (c\<lparr>mem := _\<rparr>)"]
  have wk: "freach tid nxt c0 (reply i (ok 0) c)" if "nxt i (got c i) = Some (Atomic (Futex v FUTEX_WAKE val))" for v val
  proof -
    have "c\<lparr>queue := (queue c)(v := {}), released := released c\<rparr> = c" using Suc.prems(2) by (simp add: fun_upd_idem)
    with freach.wake [OF r that, of "{}"] Suc.prems(2) show ?thesis by simp
  qed
  show ?case
  proof (cases "nxt i (got c i)")
    case None
    then show ?thesis using r by (simp add: set_got_reply)
  next
    case (Some k)
    show ?thesis
    proof (cases "k = Proc Getpid \<or> own_call k")
      case True
      with IH(1) [OF freach.getpid [OF r]] IH(1) [OF freach.other [OF r Some]] Some r Suc.prems(2) show ?thesis
        by (auto simp: set_got_reply split: list.split)
    next
      case False
      then obtain a where k: "k = Atomic a" by (cases k rule: own_call.cases) auto
      show ?thesis
      proof (cases "atomic_step a (mem c)")
        case None
        with Some k r IH(1) wk Suc.prems(2) show ?thesis
          by (cases a) (auto simp: set_got_reply)
      next
        case (Some vm)
        then obtain v m' where "atomic_step a (mem c) = Some (v, m')" by (cases vm) auto
        with IH(2) [OF freach.atomic [OF r]] Suc.prems(2) k \<open>nxt i (got c i) = Some k\<close> show ?thesis
          by (auto simp: set_got_reply)
      qed
    qed
  qed
qed

end
