(* ===== verification/Log_Lock.thy ===== *)
theory Log_Lock
  imports Libfutex
begin

text \<open>
  The lock of the log (log.h with \<open>HAVE_LOG_LOCK\<close>): threads that share the log print one at a
  time. A thread here prints any list of messages; its machine says which call it is in.
\<close>

section \<open>The machine of a thread that logs\<close>

type_synonym message = "tag \<times> nat \<times> arg list"

definition say :: "message \<Rightarrow> (unit, unit) prog" where
  "say m = (case m of (tg, n, args) \<Rightarrow> log_safe tg n args)"

definition print :: "message \<Rightarrow> (unit, unit) prog" where
  "print m = (case m of (tg, n, args) \<Rightarrow> log_msg tg n args)"

datatype phase = Idle "message list" | Locking message "message list" int | Printed "message list" int

fun call_of :: "phase \<Rightarrow> call option" where
  "call_of (Idle []) = None"
| "call_of (Idle (m # ms)) = Some (Proc Getpid)"
| "call_of (Locking m ms tid) = Some (Atomic (AtomicCmpxchg LOG_LOCK 0 tid))"
| "call_of (Printed ms tid) = Some (Atomic (AtomicCmpxchg LOG_LOCK tid 0))"

fun delta :: "phase \<Rightarrow> resp \<Rightarrow> phase" where
  "delta (Idle []) r = Idle []"
| "delta (Idle (m # ms)) r = Locking m ms (rv r)"
| "delta (Locking m ms tid) r = (if rv r \<noteq> 0 then Locking m ms tid else Printed ms tid)"
| "delta (Printed ms tid) r = (if rv r \<noteq> tid then Printed ms tid else Idle ms)"

fun K :: "phase \<Rightarrow> (unit, unit) prog" where
  "K (Idle ms) = foreach say ms"
| "K (Locking m ms tid) = andthen (lock_log tid) (andthen (print m) (andthen (unlock_log tid) (foreach say ms)))"
| "K (Printed ms tid) = andthen (unlock_log tid) (foreach say ms)"

lemma say_bind: "bind (say m) k = bind gettid (\<lambda>tid. bind (lock_log tid) (\<lambda>_. bind (print m) (\<lambda>_. bind (unlock_log tid) k)))"
  by (cases m) (simp add: say_def print_def log_safe_def prog_simps)

lemma run_print:
  "logging s \<Longrightarrow> \<exists>es. bind (print m) k s = k () (adv s es (script s) (errno s))"
  by (cases m) (auto simp: print_def logging_def run_log_msg)

lemma log_move:
  assumes "logging s" and "script s = r # rs" and "call_of p = Some c"
  shows "\<exists>s'. K p s = K (delta p r) s' \<and> script s' = rs \<and> logging s'"
proof (cases p)
  case (Idle ms)
  with assms(3) obtain m ms' where "ms = m # ms'" by (cases ms) auto
  with Idle assms(1,2) show ?thesis
    by (simp add: andthen_def say_bind gettid_def run_atom_Cons) (rule exI, rule conjI, rule refl, simp)
next
  case (Locking m ms tid)
  show ?thesis
  proof (cases "rv r = 0")
    case True
    let ?t = "adv s [Got (Atomic (AtomicCmpxchg LOG_LOCK 0 tid)) r] rs (errno s)"
    from run_print [of ?t m "\<lambda>_. andthen (unlock_log tid) (foreach say ms)"] assms(1) obtain es where
      "bind (print m) (\<lambda>_. andthen (unlock_log tid) (foreach say ms)) ?t = andthen (unlock_log tid) (foreach say ms) (adv ?t es rs (errno s))"
      by auto
    with Locking assms(1,2) True show ?thesis
      by (simp add: andthen_def lock_log_turn Let_def) (rule exI, rule conjI, rule refl, simp)
  next
    case False
    with Locking assms(1,2) show ?thesis
      by (simp add: andthen_def lock_log_turn [of _ _ s] Let_def) (rule exI, rule conjI, rule refl, simp)
  qed
next
  case (Printed ms tid)
  then show ?thesis
    using assms(1,2)
    by (cases "rv r = tid") (simp add: andthen_def unlock_log_turn [of _ _ s] Let_def, rule exI, rule conjI, rule refl, simp)+
qed

interpretation lm: machine K delta call_of logging
proof
  fix s :: "unit proc" and p c
  assume "logging s" and "script s = []" and "call_of p = Some c"
  then show "waits_in (K p s) = Some c"
    by (cases p rule: call_of.cases)
      (auto simp: andthen_def say_bind gettid_def run_atom lock_log_turn unlock_log_turn)
next
  fix s :: "unit proc" and r rs p c
  assume "logging s" and "script s = r # rs" and "call_of p = Some c"
  then show "\<exists>s'. K p s = K (delta p r) s' \<and> script s' = rs \<and> logging s'" by (rule log_move)
next
  fix s :: "unit proc" and p
  assume "logging s" and "call_of p = None"
  then show "waits_in (K p s) = None" by (cases p rule: call_of.cases) (auto simp: prog_simps)
next
  fix p r
  assume "call_of p = None"
  then show "delta p r = p" by (cases p rule: call_of.cases) simp_all
qed

section \<open>All threads\<close>

definition nxt :: "(nat \<Rightarrow> message list) \<Rightarrow> nat \<Rightarrow> resp list \<Rightarrow> call option" where
  "nxt msgs i as = waits_in (foreach say (msgs i) (start as (Some 3) ()))"

definition phase_of :: "(nat \<Rightarrow> message list) \<Rightarrow> fstate \<Rightarrow> nat \<Rightarrow> phase" where
  "phase_of msgs c i = foldl delta (Idle (msgs i)) (got c i)"

lemma log_nxt: "nxt msgs i (got c i) = call_of (phase_of msgs c i)"
  using lm.waits [of "start (got c i) (Some 3) ()" "Idle (msgs i)"]
  by (simp add: nxt_def phase_of_def logging_def)

lemma log_phase_reply [simp]: "phase_of msgs (reply i r c) = (phase_of msgs c)(i := delta (phase_of msgs c i) r)"
  by (auto simp: phase_of_def fun_eq_iff)

lemma log_phase_mem [simp]: "phase_of msgs (mem_update f c) = phase_of msgs c"
  by (simp add: phase_of_def fun_eq_iff)

text \<open>The lock holds the id of the one thread that has printed and not unlocked, or 0.\<close>

fun at_id :: "phase \<Rightarrow> int \<Rightarrow> bool" where
  "at_id (Idle ms) t = True"
| "at_id (Locking m ms tid) t \<longleftrightarrow> tid = t"
| "at_id (Printed ms tid) t \<longleftrightarrow> tid = t"

fun printed :: "phase \<Rightarrow> bool" where
  "printed (Printed ms tid) = True"
| "printed _ = False"

definition lock_ok :: "(nat \<Rightarrow> int) \<Rightarrow> int \<Rightarrow> (nat \<Rightarrow> phase) \<Rightarrow> bool" where
  "lock_ok tid l ph \<longleftrightarrow> (\<forall>i. at_id (ph i) (tid i)) \<and> (\<forall>i. printed (ph i) \<longleftrightarrow> l = tid i) \<and>
     (l = 0 \<or> (\<exists>i. l = tid i))"

lemma lock_ok_lock:
  assumes "lock_ok tid l ph" and "inj tid" and "\<forall>i. tid i \<noteq> 0" and "ph i = Locking m ms t"
  shows "lock_ok tid (if l = 0 then t else l) (ph(i := delta (ph i) (ok l)))"
proof -
  have "t = tid i" using assms(1,4) by (auto simp: lock_ok_def dest: spec [of _ i])
  moreover have "l \<noteq> tid i" using assms(1,4) by (auto simp: lock_ok_def dest: spec [of _ i])
  ultimately show ?thesis
    using assms by (auto simp: lock_ok_def dest: injD)
qed

lemma lock_ok_unlock:
  assumes "lock_ok tid l ph" and "inj tid" and "\<forall>i. tid i \<noteq> 0" and "ph i = Printed ms t"
  shows "lock_ok tid (if l = t then 0 else l) (ph(i := delta (ph i) (ok l)))"
proof -
  have "t = tid i" using assms(1,4) by (auto simp: lock_ok_def dest: spec [of _ i])
  moreover have "l = tid i" using assms(1,4) by (auto simp: lock_ok_def)
  ultimately show ?thesis
    using assms by (auto simp: lock_ok_def dest: injD)
qed

lemma lock_ok_getpid:
  assumes "lock_ok tid l ph" and "ph i = Idle (m # ms)"
  shows "lock_ok tid l (ph(i := delta (ph i) (ok (tid i))))"
proof -
  have "l \<noteq> tid i" using assms by (auto simp: lock_ok_def dest: spec [of _ i])
  with assms show ?thesis by (auto simp: lock_ok_def)
qed

lemma call_of_log:
  "call_of p = Some (Proc Getpid) \<longleftrightarrow> (\<exists>m ms. p = Idle (m # ms))"
  "call_of p = Some (Atomic a) \<longleftrightarrow>
     (\<exists>m ms t. p = Locking m ms t \<and> a = AtomicCmpxchg LOG_LOCK 0 t) \<or> (\<exists>ms t. p = Printed ms t \<and> a = AtomicCmpxchg LOG_LOCK t 0)"
  "own_call k \<Longrightarrow> call_of p \<noteq> Some k"
  by (cases p rule: call_of.cases; auto)+

lemma freach_lock_ok:
  assumes "freach tid (nxt msgs) (boot m) c" and "m LOG_LOCK = 0" and "inj tid" and "\<forall>i. tid i \<noteq> 0"
  shows "lock_ok tid (mem c LOG_LOCK) (phase_of msgs c)"
  using assms(1)
proof induction
  case start
  have "tid i \<noteq> 0" for i using assms(4) by blast
  then have "0 \<noteq> tid i" for i by metis
  then show ?case using assms(2) by (simp add: lock_ok_def phase_of_def)
next
  case (getpid c i)
  then obtain m' ms where "phase_of msgs c i = Idle (m' # ms)" by (auto simp: log_nxt call_of_log)
  from lock_ok_getpid [OF getpid.IH this] show ?case by (simp only: log_phase_reply reply_sel)
next
  case (atomic c i a v m)
  then consider (lock) m' ms t where "phase_of msgs c i = Locking m' ms t" "a = AtomicCmpxchg LOG_LOCK 0 t"
    | (unlock) ms t where "phase_of msgs c i = Printed ms t" "a = AtomicCmpxchg LOG_LOCK t 0"
    by (auto simp: log_nxt call_of_log)
  then show ?case
  proof cases
    case lock
    with lock_ok_lock [OF atomic.IH assms(3,4) lock(1)] atomic(3) show ?thesis by (auto simp: fun_upd_def split: if_splits)
  next
    case unlock
    with lock_ok_unlock [OF atomic.IH assms(3,4) unlock(1)] atomic(3) show ?thesis by (auto simp: fun_upd_def split: if_splits)
  qed
qed (auto simp: log_nxt call_of_log)



end
