(* ===== verification/Futex_Plain.thy ===== *)
theory Futex_Plain
  imports Libfutex
begin

text \<open>
  futex/plain.c: three children that share the memory of the parent wait on a futex; after the
  restart the parent changes the futex and wakes them. In the model of all tasks together the
  children have the numbers 0 to 2 and the parent the number 3.
\<close>

section \<open>Constants\<close>

definition LOG_FILE :: string where "LOG_FILE = ''log.plain''"
definition N :: nat where "N = 3"

text \<open>\<open>CLONE_FS|CLONE_FILES|CLONE_SIGHAND|CLONE_VM|CLONE_SYSVSEM|SIGCHLD\<close>.\<close>

definition clone_flags :: int where "clone_flags = 0x40f00 + SIGCHLD"

definition SIGSTKSZ :: int where "SIGSTKSZ = 8192"
definition SIGTERM :: int where "SIGTERM = 15"

text \<open>The shared variables.\<close>

definition dumb_barrier :: "nat \<Rightarrow> nat" where "dumb_barrier i = Suc i"
definition test_futex :: nat where "test_futex = 3"

lemmas vars = dumb_barrier_def test_futex_def LOG_LOCK_def

type_synonym 'a pprog = "(unit, 'a) prog"

section \<open>The children\<close>

text \<open>One \<open>FUTEX_WAIT\<close>: \<open>Inl\<close> is the jump to \<open>again\<close>, \<open>Inr\<close> goes on after the \<open>if\<close>.\<close>

definition kid_body :: "unit \<Rightarrow> (unit + unit) pprog" where
  "kid_body _ =
     bind (futex test_futex FUTEX_WAIT (-1)) (\<lambda>r.
     if rv r = 0 then return (Inr ())
     else if er r = ETIMEDOUT then andthen (log_error_safe 57 ''FUTEX_WAIT ETIMEDOUT'') (return (Inr ()))
     else if er r = ERESTART then andthen (log_safe INFO 60 []) (return (Inl ()))
     else if er r = EAGAIN then
       bind (atomic_read test_futex) (\<lambda>v.
       if v = 1 then andthen (block [log_safe INFO 64 [], log_safe INFO 65 []]) (return (Inr ()))
       else andthen (log_safe INFO 68 []) (return (Inl ())))
     else if er r = EINTR then andthen (log_safe INFO 72 []) (return (Inl ()))
     else if er r = EACCES then andthen (log_safe FAIL 76 []) (return (Inr ()))
     else if er r = EFAULT then andthen (log_safe FAIL 79 []) (return (Inr ()))
     else if er r = EINVAL then andthen (log_safe FAIL 82 []) (return (Inr ()))
     else if er r = ENOSYS then andthen (log_safe FAIL 85 []) (return (Inr ()))
     else andthen (log_error_safe 88 ''FUTEX_WAIT unexpected error (missing from man page)'') (return (Inr ())))"

definition kid :: "int pprog" where
  "kid =
     andthen (atomic_inc (dumb_barrier 0)) (
     andthen (loop kid_body ()) (
     andthen (atomic_inc (dumb_barrier 1)) (return 0)))"

section \<open>The parent\<close>

text \<open>The variables are read where the macro prints, under the lock.\<close>

definition dump :: "string \<Rightarrow> unit pprog" where
  "dump pre =
     bind gettid (\<lambda>tid.
     andthen (lock_log tid) (
     bind (atomic_read (dumb_barrier 0)) (\<lambda>a.
     bind (atomic_read (dumb_barrier 1)) (\<lambda>b.
     bind (atomic_read test_futex) (\<lambda>f.
     block [log_msg INFO 98 [S pre, I a, I b, I f], unlock_log tid])))))"

definition sig_dump :: "unit pprog" where
  "sig_dump = dump ''Interrupt sample:''"

text \<open>
  Starting the children that are left, from the index \<open>i\<close> on: the index at the end of the loop,
  which both ways out of it have decremented, and the elements of \<open>kids\<close>.
\<close>

primrec clone_kids :: "nat \<Rightarrow> int \<Rightarrow> int list \<Rightarrow> (int \<times> int list) pprog" where
  "clone_kids 0 i kids = return (i, kids)"
| "clone_kids (Suc k) i kids =
     bind (sysv (Proc (Malloc (SIGSTKSZ * 8)))) (\<lambda>new_stack.
     if new_stack = 0 then return (i - 1, kids)
     else bind (sysv (Libc ''clone'' [I (new_stack + SIGSTKSZ * 8), I clone_flags])) (\<lambda>pid.
     if pid < 0 then return (i - 1, kids @ [pid])
     else clone_kids k (i + 1) (kids @ [pid])))"

text \<open>\<open>for (; --i > -1;) kill(kids[i], SIGTERM);\<close>\<close>

definition kill_kids :: "int \<Rightarrow> int list \<Rightarrow> unit pprog" where
  "kill_kids i kids = foreach (\<lambda>j. emit (Proc (Kill (kids ! j) SIGTERM))) (rev [0..<nat i])"

fun kill_rest :: "int list \<Rightarrow> int \<Rightarrow> int pprog" where
  "kill_rest [] num_killed = return num_killed"
| "kill_rest (pid # kids) num_killed =
     bind (sysv (Proc (Kill pid SIGKILL))) (\<lambda>rc. kill_rest kids (if rc = 0 then num_killed + 1 else num_killed))"

definition all_started :: "int pprog" where
  "all_started = bind (atomic_read (dumb_barrier 0)) (\<lambda>v. return (of_bool (v = int N)))"

definition before_wake :: "unit pprog" where
  "before_wake =
     block [log_safe INFO 165 [], poll all_started (emit (Proc (Sleep 1))), dump ''After 1, before 2:'',
       emit (Proc (Sleep 1)), log_safe INFO 171 [], set_checkpoint_ready,
       poll test_checkpoint_done (emit (Proc (Sleep 1))), log_safe INFO 175 []]"

definition after_wake :: "int list \<Rightarrow> resp \<Rightarrow> int pprog" where
  "after_wake kids r =
     bind (if rv r = -1 then
         andthen (block [fprintf 180 [I (int N), I (rv r)], log_error_safe 181 ''FUTEX_WAKE'', emit (Proc (Sleep 1))]) (
         bind (kill_rest kids 0) (\<lambda>num_killed.
         andthen (if num_killed \<noteq> 0 then log_safe INFO 190 [I num_killed] else return ()) (return 1)))
       else return 0) (\<lambda>excode.
     andthen (dump ''After 2:'') (
     bind (do_wait (int N)) (\<lambda>_.
     andthen (block [dump ''After 3:'', bind (gets logfp) (\<lambda>fp. emit (Stdio (Fclose (the fp))))])
       (exit_with excode))))"

definition main_rest :: "int list \<Rightarrow> int pprog" where
  "main_rest kids =
     andthen before_wake (
     andthen (atomic_set test_futex 1) (
     andthen (dump ''After 1, cleared test_futex, before 2:'') (
     bind (futex test_futex FUTEX_WAKE (int N)) (after_wake kids))))"

definition main :: "string list \<Rightarrow> int pprog" where
  "main argv =
     (if length argv < 2 then exit_with 1
      else bind (sysv (Proc Getpid)) (\<lambda>pid.
      bind (move_to_cgroup ''freezer'' (argv ! 1) pid) (\<lambda>m.
      if m = 0 then andthen (emit (Stdio (Printf 121 []))) (exit_with 1)
      else andthen (emit (Unistd (Close 0))) (
      bind (sysv (Stdio (Fopen LOG_FILE ''w''))) (\<lambda>fp.
      if fp < 0 then andthen (emit (Stdio (Perror 128))) (exit_with 1)
      else andthen (block
        [modify (\<lambda>s. s\<lparr>logfp := Some fp\<rparr>), emit (Unistd (Dup2 fp 1)), emit (Unistd (Dup2 fp 2))]) (
      bind (alloc_futex_mem 4) (\<lambda>p.
      if p = 0 then andthen (log_error_safe 136 ''alloc_futex_mem'') (exit_with 3)
      else andthen (block [atomic_set test_futex (-1), emit (Proc (Signal SIGINT 105))]) (
      bind (clone_kids N 0 []) (\<lambda>(i, kids).
      if i < int N then
        andthen (block [log_error_safe 157 ''N x FUTEX_WAIT'', log_safe INFO 158 [I i], kill_kids i kids]) (exit_with 4)
      else main_rest kids)))))))))"

section \<open>The loops\<close>

interpretation kl: script_loop kid_body
  by (rule script_loopI) (auto simp: kid_body_def atomic_defs intro!: consuming_bind consuming_sys shrink_intros)

interpretation as: poll_loop all_started "emit (Proc (Sleep 1))"
  by unfold_locales
    (auto simp: all_started_def atomic_defs intro!: consuming_bind consuming_atom shrink_intros append_intros)

text \<open>The calls that leave the futex as it is and do not wait on it or wake anybody.\<close>

fun still :: "call \<Rightarrow> bool" where
  "still (Atomic (AtomicRead v)) = True"
| "still (Atomic (AtomicSet v x)) \<longleftrightarrow> v \<noteq> test_futex"
| "still (Atomic (AtomicInc v)) \<longleftrightarrow> v \<noteq> test_futex"
| "still (Atomic (AtomicCmpxchg v old new)) \<longleftrightarrow> v \<noteq> test_futex"
| "still (Atomic (AtomicOr v x)) \<longleftrightarrow> v \<noteq> test_futex"
| "still (Atomic (Futex v op val)) = False"
| "still _ = True"

abbreviation WAIT_CALL :: call where "WAIT_CALL \<equiv> Atomic (Futex test_futex FUTEX_WAIT (- 1))"
abbreviation WAKE_CALL :: call where "WAKE_CALL \<equiv> Atomic (Futex test_futex FUTEX_WAKE (int N))"
abbreviation SET_CALL :: call where "SET_CALL \<equiv> Atomic (AtomicSet test_futex 1)"

lemma lock_not_futex [simp]: "LOG_LOCK \<noteq> test_futex"
  by (simp add: vars)

lemma only_kid: "only (pending_in (\<lambda>c. still c \<or> c = WAIT_CALL)) kid"
  unfolding kid_def
  by (auto simp: kid_body_def atomic_defs vars intro!: only_intros kl.only_loop)

lemma only_dump: "only (pending_in still) (dump pre)"
  unfolding dump_def by (auto simp: atomic_defs vars intro!: only_intros)

lemma only_libcrtest:
  "only (pending_in still) set_checkpoint_ready" "only (pending_in still) test_checkpoint_done" "only (pending_in still) (do_wait n)"
  unfolding set_checkpoint_ready_def test_checkpoint_done_def do_wait_def do_exit_def
  by (auto simp: do_wait_body_def print_exit_status_def Let_def intro!: only_intros dw.only_loop split: prod.split option.split)

lemma only_before_wake: "only (pending_in still) before_wake"
  unfolding before_wake_def
  by (intro only_intros only_dump only_libcrtest as.only_poll tcs.only_poll)
    (auto simp: all_started_def atomic_defs intro!: only_intros)

lemma only_kill_rest: "only (pending_in still) (kill_rest kids n)"
  by (induction kids arbitrary: n) (auto intro!: only_intros)

lemma only_after_wake: "only (pending_in still) (after_wake kids r)"
  unfolding after_wake_def by (auto intro!: only_intros only_dump only_libcrtest only_kill_rest)

lemma steady_kid: "steady kid"
  unfolding kid_def by (auto simp: kid_body_def atomic_defs intro!: steady_intros kl.steady_loop)

lemma steady_kill_rest: "steady (kill_rest kids n)"
  by (induction kids arbitrary: n) (auto intro!: steady_intros)

lemma steady_main_rest: "steady (main_rest kids)"
  unfolding main_rest_def before_wake_def after_wake_def dump_def
  by (intro steady_intros as.steady_poll tcs.steady_poll steady_kill_rest)
    (auto simp: all_started_def atomic_defs intro!: steady_intros)

section \<open>All tasks together\<close>

definition nxt :: "int list \<Rightarrow> nat \<Rightarrow> resp list \<Rightarrow> call option" where
  "nxt kids i as =
     (if i < N then waits_in (kid (start as (Some 3) ()))
      else if i = N then waits_in (main_rest kids (start as (Some 3) ()))
      else None)"

text \<open>The calls the parent was answered so far.\<close>

definition parent_did :: "int list \<Rightarrow> fstate \<Rightarrow> call \<Rightarrow> bool" where
  "parent_did kids c k \<longleftrightarrow> (\<exists>r. (k, r) \<in> answered (main_rest kids (start (got c N) (Some 3) ())))"

lemma parent_did_reply:
  assumes "nxt kids i (got c i) = Some k"
  shows "parent_did kids (reply i r c) k' \<longleftrightarrow> parent_did kids c k' \<or> i = N \<and> k' = k"
proof (cases "i = N")
  case True
  with assms pending_of_waits [of "main_rest kids (start (got c N) (Some 3) ())" k] obtain t es
    where "main_rest kids (start (got c N) (Some 3) ()) = Blocked t" "trace t = es @ [Pending k]"
    by (auto simp: nxt_def)
  from answered_more [OF steady_main_rest this, of r] True show ?thesis
    by (auto simp: parent_did_def start_more)
qed (simp add: parent_did_def)

lemma kid_calls: "i < N \<Longrightarrow> nxt kids i as = Some k \<Longrightarrow> still k \<or> k = WAIT_CALL"
  using waits_in_only [OF only_kid, of "start as (Some 3) ()" k] by (auto simp: nxt_def)

lemma only_main_rest: "only (pending_in (\<lambda>c. still c \<or> c = SET_CALL \<or> c = WAKE_CALL)) (main_rest kids)"
  unfolding main_rest_def atomic_set_def futex_def
  by (intro only_intros only_pending_mono [OF only_before_wake] only_pending_mono [OF only_dump]
      only_pending_mono [OF only_after_wake]) auto

lemma parent_calls: "nxt kids N as = Some k \<Longrightarrow> still k \<or> k = SET_CALL \<or> k = WAKE_CALL"
  using waits_in_only [OF only_main_rest, of kids "start as (Some 3) ()" k] by (auto simp: nxt_def)

text \<open>The parent changes the futex before it wakes the children.\<close>

lemma set_before_wake:
  assumes "nxt kids N (got c N) = Some WAKE_CALL"
  shows "parent_did kids c SET_CALL"
proof -
  let ?s = "start (got c N) (Some 3) () :: unit proc"
  let ?R = "bind (dump ''After 1, cleared test_futex, before 2:'') (\<lambda>_. bind (futex test_futex FUTEX_WAKE (int N)) (after_wake kids))"
  let ?S = "bind (atomic_set test_futex 1) (\<lambda>_. ?R)"
  have m: "main_rest kids = bind before_wake (\<lambda>_. ?S)" by (simp add: main_rest_def andthen_def)
  have "waits_in (main_rest kids ?s) = Some WAKE_CALL" using assms by (simp add: nxt_def)
  then have e: "Pending WAKE_CALL \<in> set (since ?s (final (main_rest kids ?s)))"
    by (auto dest!: pending_of_waits simp: since_def)
  have R: "appending ?R"
    by (intro append_intros only_appending [OF only_dump] only_appending [OF only_after_wake]) (simp add: futex_def append_intros)
  then have "appending ?S" by (rule appending_bind [rotated]) (simp add: atomic_set_def append_intros)
  with after_unit [OF e [unfolded m] only_before_wake] obtain t where
    "Pending WAKE_CALL \<in> set (since t (final (?S t)))" and
    st: "since ?s (final (main_rest kids ?s)) = since ?s t @ since t (final (?S t))"
    by (auto simp: m)
  moreover obtain r rs where "script t = r # rs"
    using calculation(1) by (cases "script t") (auto simp: atomic_set_def prog_simps)
  ultimately have "?S t = ?R (adv t [Got SET_CALL r] rs (errno t))" by (simp add: atomic_set_def prog_simps)
  moreover have "grows (adv t [Got SET_CALL r] rs (errno t)) (final (?R (adv t [Got SET_CALL r] rs (errno t))))"
    using R by (rule appendingD)
  ultimately have "Got SET_CALL r \<in> set (since t (final (?S t)))" by (auto simp: grows_def since_def)
  then show ?thesis using st
    by (auto simp: parent_did_def answered_def gots_Got since_def intro!: exI [of _ r])
qed

definition plain_inv :: "int list \<Rightarrow> fstate \<Rightarrow> bool" where
  "plain_inv kids c \<longleftrightarrow>
     queue c test_futex \<subseteq> {..<N} \<and> (parent_did kids c SET_CALL \<longrightarrow> mem c test_futex = 1) \<and>
     (parent_did kids c WAKE_CALL \<longrightarrow> queue c test_futex = {} \<and> mem c test_futex = 1)"

lemma plain_calls:
  assumes "nxt kids i as = Some k"
  shows "still k \<or> i < N \<and> k = WAIT_CALL \<or> i = N \<and> (k = SET_CALL \<or> k = WAKE_CALL)"
proof -
  have "i < N \<or> i = N" using assms by (auto simp: nxt_def split: if_splits)
  with assms kid_calls parent_calls show ?thesis by blast
qed

lemma still_keeps: "still (Atomic a) \<Longrightarrow> atomic_step a m = Some (v, m') \<Longrightarrow> m' test_futex = m test_futex"
  by (cases a) auto

lemma plain_inv_reply:
  assumes "plain_inv kids c" and "nxt kids i (got c i) = Some k" and "k \<noteq> SET_CALL" and "k \<noteq> WAKE_CALL"
  shows "plain_inv kids (reply i r c)"
  using assms by (auto simp: plain_inv_def parent_did_reply)

lemma parent_did_upd [simp]:
  "parent_did kids (mem_update f c) k = parent_did kids c k"
  "parent_did kids (queue_update g c) k = parent_did kids c k"
  "parent_did kids (released_update h c) k = parent_did kids c k"
  by (simp_all add: parent_did_def)

lemma wake_all:
  assumes "W \<subseteq> Q" and "Q \<subseteq> {..<n}" and "card W = min n (card Q)"
  shows "W = Q"
proof -
  have f: "finite Q" using assms(2) by (rule finite_subset) simp
  moreover have "card Q \<le> n" using card_mono [OF _ assms(2)] by simp
  ultimately show ?thesis using assms(1,3) by (simp add: card_subset_eq)
qed

lemma plain_reach:
  assumes "freach tid (nxt kids) (boot m) c" and "m test_futex = -1"
  shows "plain_inv kids c"
  using assms(1)
proof induction
  case start
  show ?case by (simp add: plain_inv_def parent_did_def main_rest_def before_wake_def log_safe_def gettid_def
      answered_def prog_simps)
next
  case (getpid c i)
  then show ?case by (intro plain_inv_reply [OF getpid.IH]) auto
next
  case (atomic c i a v m)
  show ?case
  proof (cases "Atomic a = SET_CALL")
    case True
    with atomic show ?thesis by (auto simp: plain_inv_def parent_did_reply)
  next
    case False
    with plain_calls [OF atomic(2)] atomic(3) have s: "still (Atomic a)" by (cases a) auto
    with still_keeps [OF s atomic(3)] atomic False show ?thesis by (auto simp: plain_inv_def parent_did_reply)
  qed
next
  case (changed c i v val)
  then show ?case by (intro plain_inv_reply [OF changed.IH]) (auto simp: FUTEX_WAIT_def FUTEX_WAKE_def)
next
  case (sleep c i v val)
  with plain_calls [OF sleep(2)] have "i < N" "v = test_futex" "mem c test_futex = -1"
    by (auto simp: FUTEX_WAIT_def FUTEX_WAKE_def)
  with sleep show ?case by (auto simp: plain_inv_def)
next
  case (woken c i v val)
  then show ?case
    by (auto simp: plain_inv_def parent_did_reply FUTEX_WAIT_def FUTEX_WAKE_def)
next
  case (interrupted c i v val e)
  with plain_calls [OF interrupted(2)] have "v = test_futex" by (auto simp: FUTEX_WAIT_def FUTEX_WAKE_def)
  with interrupted show ?case
    by (auto simp: plain_inv_def parent_did_reply FUTEX_WAIT_def FUTEX_WAKE_def)
next
  case (wake c i v n W)
  with plain_calls [OF wake(2)] have w: "i = N" "v = test_futex" "n = int N"
    by (auto simp: FUTEX_WAIT_def FUTEX_WAKE_def)
  with wake have "W = queue c test_futex" by (intro wake_all) (auto simp: plain_inv_def)
  moreover have "mem c test_futex = 1" using wake w set_before_wake by (auto simp: plain_inv_def)
  ultimately show ?case using wake w by (auto simp: plain_inv_def parent_did_reply)
next
  case (other c i k r)
  then show ?case by (intro plain_inv_reply [OF other.IH]) auto
qed

text \<open>
  \<^bold>\<open>C25.\<close> No child of plain is left behind: in every interleaving, once the parent's
  \<open>FUTEX_WAKE\<close> has returned nobody sleeps on the futex any more, and a child that is in
  \<open>FUTEX_WAIT\<close>, even one that comes to it only then, gets an answer. The futex was changed before
  the wake-up, so a late \<open>FUTEX_WAIT\<close> fails with \<open>EAGAIN\<close> instead of missing it.
\<close>

theorem nobody_sleeps_after_wake:
  assumes "freach tid (nxt kids) (boot m) c" and "m test_futex = -1" and "parent_did kids c WAKE_CALL"
  shows "queue c test_futex = {} \<and>
    (\<forall>i<N. nxt kids i (got c i) = Some WAIT_CALL \<longrightarrow> (\<exists>r c'. freach tid (nxt kids) c c' \<and> got c' i = got c i @ [r]))"
proof (intro conjI allI impI)
  have inv: "queue c test_futex = {}" "mem c test_futex = 1"
    using plain_reach [OF assms(1,2)] assms(3) by (auto simp: plain_inv_def)
  then show "queue c test_futex = {}" by simp
  fix i assume w: "i < N" "nxt kids i (got c i) = Some WAIT_CALL"
  show "\<exists>r c'. freach tid (nxt kids) c c' \<and> got c' i = got c i @ [r]"
  proof (cases "i \<in> released c")
    case True
    with freach.woken [OF freach.start, of "nxt kids" i c test_futex "- 1" tid] w(2) show ?thesis by fastforce
  next
    case False
    with freach.changed [OF freach.start, of "nxt kids" i c test_futex "- 1" tid] w(2) inv show ?thesis by fastforce
  qed
qed

text \<open>The parent alone, when all children have been counted.\<close>

definition counted :: "nat \<Rightarrow> int" where
  "counted = (\<lambda>_. 0)(dumb_barrier 0 := 3, test_futex := -1)"

definition parent_run :: "(nat \<Rightarrow> int) \<times> resp list" where
  "parent_run = solo 33 (\<lambda>as. waits_in (main_rest [7, 8, 9] (start as (Some 3) ()))) 103 [ok 4, ok 0, ok 0] counted []"

lemma parent_run_wakes:
  "(WAKE_CALL, ok 0) \<in> answered (main_rest [7, 8, 9] (start (snd parent_run) (Some 3) ()))"
  by code_simp

theorem nobody_sleeps_after_wake_witness:
  "\<exists>c. freach (\<lambda>i. int i + 100) (nxt [7, 8, 9]) (boot counted) c \<and> parent_did [7, 8, 9] c WAKE_CALL \<and>
    queue c test_futex = {} \<and> (\<forall>i<N. nxt [7, 8, 9] i (got c i) = Some WAIT_CALL \<longrightarrow>
      (\<exists>r c'. freach (\<lambda>i. int i + 100) (nxt [7, 8, 9]) c c' \<and> got c' i = got c i @ [r]))"
proof -
  let ?c = "set_got N parent_run (boot counted)"
  have n: "nxt [7, 8, 9] N = (\<lambda>as. waits_in (main_rest [7, 8, 9] (start as (Some 3) ())))" by (simp add: nxt_def fun_eq_iff)
  have "freach (\<lambda>i. int i + 100) (nxt [7, 8, 9]) (boot counted) ?c"
    using solo_reach [OF freach.start, of "boot counted" "\<lambda>i. int i + 100" "nxt [7, 8, 9]" N 33 "[ok 4, ok 0, ok 0]"]
    by (simp add: parent_run_def n) (simp add: N_def)
  moreover have "parent_did [7, 8, 9] ?c WAKE_CALL"
    using parent_run_wakes by (auto simp: parent_did_def set_got_def)
  ultimately show ?thesis using nobody_sleeps_after_wake [of _ "[7, 8, 9]" counted ?c] by (auto simp: counted_def)
qed

section \<open>When a child cannot be started\<close>

definition started :: "int list \<Rightarrow> resp list" where
  "started ps = concat (map (\<lambda>p. [ok 4096, ok p]) ps)"

lemma run_clone_kids:
  assumes "script s = started ps @ [ok 4096, failed e]" and "length ps < n" and "\<forall>p\<in>set ps. 0 \<le> p"
  shows "\<exists>t. clone_kids n i kids s = Done (i + int (length ps) - 1, kids @ ps @ [-1]) t \<and> script t = [] \<and> grows s t"
  using assms
proof (induction n arbitrary: ps i kids s)
  case (Suc n)
  show ?case
  proof (cases ps)
    case Nil
    with Suc.prems show ?thesis by (simp add: started_def prog_simps grows_def)
  next
    case (Cons p qs)
    let ?u = "adv s [Got (Proc (Malloc (SIGSTKSZ * 8))) (ok 4096),
      Got (Libc ''clone'' [I (4096 + SIGSTKSZ * 8), I clone_flags]) (ok p)] (started qs @ [ok 4096, failed e]) 0"
    have "clone_kids (Suc n) i kids s = clone_kids n (i + 1) (kids @ [p]) ?u"
      using Suc.prems Cons by (simp add: started_def prog_simps)
    moreover have "grows s ?u" by (simp add: grows_def)
    moreover have "\<exists>t. clone_kids n (i + 1) (kids @ [p]) ?u = Done (i + 1 + int (length qs) - 1, (kids @ [p]) @ qs @ [-1]) t
        \<and> script t = [] \<and> grows ?u t"
      using Suc.prems Cons by (intro Suc.IH) auto
    ultimately show ?thesis using Cons by (auto intro: grows_trans)
  qed
qed simp

text \<open>
  If a child cannot be started the parent of plain means to kill the ones it has, but
  leaves out the last of them: with the children \<open>ps\<close> it sends SIGTERM to all but the last
  one, which stays on the futex for ever.
\<close>

theorem last_child_survives:
  assumes "script s = started ps @ [ok 4096, failed e]" and "length ps < N" and "\<forall>p\<in>set ps. 0 \<le> p"
  shows "\<exists>i kids t u. clone_kids N 0 [] s = Done (i, kids) t \<and> i < int N \<and> kill_kids i kids t = Done () u \<and>
    since t u = map (\<lambda>p. Did (Proc (Kill p SIGTERM))) (rev (butlast ps))"
proof -
  have kills: "foreach (\<lambda>j. emit (Proc (Kill (f j) SIGTERM))) js t =
      Done () (adv t (map (\<lambda>j. Did (Proc (Kill (f j) SIGTERM))) js) (script t) (errno t))" for f js and t :: "unit proc"
    by (induction js arbitrary: t) (simp_all add: prog_simps)
  from run_clone_kids [OF assms, of 0 "[]"] obtain t where
    t: "clone_kids N 0 [] s = Done (int (length ps) - 1, ps @ [-1]) t" by auto
  have "map (\<lambda>j. (ps @ [- 1]) ! j) [0..<length ps - 1] = butlast ps"
    by (rule nth_equalityI) (auto simp: nth_append nth_butlast)
  then have "map (\<lambda>j. Did (Proc (Kill ((ps @ [- 1]) ! j) SIGTERM))) (rev [0..<length ps - 1]) =
      map (\<lambda>p. Did (Proc (Kill p SIGTERM))) (rev (butlast ps))"
    unfolding rev_map [symmetric] by (metis (no_types, lifting) list.map_comp comp_apply map_cong)
  moreover have "nat (int (length ps) - 1) = length ps - 1" by simp
  ultimately show ?thesis using t assms(2) by (simp add: kill_kids_def kills)
qed

theorem last_child_survives_witness:
  "\<exists>i kids t u. clone_kids N 0 [] (start [ok 4096, ok 7, ok 4096, ok 8, ok 4096, failed EAGAIN] (Some 3) ()) = Done (i, kids) t \<and>
    i < int N \<and> kill_kids i kids t = Done () u \<and> since t u = [Did (Proc (Kill 7 SIGTERM))]"
  using last_child_survives [of "start [ok 4096, ok 7, ok 4096, ok 8, ok 4096, failed EAGAIN] (Some 3) ()" "[7, 8]" EAGAIN]
  by (simp add: started_def N_def)

end
