(* ===== verification/Futex_Robust.thy ===== *)
theory Futex_Robust
  imports Libfutex
begin

text \<open>
  futex/robust.c: three children with robust lists wait on a futex of the parent; each child that
  gets it exits while it holds it. The futex word is the shared variable \<open>test_futex\<close>; the words
  are C ints, so the highest bit \<open>FUTEX_WAITERS\<close> is negative. The pointers of the robust lists
  are values of \<open>rptr\<close>: the head of the list of the process, or the entry of the futex. The log
  lock is the one of the process itself, since the processes do not share it.
\<close>

section \<open>Constants and globals\<close>

definition LOG_FILE :: string where "LOG_FILE = ''log.robust''"
definition N :: nat where "N = 3"
definition CHILD_READY :: char where "CHILD_READY = CHR 0x00"
definition CHILD_ERROR :: char where "CHILD_ERROR = CHR 0xFF"

definition FUTEX_WAITERS :: int where "FUTEX_WAITERS = - 0x80000000"
definition FUTEX_OWNER_DIED :: int where "FUTEX_OWNER_DIED = 0x40000000"
definition FUTEX_TID_MASK :: int where "FUTEX_TID_MASK = 0x3fffffff"

definition test_futex :: nat where "test_futex = 1"
definition SIGTERM :: int where "SIGTERM = 15"

datatype rptr = Head | Entry

text \<open>
  \<open>rlist_next\<close> is \<open>rlist.list.next\<close>, a variable of the process. The link \<open>test_futex->rlist.next\<close> lies
  in the page the processes share; the program only writes it, and a store to it is an event.
\<close>

record rob_globals =
  pass :: int
  fail :: int
  children_ready :: "int \<times> int"
  rlist_next :: rptr
  list_op_pending :: "rptr option"

definition init_globals :: rob_globals where
  "init_globals = \<lparr>pass = 0, fail = 0, children_ready = (0, 0), rlist_next = Head, list_op_pending = None\<rparr>"

text \<open>The address and the size of \<open>rlist\<close>, as the robust list calls see them.\<close>

definition RLIST :: int where "RLIST = 6295744"
definition SIZEOF_RLIST :: int where "SIZEOF_RLIST = 24"

text \<open>The address of \<open>test_futex->rlist\<close> in the shared page, and the word at it.\<close>

definition RF_RLIST :: int where "RF_RLIST = 0x7f0000000008"
definition rf_next :: nat where "rf_next = 2"

fun addr :: "rptr \<Rightarrow> int" where
  "addr Head = RLIST"
| "addr Entry = RF_RLIST"

abbreviation set_rf_next :: "rptr \<Rightarrow> (rob_globals, unit) prog" where
  "set_rf_next p \<equiv> emit (Atomic (AtomicSet rf_next (addr p)))"

type_synonym 'a rprog = "(rob_globals, 'a) prog"

abbreviation failed_once :: "unit rprog" where
  "failed_once \<equiv> set_glob (\<lambda>g. g\<lparr>fail := fail g + 1\<rparr>)"

abbreviation passed_once :: "unit rprog" where
  "passed_once \<equiv> set_glob (\<lambda>g. g\<lparr>pass := pass g + 1\<rparr>)"

section \<open>Taking the futex\<close>

definition add_rfutex :: "unit rprog" where
  "add_rfutex =
     block [log_safe INFO 98 [],
       with_glob rlist_next set_rf_next,
       set_glob (\<lambda>g. g\<lparr>rlist_next := Entry\<rparr>),
       set_glob (\<lambda>g. g\<lparr>list_op_pending := None\<rparr>)]"

text \<open>
  The turns of the loop in \<open>acquire_rfutex\<close>: \<open>Inl\<close> is \<open>continue\<close>, \<open>Inr True\<close> is \<open>break\<close> and
  \<open>Inr False\<close> is \<open>return\<close>.
\<close>

definition give_up :: "tag \<Rightarrow> nat \<Rightarrow> (unit + bool) rprog" where
  "give_up tg n = andthen (block [log_safe tg n [], failed_once]) (return (Inr False))"

definition wait_error :: "int \<Rightarrow> int \<Rightarrow> (unit + bool) rprog" where
  "wait_error oldval e =
     (if e = ERESTART then andthen (log_safe WARN 138 []) (return (Inl ()))
      else if e = EAGAIN then
        andthen (log_safe WARN 141 []) (
        bind (atomic_read test_futex) (\<lambda>newval.
        if newval \<noteq> oldval then
          bind (sysv (Unistd (Creat ''TBROK'' 493))) (\<lambda>ret.
          andthen (if ret = -1 then failed_once else return ()) (return (Inr False)))
        else return (Inl ())))
      else if e = EINTR then andthen (log_safe WARN 151 []) (return (Inl ()))
      else if e = ETIMEDOUT then give_up FAIL 154
      else if e = EACCES then give_up FAIL 158
      else if e = EFAULT then give_up FAIL 162
      else if e = EINVAL then give_up FAIL 166
      else if e = ENOSYS then give_up FAIL 170
      else andthen (block [log_error_safe 174 ''FUTEX_WAIT unexpected error (missing from man page)'', failed_once])
        (return (Inr False)))"

definition acquire_body :: "int \<Rightarrow> int \<Rightarrow> unit \<Rightarrow> (unit + bool) rprog" where
  "acquire_body oldval tid _ =
     bind (atomic_cmpxchg test_futex 0 tid) (\<lambda>val.
     if val = 0 then andthen (block [log_safe FAIL 119 [], failed_once]) (return (Inr True))
     else bind (atom (Atomic (AtomicOr test_futex FUTEX_WAITERS))) (\<lambda>val.
     andthen (log_safe INFO 131 [I val]) (
     bind (futex test_futex FUTEX_WAIT val) (\<lambda>r.
     if rv r = 0 then return (Inr True)
     else andthen (log_safe INFO 135 [I (er r)]) (wait_error oldval (er r))))))"

definition recover :: "int \<Rightarrow> unit rprog" where
  "recover tid =
     andthen (log_safe INFO 180 []) (
     bind (atomic_read test_futex) (\<lambda>val.
     andthen (if val AND FUTEX_OWNER_DIED \<noteq> 0 then log_safe INFO 186 [] else return ()) (
     andthen (atomic_set test_futex (tid OR (val AND FUTEX_WAITERS))) add_rfutex)))"

definition acquire_rfutex :: "int \<Rightarrow> unit rprog" where
  "acquire_rfutex tid0 =
     andthen (set_glob (\<lambda>g. g\<lparr>list_op_pending := Some Entry\<rparr>)) (
     bind (atomic_read test_futex) (\<lambda>oldval.
     let tid = tid0 AND FUTEX_TID_MASK in
     bind (loop (acquire_body oldval tid) ()) (\<lambda>held.
     if held then recover tid else return ())))"

definition release_rfutex :: "int \<Rightarrow> int rprog" where
  "release_rfutex tid =
     bind (atomic_cmpxchg test_futex tid 0) (\<lambda>val.
     if val = tid then andthen (block [log_safe FAIL 202 [], failed_once]) (return (-1))
     else bind (futex test_futex FUTEX_WAKE 1) (\<lambda>r.
     if rv r \<noteq> 1 then
       andthen (block [log_error_safe 208 ''futex(FUTEX_WAKE)'',
         bind (gets errno) (\<lambda>e. log_safe FAIL 209 [I e]), failed_once]) (return (-1))
     else return 0))"

definition check_rlist :: "int \<Rightarrow> int rprog" where
  "check_rlist i =
     bind (sys (Libc ''get_robust_list'' [I 0])) (\<lambda>r.
     if rv r < 0 then andthen (block [log_safe FAIL 233 [I i], failed_once]) (return (-1))
     else if out 0 r = RLIST \<and> out 1 r = SIZEOF_RLIST then andthen passed_once (return 0)
     else andthen (block [log_safe FAIL 243 [I i, I (out 0 r), I (out 1 r), I RLIST, I SIZEOF_RLIST], failed_once])
       (return (-1)))"

section \<open>The children\<close>

definition write_body :: "int \<Rightarrow> char \<Rightarrow> unit \<Rightarrow> (unit + unit) rprog" where
  "write_body fd status _ =
     bind (sysv (Unistd (Write fd [status]))) (\<lambda>n. return (if n \<noteq> 1 then Inl () else Inr ()))"

text \<open>The descriptor is always \<open>children_ready[1]\<close>.\<close>

definition send_parent_status :: "char \<Rightarrow> unit rprog" where
  "send_parent_status status =
     with_glob children_ready (\<lambda>(rd, wr).
     block [loop (write_body wr status) (), emit (Unistd (Close wr)),
       set_glob (\<lambda>g. g\<lparr>children_ready := (rd, -1)\<rparr>)])"

text \<open>From the label \<open>do_exit\<close> on.\<close>

definition kid_exit :: "'a rprog" where
  "kid_exit =
     andthen (log_safe INFO 291 []) (
     with_glob pass (\<lambda>p. with_glob fail (\<lambda>f.
     exit_with (if p \<noteq> 0 \<and> f = 0 then 0 else 1))))"

definition kid_error :: "'a rprog" where
  "kid_error = andthen (block [send_parent_status CHILD_ERROR, failed_once]) kid_exit"

definition kid :: "int \<Rightarrow> 'a rprog" where
  "kid i =
     bind (sysv (Libc ''set_robust_list'' [I RLIST, I SIZEOF_RLIST])) (\<lambda>rc.
     if rc < 0 then andthen (log_error_safe 261 ''set_robust_list'') kid_error
     else bind (check_rlist i) (\<lambda>c.
     if c \<noteq> 0 then kid_error
     else andthen (block [log_safe INFO 272 [], set_checkpoint_ready,
       poll test_checkpoint_done (emit (Proc (Sleep 1)))]) (
     bind (check_rlist i) (\<lambda>c.
     if c \<noteq> 0 then kid_error
     else andthen (send_parent_status CHILD_READY) (
     bind gettid (\<lambda>tid.
     andthen (block [acquire_rfutex tid, passed_once]) kid_exit))))))"

section \<open>The parent\<close>

definition dump :: "string \<Rightarrow> unit rprog" where
  "dump pre =
     bind gettid (\<lambda>tid.
     andthen (lock_log tid) (
     bind (atomic_read test_futex) (\<lambda>v.
     block [log_msg INFO 299 [S pre, I v], unlock_log tid])))"

definition sig_dump :: "unit rprog" where
  "sig_dump = dump ''Ctrl-C Interrupt sample:''"

definition exit_logs :: "int \<Rightarrow> 'a rprog" where
  "exit_logs excode = andthen (bind (gets logfp) (\<lambda>fp. emit (Stdio (Fclose (the fp))))) (exit_with excode)"

definition exit_pipe :: "int \<Rightarrow> 'a rprog" where
  "exit_pipe excode =
     andthen (with_glob children_ready (\<lambda>(rd, wr). block [emit (Unistd (Close rd)), emit (Unistd (Close wr))]))
       (exit_logs excode)"

text \<open>Forking the children that are left, from index \<open>i\<close> on: the index at the end and the pids.\<close>

primrec fork_kids :: "nat \<Rightarrow> nat \<Rightarrow> int list \<Rightarrow> (nat \<times> int list) rprog" where
  "fork_kids 0 i kids = return (i, kids)"
| "fork_kids (Suc k) i kids =
     bind (sysv (Proc Fork)) (\<lambda>pid.
     if pid < 0 then return (i, kids)
     else if pid = 0 then
       andthen (with_glob children_ready (\<lambda>(rd, wr). emit (Unistd (Close rd)))) (kid (int i + 1))
     else fork_kids k (i + 1) (kids @ [pid]))"

text \<open>One status byte of a child; the condition of the loop is tested after every turn.\<close>

definition ready_body :: "unit \<Rightarrow> (unit + unit) rprog" where
  "ready_body _ =
     with_glob children_ready (\<lambda>(rd, wr).
     bind (sys (Unistd (Read rd 1))) (\<lambda>r.
     andthen
       (if rv r \<noteq> 1 then return ()
        else if rdat r = [CHILD_READY] then passed_once else failed_once)
       (with_glob pass (\<lambda>p. with_glob fail (\<lambda>f.
        return (if p + f < int N then Inl () else Inr ()))))))"

definition wake_one :: "'a rprog" where
  "wake_one =
     andthen (log_safe INFO 406 []) (
     bind gettid (\<lambda>tid.
     bind (release_rfutex tid) (\<lambda>_.
     andthen (log_safe INFO 408 []) (
     bind (do_wait (int N)) (\<lambda>_.
     andthen (log_safe INFO 410 []) (
     with_glob pass (\<lambda>p. with_glob fail (\<lambda>f.
     exit_pipe (if p \<noteq> 0 \<and> f = 0 then 0 else 1)))))))))"

definition parent :: "'a rprog" where
  "parent =
     bind (fork_kids N 0 []) (\<lambda>(i, kids).
     if i < N then
       andthen (block [log_error_safe 386 ''N x FUTEX_WAIT'', failed_once, log_safe INFO 388 [I (int i)],
         foreach (\<lambda>j. emit (Proc (Kill (kids ! j) SIGTERM))) (rev [0..<i])]) (exit_pipe 1)
     else andthen (loop ready_body ()) wake_one)"

definition main :: "string list \<Rightarrow> int rprog" where
  "main argv =
     (if length argv < 2 then exit_with 1
      else andthen (emit (Unistd (Close 0))) (
      bind (sysv (Stdio (Fopen LOG_FILE ''w''))) (\<lambda>fp.
      if fp < 0 then andthen (emit (Stdio (Perror 321))) (exit_with 1)
      else andthen (modify (\<lambda>s. s\<lparr>logfp := Some fp\<rparr>)) (
      bind (sysv (Unistd (Dup2 fp 1))) (\<lambda>d1.
      bind (if d1 \<noteq> 1 then return True else bind (sysv (Unistd (Dup2 fp 2))) (\<lambda>d2. return (d2 \<noteq> 2))) (\<lambda>bad.
      if bad then andthen (log_error_safe 327 ''dup2() logfp to stdout and stderr'') (exit_logs 1)
      else bind (sysv (Proc Getpid)) (\<lambda>pid.
      bind (move_to_cgroup ''freezer'' (argv ! 1) pid) (\<lambda>m.
      if m = 0 then andthen (log_error_safe 332 ''move_to_cgroup'') (exit_logs 1)
      else bind (sys (Unistd Pipe)) (\<lambda>r.
      if rv r = -1 then andthen (log_error_safe 341 ''pipe(children_ready)'') (exit_logs 1)
      else andthen (set_glob (\<lambda>g. g\<lparr>children_ready := (out 0 r, out 1 r)\<rparr>)) (
      bind (sysv (Libc ''mmap'' [I 16, I (3 OR PROT_SEM)])) (\<lambda>p.
      if p = -1 then andthen (log_error_safe 353 ''mmap shared futex'') (exit_pipe 1)
      else andthen (block [atomic_set test_futex 0, set_rf_next Entry]) (
      bind (sysv (Libc ''set_robust_list'' [I RLIST, I SIZEOF_RLIST])) (\<lambda>rc.
      if rc \<noteq> 0 then andthen (log_error_safe 362 ''set_robust_list'') (exit_pipe 1)
      else bind (check_rlist 0) (\<lambda>_.
      bind gettid (\<lambda>tid.
      andthen (block [atomic_set test_futex tid, emit (Proc (Signal SIGINT 302))])
        parent)))))))))))))))"

section \<open>The loops\<close>

interpretation aq: script_loop "acquire_body oldval tid" for oldval tid
  by (rule script_loopI)
    (auto simp: acquire_body_def wait_error_def give_up_def atomic_defs intro!: consuming_bind consuming_atom shrink_intros)

interpretation wb: script_loop "write_body fd status" for fd status
  by (rule script_loopI) (auto simp: write_body_def intro!: consuming_bind consuming_sysv shrink_intros)

interpretation rb: script_loop ready_body
  by (rule script_loopI)
    (auto simp: ready_body_def intro!: consuming_with_glob consuming_bind consuming_sys shrink_intros split: prod.split)

section \<open>The futex word\<close>

lemma word_masks: "FUTEX_TID_MASK = mask 30" "FUTEX_OWNER_DIED = push_bit 30 1" "FUTEX_WAITERS = NOT (mask 31)"
  by (simp_all add: FUTEX_TID_MASK_def FUTEX_OWNER_DIED_def FUTEX_WAITERS_def mask_eq_exp_minus_1 push_bit_eq_mult not_int_def)

lemma bit_masks:
  "bit FUTEX_TID_MASK n \<longleftrightarrow> n < 30" "bit FUTEX_OWNER_DIED n \<longleftrightarrow> n = 30" "bit FUTEX_WAITERS n \<longleftrightarrow> 31 \<le> n"
  unfolding word_masks bit_push_bit_iff by (auto simp: bit_simps)

lemma recovered_word:
  fixes tid val :: int
  defines "w \<equiv> (tid AND FUTEX_TID_MASK) OR (val AND FUTEX_WAITERS)"
  shows "w AND FUTEX_TID_MASK = tid AND FUTEX_TID_MASK" and "w AND FUTEX_OWNER_DIED = 0"
    and "w AND FUTEX_WAITERS = val AND FUTEX_WAITERS"
  unfolding w_def by (rule bit_eqI, auto simp: bit_and_iff bit_or_iff bit_masks)+

lemma taken_word:
  "(tid AND FUTEX_TID_MASK) AND FUTEX_TID_MASK = tid AND FUTEX_TID_MASK"
  "(tid AND FUTEX_TID_MASK) AND FUTEX_OWNER_DIED = 0"
  by (rule bit_eqI, auto simp: bit_and_iff bit_masks)+

lemma waiters_word:
  "(w OR FUTEX_WAITERS) AND FUTEX_TID_MASK = w AND FUTEX_TID_MASK"
  "(w OR FUTEX_WAITERS) AND FUTEX_OWNER_DIED = w AND FUTEX_OWNER_DIED"
  by (rule bit_eqI, auto simp: bit_and_iff bit_or_iff bit_masks)+

text \<open>What an operation on a shared word makes of the word \<open>w\<close> it finds, and which word it is on.\<close>

fun new_word :: "atomic_call \<Rightarrow> int \<Rightarrow> int" where
  "new_word (AtomicRead v) w = w"
| "new_word (AtomicSet v val) w = val"
| "new_word (AtomicInc v) w = w + 1"
| "new_word (AtomicCmpxchg v old new) w = (if w = old then new else w)"
| "new_word (AtomicOr v m) w = w OR m"
| "new_word (Futex v op val) w = w"

fun word_of :: "atomic_call \<Rightarrow> nat" where
  "word_of (AtomicRead v) = v"
| "word_of (AtomicSet v val) = v"
| "word_of (AtomicInc v) = v"
| "word_of (AtomicCmpxchg v old new) = v"
| "word_of (AtomicOr v m) = v"
| "word_of (Futex v op val) = v"

text \<open>The owner in the word is left as it is, with the mark of its death, or it is the process \<open>tid\<close>, alive.\<close>

definition owner_kept_or :: "int \<Rightarrow> int \<Rightarrow> int \<Rightarrow> bool" where
  "owner_kept_or tid w w' \<longleftrightarrow>
     w' AND FUTEX_TID_MASK = w AND FUTEX_TID_MASK \<and> w' AND FUTEX_OWNER_DIED = w AND FUTEX_OWNER_DIED \<or>
     w' AND FUTEX_TID_MASK = tid AND FUTEX_TID_MASK \<and> w' AND FUTEX_OWNER_DIED = 0"

definition writes_ok :: "int \<Rightarrow> event \<Rightarrow> bool" where
  "writes_ok tid e \<longleftrightarrow>
     (\<forall>a r w. e = Got (Atomic a) r \<longrightarrow> word_of a = test_futex \<longrightarrow> owner_kept_or tid w (new_word a w))"

lemmas writes_defs = writes_ok_def owner_kept_or_def recovered_word taken_word waiters_word

lemma lock_is_another: "LOG_LOCK \<noteq> test_futex"
  by (simp add: LOG_LOCK_def test_futex_def)

lemma only_wait_error: "only (writes_ok tid) (wait_error oldval e)"
  unfolding wait_error_def give_up_def atomic_defs
  by (intro only_intros) (simp_all add: writes_defs lock_is_another)

lemma only_acquire: "only (writes_ok tid) (acquire_rfutex tid)"
  unfolding acquire_rfutex_def recover_def add_rfutex_def acquire_body_def atomic_defs Let_def
  by (intro only_intros aq.only_loop [unfolded acquire_body_def atomic_defs] only_wait_error)
    (simp_all add: writes_defs lock_is_another)

text \<open>
  \<^bold>\<open>C28.\<close> Every operation of \<open>acquire_rfutex\<close> on the futex word, whatever word it finds there, leaves
  the owner and the mark that the owner died as they are, or makes the caller the owner without
  that mark. So the \<open>cmpxchg\<close>, the \<open>or\<close> that announces a waiter and the store of the recovery never
  name a third process, and the recovery clears the \<open>FUTEX_OWNER_DIED\<close> the kernel has set.
\<close>

theorem acquire_writes_owner:
  assumes "Got (Atomic a) r \<in> set (since s (final (acquire_rfutex tid s)))" and "word_of a = test_futex"
  shows "new_word a w AND FUTEX_TID_MASK = w AND FUTEX_TID_MASK \<and>
      new_word a w AND FUTEX_OWNER_DIED = w AND FUTEX_OWNER_DIED \<or>
    new_word a w AND FUTEX_TID_MASK = tid AND FUTEX_TID_MASK \<and> new_word a w AND FUTEX_OWNER_DIED = 0"
  using onlyD [OF only_acquire assms(1)] assms(2) by (simp add: writes_ok_def owner_kept_or_def)

text \<open>The answers to one log message of the process with the id \<open>t\<close>.\<close>

abbreviation logged :: "int \<Rightarrow> resp list" where
  "logged t \<equiv> [ok t, ok 0, ok t]"

text \<open>A child that waits for the parent, which has the id 50, and gets the futex of a dead owner.\<close>

definition taken_over :: "rob_globals proc" where
  "taken_over = start ([ok 50, ok 50, ok (50 OR FUTEX_WAITERS)] @ logged 60 @ [ok 0] @ logged 60 @
     [ok (51 OR FUTEX_WAITERS OR FUTEX_OWNER_DIED)] @ logged 60 @ [ok 0] @ logged 60) (Some 3) init_globals"

theorem acquire_writes_owner_witness:
  "Got (Atomic (AtomicSet 1 (- 2147483588))) (ok 0) \<in> set (since taken_over (final (acquire_rfutex 60 taken_over))) \<and>
    (- 2147483588) AND FUTEX_TID_MASK = 60 AND FUTEX_TID_MASK \<and> (- 2147483588) AND FUTEX_OWNER_DIED = 0"
proof -
  have e: "Got (Atomic (AtomicSet 1 (- 2147483588))) (ok 0) \<in> set (since taken_over (final (acquire_rfutex 60 taken_over)))"
    by code_simp
  have "(51 OR FUTEX_WAITERS OR FUTEX_OWNER_DIED) AND FUTEX_TID_MASK \<noteq> (- 2147483588) AND FUTEX_TID_MASK"
    by (simp add: FUTEX_WAITERS_def FUTEX_OWNER_DIED_def FUTEX_TID_MASK_def)
  with e acquire_writes_owner [OF e, where w = "51 OR FUTEX_WAITERS OR FUTEX_OWNER_DIED"] show ?thesis
    by (simp add: test_futex_def)
qed

section \<open>The robust list\<close>

text \<open>
  The kernel's view of the list: the entries from the head on, followed for at most
  \<open>ROBUST_LIST_LIMIT\<close> steps; \<open>None\<close> if the head is not reached again. \<open>link\<close> is what the shared page
  has in the link of the entry.
\<close>

fun walk :: "nat \<Rightarrow> rptr \<Rightarrow> rptr \<Rightarrow> rptr list option" where
  "walk n link Head = Some []"
| "walk 0 link Entry = None"
| "walk (Suc n) link Entry = map_option (Cons Entry) (walk n link link)"

definition robust_list :: "rob_globals \<Rightarrow> rptr \<Rightarrow> rptr list option" where
  "robust_list g link = walk 2048 link (rlist_next g)"

text \<open>The link after the events of a process: what it stored last, or what was there before.\<close>

fun link_after :: "rptr \<Rightarrow> event list \<Rightarrow> rptr" where
  "link_after l [] = l"
| "link_after l (Did (Atomic (AtomicSet v a)) # es) =
     link_after (if v = rf_next then if a = addr Head then Head else Entry else l) es"
| "link_after l (_ # es) = link_after l es"

lemma link_after_append: "link_after l (es @ fs) = link_after (link_after l es) fs"
  by (induction l es rule: link_after.induct) simp_all

lemma addr_inj [simp]: "addr p = addr q \<longleftrightarrow> p = q"
  by (cases p; cases q) (simp_all add: RLIST_def RF_RLIST_def)

lemma link_after_store [simp]: "link_after l (es @ [Did (Atomic (AtomicSet rf_next (addr p)))]) = p"
  by (cases p) (simp_all add: link_after_append del: addr.simps)

lemma robust_list_Nil: "robust_list g l = Some [] \<longleftrightarrow> rlist_next g = Head"
  using walk.simps(3) [of 2047 l] by (cases "rlist_next g") (auto simp: robust_list_def)

lemma robust_list_Entry: "rlist_next g = Entry \<Longrightarrow> robust_list g Head = Some [Entry]"
  using walk.simps(3) [of 2047 Head] by (simp add: robust_list_def)

definition same_list :: "rob_globals \<Rightarrow> rob_globals \<Rightarrow> bool" where
  "same_list g h \<longleftrightarrow> rlist_next h = rlist_next g \<and> list_op_pending h = list_op_pending g"

interpretation sl: keeper same_list
  by unfold_locales (auto simp: same_list_def)

lemma same_list_acquire_loop: "keeps same_list (loop (acquire_body oldval tid) ())"
  unfolding acquire_body_def wait_error_def give_up_def atomic_defs
  by (intro sl.keeps_loop sl.keeps_rules sl.keeps_atom sl.keeps_log_safe keeps_set_glob
      aq.script_loop_axioms [unfolded acquire_body_def wait_error_def give_up_def atomic_defs])
    (simp_all add: same_list_def)

section \<open>Getting the futex\<close>

text \<open>
  The answers with which the futex becomes the caller's: the exchange that found it free, or the
  end of a wait. The other one is the store that writes the caller into the word.
\<close>

definition got_futex :: "int \<Rightarrow> event \<Rightarrow> bool" where
  "got_futex tid e \<longleftrightarrow>
     (\<exists>r. e = Got (Atomic (AtomicCmpxchg test_futex 0 (tid AND FUTEX_TID_MASK))) r \<and> rv r = 0) \<or>
     (\<exists>val r. e = Got (Atomic (Futex test_futex FUTEX_WAIT val)) r \<and> rv r = 0)"

definition sets_word :: "event \<Rightarrow> bool" where
  "sets_word e \<longleftrightarrow> (\<exists>w r. e = Got (Atomic (AtomicSet test_futex w)) r)"

text \<open>Runs that return: whether they contain an event of a kind shows in the result.\<close>

definition tells :: "(event \<Rightarrow> bool) \<Rightarrow> ('g, 'a) prog \<Rightarrow> ('a \<Rightarrow> bool) \<Rightarrow> bool" where
  "tells G p B \<longleftrightarrow> appending p \<and> (\<forall>s a t. p s = Done a t \<longrightarrow> ((\<exists>e \<in> set (since s t). G e) \<longleftrightarrow> B a))"

definition results :: "('g, 'a) prog \<Rightarrow> ('a \<Rightarrow> bool) \<Rightarrow> bool" where
  "results p B \<longleftrightarrow> appending p \<and> (\<forall>s a t. p s = Done a t \<longrightarrow> B a)"

lemma tellsD: "tells G p B \<Longrightarrow> p s = Done a t \<Longrightarrow> (\<exists>e \<in> set (since s t). G e) \<longleftrightarrow> B a"
  by (simp add: tells_def)

lemma tells_return: "\<not> B a \<Longrightarrow> tells G (return a) B"
  by (simp add: tells_def return_def append_intros)

lemma results_return: "B a \<Longrightarrow> results (return a) B"
  by (simp add: results_def return_def append_intros)

lemma since_bind:
  assumes "p s = Done a u" and "appending p" and "f a u = Done b t" and "appending (f a)"
  shows "since s t = since s u @ since u t"
  using appending_Done [OF assms(2,1)] appending_Done [OF assms(4,3)] by (rule since_trans)

lemma bind_DoneE:
  assumes "bind p f s = Done b t"
  obtains a u where "p s = Done a u" "f a u = Done b t"
  using assms by (auto simp: bind_def split: outcome.splits)

lemma tells_quiet_bind:
  assumes "only (\<lambda>e. \<not> G e) p" and f: "\<And>a. tells G (f a) B"
  shows "tells G (bind p f) B"
  unfolding tells_def
proof (intro conjI allI impI)
  have p: "appending p" using assms(1) by (rule only_appending)
  moreover have fa: "appending (f a)" for a using f [of a] by (simp add: tells_def)
  ultimately show "appending (bind p f)" by (intro append_intros)
  fix s b t
  assume "bind p f s = Done b t"
  then obtain a u where a: "p s = Done a u" "f a u = Done b t" by (rule bind_DoneE)
  have "\<forall>e \<in> set (since s u). \<not> G e" using onlyD [OF assms(1), of _ s] a(1) by auto
  then show "(\<exists>e \<in> set (since s t). G e) \<longleftrightarrow> B b"
    using tellsD [OF f a(2)] since_bind [where f = f, OF a(1) p a(2) fa] by auto
qed

lemma results_bind:
  assumes "appending p" and f: "\<And>a. results (f a) B"
  shows "results (bind p f) B"
  using assms by (auto simp: results_def elim!: bind_DoneE intro!: append_intros)

text \<open>An answered call: when the answer is of the kind, only the result matters from there on.\<close>

lemma tells_call:
  assumes p: "\<And>s. p s = (case script s of [] \<Rightarrow> Blocked (adv s [Pending c] [] (errno s))
      | r # rs \<Rightarrow> Done (h r) (adv s [Got c r] rs (e s r)))"
    and t: "\<And>r. \<not> G (Got c r) \<Longrightarrow> tells G (f (h r)) B" and g: "\<And>r. G (Got c r) \<Longrightarrow> results (f (h r)) B"
  shows "tells G (bind p f) B"
  unfolding tells_def
proof (intro conjI allI impI)
  have ap: "appending p" by (simp add: appending_def p grows_def split: list.split)
  have af: "appending (f (h r))" for r using t [of r] g [of r] by (auto simp: tells_def results_def)
  show "appending (bind p f)"
    unfolding appending_def
  proof
    fix s
    show "grows s (final (bind p f s))"
    proof (cases "script s")
      case (Cons r rs)
      have "grows s (adv s [Got c r] rs (e s r))" by (simp add: grows_def)
      moreover have "grows (adv s [Got c r] rs (e s r)) (final (f (h r) (adv s [Got c r] rs (e s r))))" by (rule appendingD [OF af])
      ultimately have "grows s (final (f (h r) (adv s [Got c r] rs (e s r))))" by (rule grows_trans)
      then show ?thesis by (simp add: bind_def p Cons)
    qed (simp add: bind_def p grows_def)
  qed
  fix s b t
  assume "bind p f s = Done b t"
  then obtain r rs where r: "script s = r # rs" and d: "f (h r) (adv s [Got c r] rs (e s r)) = Done b t"
    by (auto simp: bind_def p split: list.splits)
  have "since s t = Got c r # since (adv s [Got c r] rs (e s r)) t"
    using appending_Done [OF af d] by (rule since_step)
  then show "(\<exists>e \<in> set (since s t). G e) \<longleftrightarrow> B b"
    using d tellsD [OF t d] g [of r] by (cases "G (Got c r)") (auto simp: results_def)
qed

lemmas tells_atom = tells_call [where p = "atom c" and h = rv and e = "\<lambda>s r. errno s" for c, OF atom_def]
lemmas tells_sys = tells_call [where p = "sys c" and h = "\<lambda>r. r" and e = "\<lambda>s r. er r" for c, OF sys_def]

lemma got_futex_simps [simp]:
  "got_futex tid (Got (Atomic (AtomicCmpxchg test_futex 0 (tid AND FUTEX_TID_MASK))) r) \<longleftrightarrow> rv r = 0"
  "got_futex tid (Got (Atomic (Futex test_futex FUTEX_WAIT val)) r) \<longleftrightarrow> rv r = 0"
  "\<not> got_futex tid (Got (Atomic (AtomicOr v m)) r)" "\<not> got_futex tid (Got (Atomic (AtomicRead v)) r)"
  by (simp_all add: got_futex_def)

lemma quiet_log:
  "only (\<lambda>e. \<not> got_futex tid e) (log_safe tg n args)" "only (\<lambda>e. \<not> got_futex tid e) (log_error_safe n what)"
  by (intro only_intros; simp add: got_futex_def lock_is_another)+

lemma wait_error_tells: "tells (got_futex tid) (wait_error oldval e) (\<lambda>r. r = Inr True)"
  unfolding wait_error_def give_up_def andthen_def block.simps atomic_defs
  by (auto intro!: tells_quiet_bind quiet_log tells_return only_intros simp: got_futex_def lock_is_another)

lemma acquire_body_tells: "tells (got_futex tid) (acquire_body oldval (tid AND FUTEX_TID_MASK) u) (\<lambda>r. r = Inr True)"
  unfolding acquire_body_def atomic_defs andthen_def
  by (auto intro!: tells_atom tells_sys tells_quiet_bind [OF quiet_log(1)] wait_error_tells
        results_return results_bind append_intros)

lemma acquire_loop_tells: "tells (got_futex tid) (loop (acquire_body oldval (tid AND FUTEX_TID_MASK)) u) (\<lambda>held. held)"
  unfolding tells_def
proof (intro conjI allI impI)
  let ?b = "acquire_body oldval (tid AND FUTEX_TID_MASK)"
  have ab: "appending (?b u)" for u using acquire_body_tells by (simp add: tells_def)
  then show al: "appending (loop ?b u)" for u by (rule aq.appending_loop)
  fix s held t
  assume "loop ?b u s = Done held t"
  then show "(\<exists>e \<in> set (since s t). got_futex tid e) \<longleftrightarrow> held"
  proof (induction u s rule: aq.induct [where oldval = oldval and tid = "tid AND FUTEX_TID_MASK"])
    case (turn u s)
    from turn.prems obtain r v where b: "?b u s = Done r v"
      and rest: "(case r of Inl a' \<Rightarrow> loop ?b a' | Inr b \<Rightarrow> return b) v = Done held t"
      by (subst (asm) aq.unfold) (rule bind_DoneE)
    note told = tellsD [OF acquire_body_tells b]
    show ?case
    proof (cases r)
      case (Inl a')
      with rest have l: "loop ?b a' v = Done held t" by simp
      then have "since s t = since s v @ since v t"
        using appending_Done [OF ab b] appending_Done [OF al l] by (intro since_trans)
      with turn.IH [OF b [unfolded Inl] l] told Inl show ?thesis by auto
    next
      case (Inr h)
      with rest told show ?thesis by (cases h) (auto simp: return_def)
    qed
  qed
qed

text \<open>The loop does not set the word.\<close>

lemma acquire_loop_quiet: "only (\<lambda>e. \<not> sets_word e) (loop (acquire_body oldval tid) ())"
  unfolding acquire_body_def wait_error_def give_up_def atomic_defs
  by (intro aq.only_loop [unfolded acquire_body_def wait_error_def give_up_def atomic_defs] only_intros)
    (simp_all add: sets_word_def)

section \<open>Entering it in the list\<close>

lemma add_rfutex_Done:
  assumes "add_rfutex s = Done () t"
  shows "rlist_next (glob t) = Entry \<and> list_op_pending (glob t) = None \<and>
    (\<exists>es. trace t = trace s @ es @ [Did (Atomic (AtomicSet rf_next (addr (rlist_next (glob s)))))])"
proof -
  from assms obtain u where u: "log_safe INFO 98 [] s = Done () u"
    by (auto simp: add_rfutex_def andthen_def bind_def split: outcome.splits)
  have "glob u = glob s" using keepsD [OF same.keeps_log_safe(1) u] by simp
  moreover have "grows s u" using u by (rule appending_Done [rotated]) (intro append_intros)
  ultimately show ?thesis using assms u
    by (auto simp: add_rfutex_def andthen_def bind_def [of "log_safe _ _ _"] grows_def prog_simps set_glob_def)
qed

text \<open>An answered operation and what follows it.\<close>

lemma atom_DoneE:
  assumes "bind (atom c) f s = Done b t"
  obtains r rs where "script s = r # rs" "f (rv r) (adv s [Got c r] rs (errno s)) = Done b t"
  using assms by (auto simp: run_atom split: list.splits)

lemma quiet_DoneE:
  assumes "bind p f s = Done b t" and "keeps (=) p" and "appending p"
  obtains a u where "f a u = Done b t" "glob u = glob s" "grows s u"
proof -
  from assms(1) obtain a u where a: "p s = Done a u" "f a u = Done b t" by (rule bind_DoneE)
  moreover have "glob u = glob s" using keepsD [OF assms(2) a(1)] by simp
  moreover have "grows s u" using appending_Done [OF assms(3) a(1)] .
  ultimately show ?thesis using that by blast
qed

text \<open>The word the recovery stores: the caller, alive, and the waiters of the word \<open>val\<close>.\<close>

definition recovers :: "int \<Rightarrow> int \<Rightarrow> int \<Rightarrow> bool" where
  "recovers tid val w \<longleftrightarrow> w AND FUTEX_TID_MASK = tid AND FUTEX_TID_MASK \<and> w AND FUTEX_OWNER_DIED = 0 \<and>
     w AND FUTEX_WAITERS = val AND FUTEX_WAITERS"

lemma recover_Done:
  assumes "recover (tid AND FUTEX_TID_MASK) s = Done () t"
  shows "rlist_next (glob t) = Entry \<and> list_op_pending (glob t) = None \<and>
    (\<exists>q r w es fs gs. recovers tid (rv q) w \<and>
      trace t = trace s @ es @ [Got (Atomic (AtomicRead test_futex)) q] @ fs @ [Got (Atomic (AtomicSet test_futex w)) r] @ gs @
        [Did (Atomic (AtomicSet rf_next (addr (rlist_next (glob s)))))])"
proof -
  let ?w = "\<lambda>val. (tid AND FUTEX_TID_MASK) OR (val AND FUTEX_WAITERS)"
  have "bind (log_safe INFO 180 []) (\<lambda>_. bind (atom (Atomic (AtomicRead test_futex))) (\<lambda>val.
      bind (if val AND FUTEX_OWNER_DIED \<noteq> 0 then log_safe INFO 186 [] else return ()) (\<lambda>_.
      bind (atom (Atomic (AtomicSet test_futex (?w val)))) (\<lambda>_. add_rfutex)))) s = Done () t"
    using assms by (simp add: recover_def andthen_def atomic_defs bind_assoc bind_return_fun)
  then obtain u where u: "bind (atom (Atomic (AtomicRead test_futex))) (\<lambda>val.
      bind (if val AND FUTEX_OWNER_DIED \<noteq> 0 then log_safe INFO 186 [] else return ()) (\<lambda>_.
      bind (atom (Atomic (AtomicSet test_futex (?w val)))) (\<lambda>_. add_rfutex))) u = Done () t"
    and gu: "glob u = glob s" "grows s u"
    by (rule quiet_DoneE) (intro same.keeps_log_safe append_intros)+
  from u obtain q qs where "bind (if rv q AND FUTEX_OWNER_DIED \<noteq> 0 then log_safe INFO 186 [] else return ()) (\<lambda>_.
      bind (atom (Atomic (AtomicSet test_futex (?w (rv q))))) (\<lambda>_. add_rfutex))
      (adv u [Got (Atomic (AtomicRead test_futex)) q] qs (errno u)) = Done () t"
    by (rule atom_DoneE)
  then obtain v where v: "bind (atom (Atomic (AtomicSet test_futex (?w (rv q))))) (\<lambda>_. add_rfutex) v = Done () t"
    and gv: "glob v = glob (adv u [Got (Atomic (AtomicRead test_futex)) q] qs (errno u))"
      "grows (adv u [Got (Atomic (AtomicRead test_futex)) q] qs (errno u)) v"
    by (rule quiet_DoneE) (intro same.keeps_rules same.keeps_log_safe append_intros)+
  from v obtain r rs where a: "add_rfutex (adv v [Got (Atomic (AtomicSet test_futex (?w (rv q)))) r] rs (errno v)) = Done () t"
    by (rule atom_DoneE)
  have "recovers tid (rv q) (?w (rv q))" by (simp add: recovers_def recovered_word)
  moreover from gu(2) obtain es where "trace u = trace s @ es" by (auto simp: grows_def)
  moreover from gv(2) obtain fs where "trace v = trace u @ [Got (Atomic (AtomicRead test_futex)) q] @ fs"
    by (auto simp: grows_def)
  ultimately show ?thesis using add_rfutex_Done [OF a] gu(1) gv(1) by fastforce
qed

text \<open>
  \<^bold>\<open>C27.\<close> The robust list of a process is the abstract list of the futexes it holds. A call of
  \<open>acquire_rfutex\<close> that returns has the futex exactly when its exchange found the word 0 or its
  wait was ended by a wake. Then, and only then, the futex is on the list, with a link that leads
  back to the head, and the pending operation is closed; and it has stored a word that names the
  caller, alive, with the waiters of a word it read. Otherwise the list is as it was, the operation
  is still marked as pending, and no word was set.
\<close>

theorem acquire_refines_list:
  assumes "acquire_rfutex tid s = Done () t" and "robust_list (glob s) link = Some []"
  shows "if \<exists>e \<in> set (since s t). got_futex tid e
    then robust_list (glob t) (link_after link (since s t)) = Some [Entry] \<and> list_op_pending (glob t) = None \<and>
      (\<exists>q w r. Got (Atomic (AtomicRead test_futex)) q \<in> set (since s t) \<and>
        Got (Atomic (AtomicSet test_futex w)) r \<in> set (since s t) \<and> recovers tid (rv q) w)
    else robust_list (glob t) link = Some [] \<and> list_op_pending (glob t) = Some Entry \<and>
      \<not> (\<exists>e \<in> set (since s t). sets_word e)"
proof -
  obtain q qs where q: "script s = q # qs"
    using assms(1) by (cases "script s") (auto simp: acquire_rfutex_def atomic_defs prog_simps)
  let ?tid = "tid AND FUTEX_TID_MASK"
  let ?L = "loop (acquire_body (rv q) ?tid) ()" and ?rd = "Got (Atomic (AtomicRead test_futex)) q"
  let ?u = "adv (s\<lparr>glob := (glob s)\<lparr>list_op_pending := Some Entry\<rparr>\<rparr>) [?rd] qs (errno s)"
  have "bind ?L (\<lambda>held. if held then recover ?tid else return ()) ?u = Done () t"
    using q assms(1) by (simp add: acquire_rfutex_def atomic_defs prog_simps Let_def)
  then obtain held v where L: "?L ?u = Done held v"
    and c: "(if held then recover ?tid else return ()) v = Done () t" by (rule bind_DoneE)
  have sl: "same_list (glob ?u) (glob v)" using keepsD [OF same_list_acquire_loop L] .
  have "grows ?u v" using appending_Done [OF only_appending [OF acquire_loop_quiet] L] .
  then have su: "since s v = ?rd # since ?u v" and gs: "grows s v" by (auto simp: grows_def since_def)
  note told = tellsD [OF acquire_loop_tells L]
  have hd: "rlist_next (glob v) = Head" using sl assms(2) by (simp add: same_list_def robust_list_Nil)
  show ?thesis
  proof (cases held)
    case True
    with c recover_Done [of tid v t] obtain q' r w es fs gs where h: "rlist_next (glob t) = Entry"
      "list_op_pending (glob t) = None" "recovers tid (rv q') w"
      "trace t = trace v @ es @ [Got (Atomic (AtomicRead test_futex)) q'] @ fs @ [Got (Atomic (AtomicSet test_futex w)) r] @ gs @
        [Did (Atomic (AtomicSet rf_next (addr Head)))]" unfolding hd by auto
    then have st: "since s t = (since s v @ es @ [Got (Atomic (AtomicRead test_futex)) q'] @ fs @
        [Got (Atomic (AtomicSet test_futex w)) r] @ gs) @ [Did (Atomic (AtomicSet rf_next (addr Head)))]" 
      using gs by (auto simp: grows_def since_def)
    have "\<exists>e \<in> set (since s v). got_futex tid e" using told True su by auto
    then have got: "\<exists>e \<in> set (since s t). got_futex tid e" using st by auto
    have "link_after link (since s t) = Head" unfolding st by (rule link_after_store)
    then have "robust_list (glob t) (link_after link (since s t)) = Some [Entry]" using h(1) by (simp add: robust_list_Entry)
    moreover have "Got (Atomic (AtomicRead test_futex)) q' \<in> set (since s t)"
      "Got (Atomic (AtomicSet test_futex w)) r \<in> set (since s t)" unfolding st by simp_all
    ultimately show ?thesis using got h(2,3) by auto
  next
    case False
    with c have "t = v" by (simp add: return_def)
    moreover have "\<forall>e\<in>set (since ?u v). \<not> sets_word e"
      using onlyD [OF acquire_loop_quiet, of _ ?u "rv q" ?tid] L by auto
    then have "\<not> (\<exists>e \<in> set (since s v). sets_word e)" by (simp add: su sets_word_def)
    ultimately show ?thesis using told False su sl hd by (auto simp: robust_list_Nil same_list_def)
  qed
qed

theorem acquire_refines_list_witness:
  "\<exists>t. acquire_rfutex 60 taken_over = Done () t \<and> robust_list (glob taken_over) Entry = Some [] \<and>
    robust_list (glob t) (link_after Entry (since taken_over t)) = Some [Entry] \<and> list_op_pending (glob t) = None"
proof -
  let ?x = "acquire_rfutex 60 taken_over"
  have "case ?x of Done _ t \<Rightarrow> Got (Atomic (Futex 1 0 (50 OR FUTEX_WAITERS))) (ok 0) \<in> set (since taken_over t) | _ \<Rightarrow> False"
    by code_simp
  then obtain t where x: "?x = Done () t" and e: "Got (Atomic (Futex 1 0 (50 OR FUTEX_WAITERS))) (ok 0) \<in> set (since taken_over t)"
    by (cases ?x) auto
  have "got_futex 60 (Got (Atomic (Futex 1 0 (50 OR FUTEX_WAITERS))) (ok 0))"
    by (simp add: got_futex_def test_futex_def FUTEX_WAIT_def)
  with e have "\<exists>e \<in> set (since taken_over t). got_futex 60 e" by blast
  moreover have "robust_list (glob taken_over) Entry = Some []" by (simp add: robust_list_Nil taken_over_def init_globals_def)
  ultimately show ?thesis using acquire_refines_list [OF x, of Entry] x by simp
qed

section \<open>Counting the children\<close>

definition ready_byte :: resp where
  "ready_byte = \<lparr>rv = 1, er = 0, rdat = [CHILD_READY], outs = []\<rparr>"

lemma ready_byte_sel [simp]: "rv ready_byte = 1" "er ready_byte = 0" "rdat ready_byte = [CHILD_READY]"
  by (simp_all add: ready_byte_def)

lemma check_rlist_passes:
  "script s = r # rs \<Longrightarrow> 0 \<le> rv r \<Longrightarrow> out 0 r = RLIST \<Longrightarrow> out 1 r = SIZEOF_RLIST \<Longrightarrow>
   \<exists>t. check_rlist i s = Done 0 t \<and> script t = rs \<and> glob t = (glob s)\<lparr>pass := pass (glob s) + 1\<rparr>"
  by (simp add: check_rlist_def prog_simps)

text \<open>
  The parent of robust wakes the first child too early: its own check of the robust list
  counts as the report of a child, so the loop that waits for \<open>N\<close> children ends after \<open>N - 1\<close>
  of them have reported.
\<close>

theorem parent_counts_itself:
  assumes "script s = r # replicate (N - 1) ready_byte @ rest" and "0 \<le> rv r" and "out 0 r = RLIST" and "out 1 r = SIZEOF_RLIST"
    and "pass (glob s) = 0" and "fail (glob s) = 0"
  shows "\<exists>t. bind (check_rlist 0) (\<lambda>_. loop ready_body ()) s = Done () t \<and> script t = rest"
proof -
  from check_rlist_passes [OF assms(1-4), of 0] obtain u where c: "check_rlist 0 s = Done 0 u"
    and u: "script u = [ready_byte, ready_byte] @ rest" "pass (glob u) = 1" "fail (glob u) = 0"
    using assms(5,6) by (auto simp: N_def numeral_eq_Suc)
  obtain rd wr where cr: "children_ready (glob u) = (rd, wr)" by fastforce
  have "\<exists>t. loop ready_body () u = Done () t \<and> script t = rest"
    using u cr
    by (subst rb.unfold, simp add: ready_body_def N_def prog_simps,
        subst rb.unfold, simp add: ready_body_def N_def prog_simps)
  with c show ?thesis by (simp add: bind_def)
qed

theorem parent_counts_itself_witness:
  "\<exists>t. bind (check_rlist 0) (\<lambda>_. loop ready_body ())
     (start [\<lparr>rv = 0, er = 0, rdat = [], outs = [RLIST, SIZEOF_RLIST]\<rparr>, ready_byte, ready_byte] (Some 3) init_globals) = Done () t \<and>
     script t = []"
  using parent_counts_itself [of "start [\<lparr>rv = 0, er = 0, rdat = [], outs = [RLIST, SIZEOF_RLIST]\<rparr>, ready_byte, ready_byte] (Some 3) init_globals"
      "\<lparr>rv = 0, er = 0, rdat = [], outs = [RLIST, SIZEOF_RLIST]\<rparr>" "[]"]
  by (simp add: N_def init_globals_def out_def numeral_eq_Suc)

end
