(* ===== verification/Futex_Pi.thy ===== *)
theory Futex_Pi
  imports Libfutex
begin

text \<open>
  futex/pi.c: children of different real-time priorities contend for a priority-inheriting futex.
  The children share the memory of the parent; \<open>waitq\<close> and \<open>pi_futex\<close> are shared variables. A
  function that takes \<open>retries\<close> or \<open>retval\<close> by address gives back the new value;
  \<open>release_pi_futex\<close>, which moves the pointer \<open>retries\<close> itself, has the address.
\<close>

section \<open>Constants and globals\<close>

definition LOG_FILE :: string where "LOG_FILE = ''log.pi''"
definition clone_flags :: int where "clone_flags = 0x40f00 + SIGCHLD"
definition sched_policy :: int where "sched_policy = 2"
definition SIGSTKSZ :: int where "SIGSTKSZ = 8192"
definition SIGTERM :: int where "SIGTERM = 15"
definition WALL :: int where "WALL = 0x40000000"
definition RLIMIT_RTPRIO :: int where "RLIMIT_RTPRIO = 14"
definition RLIM_INFINITY :: int where "RLIM_INFINITY = 2 ^ 64 - 1"
definition FUTEX_WAITERS :: int where "FUTEX_WAITERS = - 0x80000000"
definition O_RDONLY :: int where "O_RDONLY = 0"

definition dumb_barrier :: nat where "dumb_barrier = 1"
definition waitq :: nat where "waitq = 2"
definition pi_futex :: nat where "pi_futex = 3"

record pi_globals =
  N :: int
  prio_min :: int
  prio_max :: int
  kids :: "int list"

definition init_globals :: pi_globals where
  "init_globals = \<lparr>N = 3, prio_min = 0, prio_max = 0, kids = []\<rparr>"

type_synonym 'a piprog = "(pi_globals, 'a) prog"

section \<open>Priorities\<close>

definition get_my_static_priority :: "int option piprog" where
  "get_my_static_priority =
     bind gettid (\<lambda>tid.
     bind (sys (Libc ''sched_getparam'' [I tid])) (\<lambda>r.
     return (if rv r = 0 then Some (out 0 r) else None)))"

definition set_my_static_priority :: "int \<Rightarrow> int piprog" where
  "set_my_static_priority prio = bind gettid (\<lambda>tid. sysv (Libc ''sched_setparam'' [I tid, I prio]))"

text \<open>
  The conversions of the \<open>sscanf\<close> call, each of which skips blanks first: a number, a word, a
  character; what is left of the text after it.
\<close>

definition scan_num :: "string \<Rightarrow> (int \<times> string) option" where
  "scan_num str =
     (let (neg, u) = split_sign (dropWhile isspace str); ds = takeWhile isdigit u in
      if ds = [] then None
      else Some (to_int32 (clamp_long (if neg then - digits_val ds else digits_val ds)), dropWhile isdigit u))"

definition scan_word :: "string \<Rightarrow> string option" where
  "scan_word str =
     (let u = dropWhile isspace str in
      if takeWhile (\<lambda>c. \<not> isspace c) u = [] then None else Some (dropWhile (\<lambda>c. \<not> isspace c) u))"

definition scan_char :: "string \<Rightarrow> string option" where
  "scan_char str = (case dropWhile isspace str of [] \<Rightarrow> None | c # u \<Rightarrow> Some u)"

fun scan_nums :: "nat \<Rightarrow> string \<Rightarrow> string option" where
  "scan_nums 0 str = Some str"
| "scan_nums (Suc k) str = (case scan_num str of None \<Rightarrow> None | Some (_, u) \<Rightarrow> scan_nums k u)"

text \<open>The 18th field: a number, a word, a character and 14 numbers come before it.\<close>

definition scan_stat :: "string \<Rightarrow> int option" where
  "scan_stat str =
     (case scan_nums 1 str of None \<Rightarrow> None | Some u \<Rightarrow>
      (case scan_word u of None \<Rightarrow> None | Some u \<Rightarrow>
      (case scan_char u of None \<Rightarrow> None | Some u \<Rightarrow>
      (case scan_nums 14 u of None \<Rightarrow> None | Some u \<Rightarrow> map_option fst (scan_num u)))))"

definition stat_path :: "int \<Rightarrow> string" where
  "stat_path tid = ''/proc/'' @ dec tid @ ''/task/'' @ dec tid @ ''/stat''"

text \<open>\<open>None\<close> is the result -1, which goes with the priority \<open>INT_MAX\<close>.\<close>

definition get_dynamic_priority :: "int \<Rightarrow> int option piprog" where
  "get_dynamic_priority tid =
     bind (sysv (Unistd (Open (stat_path tid) O_RDONLY 0))) (\<lambda>fd.
     if fd < 0 then return None
     else bind (sys (Unistd (Read fd 4096))) (\<lambda>r.
     if rv r < 0 then return None
     else andthen (emit (Unistd (Close fd))) (
     return (map_option (\<lambda>d. to_int32 (- (d + 1))) (scan_stat (cstr (rdat r) 0))))))"

text \<open>The message lists the children with their priorities, or with errno; the buffer is large enough.\<close>

fun dynamic_priorities :: "int list \<Rightarrow> arg list piprog" where
  "dynamic_priorities [] = return []"
| "dynamic_priorities (pid # pids) =
     bind (get_dynamic_priority pid) (\<lambda>p.
     bind (gets errno) (\<lambda>e.
     bind (dynamic_priorities pids) (\<lambda>args.
     return (I pid # (case p of None \<Rightarrow> I e | Some prio \<Rightarrow> I prio) # args))))"

definition dump_dynamic_priorities :: "unit piprog" where
  "dump_dynamic_priorities =
     with_glob kids (\<lambda>ks. with_glob N (\<lambda>n.
     bind (dynamic_priorities (take (nat n) ks)) (log_safe INFO 175)))"

definition child_static_priority :: "int \<Rightarrow> int piprog" where
  "child_static_priority child_num = with_glob prio_min (\<lambda>p. return (p + child_num))"

section \<open>Futex operations\<close>

text \<open>
  One more turn after an error that is worth another try: a message, but not twice in a row, and
  the end of the loop with -1 if no retry is left. The state is \<open>do_print\<close> and \<open>retries\<close>.
\<close>

definition try_again :: "int \<Rightarrow> nat \<Rightarrow> unit piprog \<Rightarrow> int \<times> int \<Rightarrow> (int \<times> int + int) piprog" where
  "try_again e line too_many st =
     (case st of (do_print, retries) \<Rightarrow>
      let again = do_print \<noteq> 0 \<and> do_print \<noteq> e in
      andthen (if again then log_safe INFO line [] else return ()) (
      if retries = 0 then andthen too_many (return (Inr (-1)))
      else return (Inl (if again then e else do_print, retries - 1))))"

definition stop_with :: "unit piprog \<Rightarrow> (int \<times> int + int) piprog" where
  "stop_with p = andthen p (return (Inr (-1)))"

text \<open>What one \<open>FUTEX_WAIT\<close> with the answer \<open>r\<close> leads to.\<close>

definition after_wait :: "int \<times> int \<Rightarrow> resp \<Rightarrow> (int \<times> int + int) piprog" where
  "after_wait st r =
     (if rv r = 0 then return (Inr 0)
      else let e = er r in
      if e = ETIMEDOUT then stop_with (log_error_safe 193 ''FUTEX_WAIT'')
      else if e = ERESTART then try_again e 197 (log_error_safe 201 ''FUTEX_WAIT ERESTART too many times'') st
      else if e = EAGAIN then try_again e 208 (log_error_safe 212 ''FUTEX_WAIT EAGAIN too many times'') st
      else if e = EINTR then try_again e 220 (log_error_safe 224 ''FUTEX_WAIT EINTR too many times'') st
      else if e = EACCES then stop_with (log_safe FAIL 231 [])
      else if e = EFAULT then stop_with (log_safe FAIL 234 [])
      else if e = EINVAL then stop_with (log_safe FAIL 237 [])
      else if e = ENOSYS then stop_with (log_safe FAIL 240 [])
      else if e = EDEADLK then stop_with (log_safe FAIL 243 [])
      else stop_with (log_error_safe 246 ''FUTEX_WAIT unexpected error (missing from man page)''))"

definition sleep_body :: "int \<times> int \<Rightarrow> (int \<times> int + int) piprog" where
  "sleep_body st = bind (futex waitq FUTEX_WAIT (-1)) (after_wait st)"

definition sleep_on_waitq :: "int \<Rightarrow> int piprog" where
  "sleep_on_waitq retries = loop sleep_body (1, retries)"

text \<open>The number still to wake is an unsigned difference, passed as an int.\<close>

definition wake_body :: "int \<Rightarrow> int \<times> int \<Rightarrow> (int \<times> int + int) piprog" where
  "wake_body n st =
     (case st of (roused, retries) \<Rightarrow>
      bind (futex waitq FUTEX_WAKE (to_int32 (n - 1 - roused))) (\<lambda>r.
      let retries = retries - 1; roused = (if 0 < rv r then (roused + rv r) mod 2 ^ 32 else roused) in
      return (if retries \<noteq> 0 \<and> roused < (n - 1) mod 2 ^ 32 then Inl (roused, retries) else Inr roused)))"

definition wake_waitq :: "int \<Rightarrow> int piprog" where
  "wake_waitq retries =
     andthen (atomic_set waitq 1) (
     with_glob N (\<lambda>n.
     bind (loop (wake_body n) (0, retries)) (\<lambda>roused.
     andthen
       (if roused < (n - 1) mod 2 ^ 32 then
          andthen (bind gettid (\<lambda>tid. andthen (lock_log tid) (bind (atomic_read waitq) (\<lambda>v.
            block [log_msg WARN 266 [I (n - 1), I roused, I v], unlock_log tid]))))
            (log_error_safe 267 ''     '')
        else return ())
       (return (-1)))))"

text \<open>The case \<open>ERESTART\<close> falls through to \<open>EAGAIN\<close>.\<close>

definition lock_restart :: "int \<times> int \<Rightarrow> (int \<times> int + int) piprog" where
  "lock_restart st =
     bind (try_again ERESTART 287 (log_safe FAIL 291 []) st) (\<lambda>x.
     case x of Inr v \<Rightarrow> return (Inr v) | Inl st' \<Rightarrow> try_again EAGAIN 297 (log_safe FAIL 301 []) st')"

definition lock_body :: "int \<times> int \<Rightarrow> (int \<times> int + int) piprog" where
  "lock_body st =
     bind (atomic_read pi_futex) (\<lambda>val.
     bind (futex pi_futex FUTEX_LOCK_PI val) (\<lambda>r.
     if rv r = 0 then return (Inr 0)
     else let e = er r in
     if e = ETIMEDOUT then stop_with (log_safe WARN 283 [])
     else if e = ERESTART then lock_restart st
     else if e = EAGAIN then try_again EAGAIN 297 (log_safe FAIL 301 []) st
     else if e = EINTR then try_again EINTR 308 (log_safe FAIL 312 []) st
     else if e = EACCES then stop_with (log_safe FAIL 318 [])
     else if e = EFAULT then stop_with (log_safe FAIL 321 [])
     else if e = EINVAL then stop_with (log_safe FAIL 324 [])
     else if e = ENOSYS then stop_with (log_safe FAIL 327 [])
     else stop_with (log_error_safe 330 ''FUTEX_LOCK_PI unexpected error (missing from man page)'')))"

definition do_lock_contended_pi_futex :: "int \<Rightarrow> int piprog" where
  "do_lock_contended_pi_futex retries =
     bind (atom (Atomic (AtomicOr pi_futex FUTEX_WAITERS))) (\<lambda>_. loop lock_body (1, retries))"

definition do_unlock_contended_pi_futex :: "int piprog" where
  "do_unlock_contended_pi_futex =
     bind (futex pi_futex FUTEX_UNLOCK_PI 1) (\<lambda>r.
     if rv r = 0 then return 0
     else let e = er r in
     if e = ERESTART \<or> e = EINTR then andthen (log_safe INFO 349 []) (return 1)
     else andthen
       (if e = EFAULT then log_safe FAIL 352 []
        else if e = EINVAL then log_safe FAIL 360 []
        else if e = EPERM then log_error_safe 368 ''This process seems to lack permission to release a futex''
        else if e = EAGAIN then log_safe FAIL 375 []
        else if e = ENOMEM then log_error_safe 378 ''''
        else if e = ESRCH then log_safe FAIL 385 []
        else return ()) (return (-1)))"

text \<open>
  \<open>retries\<close> is the pointer itself, an address: \<open>retries--\<close> moves it down by one int, and the tests
  \<open>if (retries)\<close> and \<open>while (retries)\<close> ask whether it is null. Addresses are 64-bit numbers here; the
  C standard gives a pointer that has left its object no meaning. A turn ends with the test of
  the loop, which \<open>continue\<close> reaches too.
\<close>

definition SIZEOF_INT :: u64 where "SIZEOF_INT = 4"

definition while_retries :: "u64 \<Rightarrow> int \<Rightarrow> (u64 \<times> int + int) piprog" where
  "while_retries retries retval = return (if retries \<noteq> 0 then Inl (retries, retval) else Inr retval)"

definition release_body :: "int \<Rightarrow> u64 \<times> int \<Rightarrow> (u64 \<times> int + int) piprog" where
  "release_body tid st =
     (case st of (retries, retval) \<Rightarrow>
      bind (atomic_cmpxchg pi_futex tid 0) (\<lambda>pi_val.
      if pi_val \<noteq> tid then
        bind do_unlock_contended_pi_futex (\<lambda>u.
        if u = -1 then return (Inr (-100))
        else if u = 0 then return (Inr retval)
        else if u = 1 \<and> retries \<noteq> 0 then while_retries (retries - SIZEOF_INT) retval
        else if u = 1 then while_retries retries (-101)
        else while_retries retries retval)
      else while_retries retries retval))"

definition release_pi_futex :: "u64 \<Rightarrow> int \<Rightarrow> int \<Rightarrow> int piprog" where
  "release_pi_futex retries retval tid =
     bind (loop (release_body tid) (retries, retval)) (\<lambda>v. andthen (log_safe INFO 424 []) (return v))"

section \<open>The children\<close>

text \<open>
  From the label \<open>out\<close> on, and with the release before it; \<open>p\<close> is the address of the variable
  \<open>retries\<close> on the stack of the child.
\<close>

definition kid_out :: "int \<Rightarrow> int piprog" where
  "kid_out retval =
     andthen (log_safe INFO 563 []) (
     if retval \<noteq> 0 then andthen (log_safe FAIL 566 [I retval]) (exit_with retval)
     else return retval)"

definition release_and_out :: "u64 \<Rightarrow> int \<Rightarrow> int \<Rightarrow> int piprog" where
  "release_and_out p retval tid = bind (release_pi_futex p retval tid) kid_out"

text \<open>A child of higher priority, from its first \<open>atomic_inc\<close> on; \<open>retval\<close> is then -5.\<close>

definition high_kid :: "u64 \<Rightarrow> int \<Rightarrow> int \<Rightarrow> int \<Rightarrow> int piprog" where
  "high_kid p tid my_prio held_prio =
     andthen (atomic_inc dumb_barrier) (
     bind (sleep_on_waitq 100) (\<lambda>rc.
     if rc \<noteq> 0 then andthen (log_safe FAIL 463 []) (kid_out (-6))
     else bind (atomic_cmpxchg pi_futex 0 tid) (\<lambda>pi_val.
     if pi_val = tid then andthen (log_safe WARN 475 []) (release_and_out p (-6) tid)
     else bind (do_lock_contended_pi_futex 100) (\<lambda>rc.
     if rc \<noteq> 0 then andthen (log_safe FAIL 482 []) (kid_out (-7))
     else andthen (log_safe INFO 486 [I held_prio]) (
     bind (get_dynamic_priority tid) (\<lambda>prio.
     case prio of
       None \<Rightarrow> andthen (log_safe FAIL 491 []) (release_and_out p (-9) tid)
     | Some held \<Rightarrow>
         if held \<noteq> my_prio then andthen (log_safe FAIL 503 []) (release_and_out p (-10) tid)
         else andthen (log_safe PASS 507 []) (release_and_out p 0 tid)))))))"

text \<open>\<open>for (retries = 1000; atomic_read(\<dots>) < N - 1; retries--) usleep(1000);\<close>\<close>

definition gather_body :: "int \<Rightarrow> int \<Rightarrow> (int + int) piprog" where
  "gather_body n retries =
     bind (atomic_read dumb_barrier) (\<lambda>v.
     if v < n - 1 then andthen (emit (Proc (Usleep 1000))) (return (Inl (retries - 1)))
     else return (Inr retries))"

text \<open>
  Watching the own priority: \<open>Inr None\<close> if it cannot be read, otherwise the last value seen.
\<close>

definition watch_body :: "int \<Rightarrow> int \<Rightarrow> int \<Rightarrow> (int + int option) piprog" where
  "watch_body tid wanted retries =
     bind (get_dynamic_priority tid) (\<lambda>prio.
     case prio of
       None \<Rightarrow> return (Inr None)
     | Some held \<Rightarrow>
         andthen (emit (Proc (Usleep 1000)))
           (return (if retries - 1 \<noteq> 0 \<and> held \<noteq> wanted then Inl (retries - 1) else Inr (Some held))))"

definition after_checkpoint :: "u64 \<Rightarrow> int \<Rightarrow> int \<Rightarrow> int \<Rightarrow> int \<Rightarrow> int piprog" where
  "after_checkpoint p tid my_prio held wanted =
     andthen (block [log_safe INFO 549 [I my_prio, I held], log_safe INFO 550 [], dump_dynamic_priorities]) (
     if wanted \<le> held then andthen (log_safe PASS 553 []) (release_and_out p 0 tid)
     else andthen (log_safe FAIL 556 []) (release_and_out p (-10) tid))"

definition low_kid :: "u64 \<Rightarrow> int \<Rightarrow> int \<Rightarrow> int piprog" where
  "low_kid p tid my_prio =
     bind (atomic_cmpxchg pi_futex 0 tid) (\<lambda>pi_val.
     if pi_val \<noteq> 0 then andthen (log_safe FAIL 513 []) (kid_out (-6))
     else with_glob N (\<lambda>n.
     bind (loop (gather_body n) 1000) (\<lambda>retries.
     andthen (block [log_safe INFO 524 [], dump_dynamic_priorities, log_safe INFO 527 []]) (
     bind (wake_waitq retries) (\<lambda>_.
     andthen (atomic_inc dumb_barrier) (
     bind (child_static_priority (n - 1)) (\<lambda>wanted.
     bind (loop (watch_body tid wanted) 1000) (\<lambda>prio.
     case prio of
       None \<Rightarrow> release_and_out p (-9) tid
     | Some held \<Rightarrow>
         andthen (block [log_safe INFO 545 [], set_checkpoint_ready,
           poll test_checkpoint_done (emit (Proc (Sleep 1)))])
           (after_checkpoint p tid my_prio held wanted)))))))))"

definition kid :: "u64 \<Rightarrow> int \<Rightarrow> int piprog" where
  "kid p child_num =
     bind gettid (\<lambda>tid.
     bind (child_static_priority child_num) (\<lambda>my_prio.
     bind (sysv (Libc ''sched_getscheduler'' [I tid])) (\<lambda>pol.
     if pol \<noteq> sched_policy then
       andthen (log_error_safe 438 ''failed to set scheduler policy of children.'') (return (-1))
     else bind (set_my_static_priority my_prio) (\<lambda>rc.
     if rc \<noteq> 0 then andthen (log_error_safe 443 ''setpriority:'') (return (-2))
     else bind get_my_static_priority (\<lambda>h.
     case h of
       None \<Rightarrow> andthen (log_error_safe 450 ''getpriority:'') (return (-3))
     | Some held_prio \<Rightarrow>
         andthen (if my_prio \<noteq> held_prio then log_safe WARN 455 [I my_prio, I held_prio] else return ()) (
         if 0 < child_num then high_kid p tid my_prio held_prio else low_kid p tid my_prio))))))"

section \<open>The parent\<close>

definition close_and_exit :: "int \<Rightarrow> 'a piprog" where
  "close_and_exit c = andthen (bind (gets logfp) (\<lambda>fp. emit (Stdio (Fclose (the fp))))) (exit_with c)"

text \<open>The loop over the limit of real-time priorities, with the tries that are left.\<close>

primrec raise_limit :: "nat \<Rightarrow> int \<Rightarrow> unit piprog" where
  "raise_limit 0 n = return ()"
| "raise_limit (Suc num_tries) n =
     bind (sys (Ipc (Getrlimit RLIMIT_RTPRIO))) (\<lambda>r.
     if rv r = -1 then andthen (log_error_safe 603 ''getrlimit'') (close_and_exit 12)
     else if out 0 r = RLIM_INFINITY \<or> n \<le> out 0 r then return ()
     else bind (sysv (Libc ''setrlimit'' [I RLIMIT_RTPRIO, I n, I (max n (out 1 r))])) (\<lambda>rc.
     if rc = -1 then andthen (log_error_safe 618 ''setrlimit'') (close_and_exit 10)
     else raise_limit num_tries n))"

definition set_rtprio_range :: "unit piprog" where
  "set_rtprio_range =
     bind (sysv (Libc ''sched_get_priority_min'' [I sched_policy])) (\<lambda>pmin.
     bind (sysv (Libc ''sched_get_priority_max'' [I sched_policy])) (\<lambda>pmax.
     andthen (set_glob (\<lambda>g. g\<lparr>prio_min := pmin, prio_max := pmax\<rparr>)) (
     if pmin < 0 \<or> pmax < 0 then andthen (log_error_safe 585 ''sched_get_priority_min|max'') (close_and_exit 1)
     else if pmax - pmin < 1 then andthen (log_safe FAIL 591 []) (close_and_exit 13)
     else with_glob N (\<lambda>n.
     andthen
       (if pmax - pmin < n
        then andthen (set_glob (\<lambda>g. g\<lparr>N := pmax - pmin\<rparr>)) (log_safe WARN 597 [I (pmax - pmin)])
        else return ()) (
     with_glob N (\<lambda>n.
     andthen (raise_limit 2 n) (
     bind (sys (Ipc (Getrlimit RLIMIT_RTPRIO))) (\<lambda>r.
     if rv r = -1 then andthen (log_error_safe 625 ''getrlimit'') (close_and_exit 13)
     else log_safe INFO 629 [I (out 0 r), I (out 1 r)]))))))))"

text \<open>Starting the children that are left, from index \<open>i\<close> on; the index where the loop ends.\<close>

primrec start_kids :: "nat \<Rightarrow> nat \<Rightarrow> nat piprog" where
  "start_kids 0 i = return i"
| "start_kids (Suc k) i =
     bind (sysv (Proc (Malloc (SIGSTKSZ * 8)))) (\<lambda>new_stack.
     bind (sysv (Libc ''clone'' [I (new_stack + SIGSTKSZ * 8), I clone_flags, I (int i)])) (\<lambda>pid.
     andthen (set_glob (\<lambda>g. g\<lparr>kids := kids g @ [pid]\<rparr>)) (
     if pid \<le> 0 then return i
     else andthen (log_safe INFO 706 [I pid]) (start_kids k (i + 1)))))"

text \<open>
  One \<open>waitpid\<close>; the state has the children left, the status word, which a failed call leaves as
  it was, and the exit code.
\<close>

definition reap_body :: "int \<times> u32 \<times> int \<Rightarrow> (int \<times> u32 \<times> int + int \<times> int) piprog" where
  "reap_body st =
     (case st of (i, status, excode) \<Rightarrow>
      bind (sys (Proc (Waitpid (-1) WALL))) (\<lambda>r.
      let finished = rv r; status = (if finished = -1 then status else word_of_int (out 0 r)) in
      if finished = 0 then return (Inl (i, status, excode))
      else if finished = -1 \<and> er r = ECHILD then return (Inr (i, excode))
      else andthen (log_safe INFO 735 [I finished]) (
        if WIFEXITED status then
          andthen (log_safe INFO 738 [I finished, I (uint (WEXITSTATUS status))])
            (return (Inl (i - 1, status, if excode = 0 then uint (WEXITSTATUS status) else excode)))
        else if WIFSIGNALED status then
          andthen (log_safe FAIL 743 [I finished, I (uint (WTERMSIG status))])
            (return (Inl (i - 1, status, if excode = 0 then uint (WTERMSIG status) else excode)))
        else return (Inl (i - 1, status, excode)))))"

definition main_out :: "int \<Rightarrow> int \<Rightarrow> int piprog" where
  "main_out i excode =
     andthen (block [log_safe INFO 749 [I i], flush_log,
       bind (gets logfp) (\<lambda>fp. emit (Stdio (Fclose (the fp)))), emit (Proc (Free 0))]) (exit_with excode)"

definition run_kids :: "int piprog" where
  "run_kids =
     with_glob N (\<lambda>n.
     bind (start_kids (nat n) 0) (\<lambda>i.
     if int i < n then
       with_glob kids (\<lambda>ks.
       andthen (block [log_error_safe 710 ''couldn't start N children'', log_safe INFO 711 [I (int i)],
         foreach (\<lambda>j. emit (Proc (Kill (ks ! j) SIGTERM))) (rev [0..<i])]) (main_out (-1) 3))
     else andthen (log_safe INFO 718 []) (
       bind (loop reap_body (int i, 0, 0)) (\<lambda>(left, excode). main_out left excode))))"

definition alloc_or_exit :: "nat \<Rightarrow> int \<Rightarrow> nat \<Rightarrow> int \<Rightarrow> unit piprog" where
  "alloc_or_exit line code var val =
     bind (alloc_futex_mem 4) (\<lambda>p.
     if p = 0 then andthen (log_error_safe line ''alloc_futex_mem'') (close_and_exit code)
     else atomic_set var val)"

definition main :: "string list \<Rightarrow> int piprog" where
  "main argv =
     (if length argv < 2 then exit_with 1
      else andthen (emit (Unistd (Close 0))) (
      bind (sysv (Stdio (Fopen LOG_FILE ''w''))) (\<lambda>fp.
      if fp < 0 then andthen (emit (Stdio (Perror 648))) (exit_with 6)
      else andthen (block
        [modify (\<lambda>s. s\<lparr>logfp := Some fp\<rparr>), emit (Unistd (Dup2 fp 1)), emit (Unistd (Dup2 fp 2)), set_rtprio_range]) (
      bind (sysv (Proc Getpid)) (\<lambda>pid.
      with_glob prio_min (\<lambda>pmin.
      bind (sysv (Libc ''sched_setscheduler'' [I pid, I sched_policy, I pmin])) (\<lambda>rc.
      if rc \<noteq> 0 then andthen (log_error_safe 660 ''sched_setscheduler'') (close_and_exit 3)
      else with_glob N (\<lambda>n.
      andthen (log_safe INFO 665 [I n]) (
      bind (sysv (Proc Getpid)) (\<lambda>pid.
      bind (move_to_cgroup ''freezer'' (argv ! 1) pid) (\<lambda>m.
      if m = 0 then andthen (log_error_safe 668 ''move_to_cgroup'') (close_and_exit 5)
      else bind (sysv (Proc (Malloc (4 * n)))) (\<lambda>ks.
      if ks = 0 then andthen (log_error_safe 675 ''malloc'') (close_and_exit 7)
      else andthen (block
        [alloc_or_exit 683 8 waitq (-1), alloc_or_exit 691 9 pi_futex 0,
         flush_log, emit (Stdio (Fflush 2)), emit (Stdio (Fflush 1))]) run_kids))))))))))))"

section \<open>Reading a priority\<close>

text \<open>The line of a stat file up to the priority, with whatever follows.\<close>

definition stat_line :: "int \<Rightarrow> string \<Rightarrow> char \<Rightarrow> int list \<Rightarrow> int \<Rightarrow> string \<Rightarrow> string" where
  "stat_line pid comm st nums prio rest =
     dec pid @ '' '' @ comm @ '' '' @ [st] @ concat (map (\<lambda>n. '' '' @ dec n) nums) @ '' '' @ dec prio @ '' '' @ rest"

lemma space_blank [simp]: "isspace (CHR '' '')"
  by (simp add: isspace_def)

lemma dec_nat_Cons: obtains d ds where "dec_nat n = d # ds" "isdigit d"
  using dec_nat_isdigit [of _ n] by (cases "dec_nat n") auto

lemma takeWhile_dec_nat:
  assumes "rest = [] \<or> \<not> isdigit (hd rest)"
  shows "takeWhile isdigit (dec_nat n @ rest) = dec_nat n" and "dropWhile isdigit (dec_nat n @ rest) = rest"
  using assms dec_nat_isdigit [of _ n]
  by (cases rest; simp add: takeWhile_append2 dropWhile_append2)+

lemma scan_num_dec:
  assumes "\<forall>c\<in>set bl. isspace c" and "rest = [] \<or> \<not> isdigit (hd rest)"
  shows "scan_num (bl @ dec n @ rest) = Some (to_int32 (clamp_long n), rest)"
proof -
  obtain d ds where d: "dec_nat (nat \<bar>n\<bar>) = d # ds" "isdigit d" by (rule dec_nat_Cons)
  have sp: "\<not> isspace (CHR ''-'')" by (simp add: isspace_def)
  have "split_sign (dropWhile isspace (bl @ dec n @ rest)) = (n < 0, dec_nat (nat \<bar>n\<bar>) @ rest)"
    using assms(1) d isdigit_not [OF d(2)] sp
    by (cases "n < 0") (auto simp: dec_def split_sign_def dropWhile_append2)
  then show ?thesis using takeWhile_dec_nat [OF assms(2), of "nat \<bar>n\<bar>"]
    by (cases "n < 0") (simp_all add: scan_num_def digits_val_dec_nat Let_def)
qed

lemma scan_nums_dec:
  assumes "rest = [] \<or> \<not> isdigit (hd rest)"
  shows "scan_nums (length nums) (concat (map (\<lambda>n. '' '' @ dec n) nums) @ rest) = Some rest"
proof (induction nums)
  case (Cons n nums)
  let ?rest = "concat (map (\<lambda>n. '' '' @ dec n) nums) @ rest"
  have "\<not> isdigit (CHR '' '')" by (simp add: isdigit_def)
  then have "?rest = [] \<or> \<not> isdigit (hd ?rest)" using assms by (cases nums) auto
  then have "scan_num ('' '' @ dec n @ ?rest) = Some (to_int32 (clamp_long n), ?rest)"
    by (intro scan_num_dec) simp_all
  with Cons show ?case by simp
qed simp

lemma scan_word_plain:
  assumes "w \<noteq> []" and "\<forall>c\<in>set w. \<not> isspace c"
  shows "scan_word ('' '' @ w @ '' '' @ rest) = Some ('' '' @ rest)"
proof -
  obtain c cs where "w = c # cs" using assms(1) by (cases w) auto
  with assms(2) have "dropWhile isspace ('' '' @ w @ '' '' @ rest) = w @ '' '' @ rest" by simp
  moreover have "takeWhile (\<lambda>c. \<not> isspace c) (w @ '' '' @ rest) = w" "dropWhile (\<lambda>c. \<not> isspace c) (w @ '' '' @ rest) = '' '' @ rest"
    using assms(2) by (simp_all add: takeWhile_append2 dropWhile_append2)
  ultimately show ?thesis using assms(1) by (simp add: scan_word_def Let_def)
qed

lemma scan_stat_line:
  assumes "comm \<noteq> []" and "\<forall>c\<in>set comm. \<not> isspace c" and "\<not> isspace st" and "length nums = 14"
  shows "scan_stat (stat_line pid comm st nums prio rest) = Some (to_int32 (clamp_long prio))"
proof -
  let ?nums = "concat (map (\<lambda>n. '' '' @ dec n) nums)"
  have nd: "\<not> isdigit (CHR '' '')" by (simp add: isdigit_def)
  have "scan_num (stat_line pid comm st nums prio rest) =
      Some (to_int32 (clamp_long pid), '' '' @ comm @ '' '' @ [st] @ ?nums @ '' '' @ dec prio @ '' '' @ rest)"
    unfolding stat_line_def using scan_num_dec [of "[]" "'' '' @ _" pid] nd by simp
  moreover have "scan_char ('' '' @ [st] @ ?nums @ '' '' @ dec prio @ '' '' @ rest) = Some (?nums @ '' '' @ dec prio @ '' '' @ rest)"
    using assms(3) by (simp add: scan_char_def)
  moreover have "scan_nums 14 (?nums @ '' '' @ dec prio @ '' '' @ rest) = Some ('' '' @ dec prio @ '' '' @ rest)"
    using scan_nums_dec [of "'' '' @ dec prio @ '' '' @ rest" nums] nd assms(4) by simp
  moreover have "scan_num ('' '' @ dec prio @ '' '' @ rest) = Some (to_int32 (clamp_long prio), '' '' @ rest)"
    using scan_num_dec [of "'' ''" "'' '' @ rest" prio] nd by simp
  ultimately show ?thesis
    using scan_word_plain [OF assms(1,2), of "[st] @ ?nums @ '' '' @ dec prio @ '' '' @ rest"]
    by (simp add: scan_stat_def)
qed

lemma cstr_stat_line:
  assumes "NUL \<notin> set comm" and "st \<noteq> NUL"
  shows "cstr (stat_line pid comm st nums prio rest) 0 = stat_line pid comm st nums prio (cstr rest 0)"
proof -
  have d: "NUL \<notin> set (dec n)" for n
    using dec_nat_isdigit [of NUL] by (auto simp: dec_def isdigit_def NUL_def)
  have c: "takeWhile (\<lambda>c. c \<noteq> NUL) (x @ y) = x @ takeWhile (\<lambda>c. c \<noteq> NUL) y" if "NUL \<notin> set x" for x y :: string
    using that by (induction x) auto
  have "NUL \<noteq> CHR '' ''" by (simp add: NUL_def)
  then have "NUL \<notin> set (dec pid @ '' '' @ comm @ '' '' @ [st] @ concat (map (\<lambda>n. '' '' @ dec n) nums) @ '' '' @ dec prio @ '' '')"
    using assms d by auto
  from c [OF this, of rest] show ?thesis by (simp add: cstr_def stat_line_def)
qed

text \<open>
  \<^bold>\<open>C29.\<close> \<open>get_dynamic_priority\<close> reads the priority back: for a stat line of the kernel whose 18th
  field is \<open>-1 - p\<close>, which is how the kernel shows the real-time priority \<open>p\<close>, it gives \<open>p\<close>,
  provided that the name of the command has no blank.
\<close>

theorem dynamic_priority_read:
  assumes "script s = ok fd # r # rs" and "0 \<le> fd" and "0 \<le> rv r"
    and "rdat r = stat_line pid comm st nums (-1 - p) rest"
    and "comm \<noteq> []" and "\<forall>c\<in>set comm. \<not> isspace c \<and> c \<noteq> NUL" and "\<not> isspace st" and "st \<noteq> NUL"
    and "length nums = 14" and "0 \<le> p" and "p < 2147483647"
  shows "\<exists>t. get_dynamic_priority tid s = Done (Some p) t \<and> script t = rs"
proof -
  have "NUL \<notin> set comm" using assms(6) by auto
  then have "scan_stat (cstr (rdat r) 0) = Some (to_int32 (clamp_long (- 1 - p)))"
    using scan_stat_line [OF assms(5) _ assms(7,9)] assms(4,6,8) by (simp add: cstr_stat_line)
  moreover have "to_int32 (clamp_long (- 1 - p)) = - 1 - p"
    using assms(10,11) by (simp add: clamp_long_def to_int32_id)
  moreover have "to_int32 (- (- 1 - p + 1)) = p" using assms(10,11) by (simp add: to_int32_id)
  ultimately show ?thesis using assms(1-3) by (simp add: get_dynamic_priority_def prog_simps)
qed

definition stat_answer :: resp where
  "stat_answer = \<lparr>rv = 90, er = 0, rdat = stat_line 60 ''(pi)'' (CHR ''S'') (replicate 14 0) (-41) ''0 1'', outs = []\<rparr>"

theorem dynamic_priority_read_witness:
  "\<exists>t. get_dynamic_priority 60 (start [ok 5, stat_answer] (Some 3) init_globals) = Done (Some 40) t \<and> script t = []"
proof -
  have "rv stat_answer = 90" "rdat stat_answer = stat_line 60 ''(pi)'' (CHR ''S'') (replicate 14 0) (- 1 - 40) ''0 1''"
    by (simp_all add: stat_answer_def)
  then show ?thesis
    by (intro dynamic_priority_read [where fd = 5 and pid = 60 and comm = "''(pi)''" and st = "CHR ''S''"
          and nums = "replicate 14 0" and rest = "''0 1''" and r = stat_answer])
      (simp_all add: isspace_def NUL_def)
qed

section \<open>The loops\<close>

lemmas error_defs = try_again_def stop_with_def Let_def

lemma shrinking_try_again [shrink_intros]:
  "shrinking q \<Longrightarrow> shrinking (try_again e n q st)" "shrinking q \<Longrightarrow> shrinking (stop_with q)"
  unfolding try_again_def stop_with_def by (auto intro!: shrink_intros simp: Let_def split: prod.split)

interpretation sw: script_loop sleep_body
  by (rule script_loopI)
    (auto simp: sleep_body_def after_wait_def futex_def Let_def intro!: consuming_bind consuming_sys shrink_intros)

lemma shrinking_unlock [shrink_intros]: "shrinking do_unlock_contended_pi_futex"
  unfolding do_unlock_contended_pi_futex_def futex_def Let_def by (auto intro!: shrink_intros)

interpretation rl: script_loop "release_body tid" for tid
  by (rule script_loopI)
    (auto simp: release_body_def while_retries_def atomic_defs intro!: consuming_bind consuming_atom shrink_intros)

section \<open>Waiting with retries\<close>

definition is_wait :: "event \<Rightarrow> bool" where
  "is_wait e \<longleftrightarrow> (\<exists>v r. e = Got (Atomic (Futex waitq FUTEX_WAIT v)) r \<or> e = Pending (Atomic (Futex waitq FUTEX_WAIT v)))"

definition waits :: "event list \<Rightarrow> nat" where
  "waits es = length (filter is_wait es)"

lemma waits_append [simp]: "waits (es @ fs) = waits es + waits fs"
  by (simp add: waits_def)

lemma waits_none: "\<forall>e\<in>set es. \<not> is_wait e \<Longrightarrow> waits es = 0"
  by (simp add: waits_def)

lemma no_wait_log:
  "only (\<lambda>e. \<not> is_wait e) (log_safe tg n args)" "only (\<lambda>e. \<not> is_wait e) (log_error_safe n what)"
  by (intro only_log_safe; simp add: is_wait_def)+

text \<open>A turn makes one wait, and goes on only with one retry less.\<close>

lemma no_wait_again: "only (\<lambda>e. \<not> is_wait e) q \<Longrightarrow> only (\<lambda>e. \<not> is_wait e) (try_again e n q st)"
  "only (\<lambda>e. \<not> is_wait e) q \<Longrightarrow> only (\<lambda>e. \<not> is_wait e) (stop_with q)"
  unfolding try_again_def stop_with_def by (auto intro!: only_intros no_wait_log simp: Let_def split: prod.split)

lemma again_retries:
  "try_again e n q (d, k) s = Done (Inl (d', k')) t \<Longrightarrow> k \<noteq> 0 \<and> k' = k - 1"
  by (auto simp: try_again_def Let_def andthen_def bind_def return_def split: if_splits outcome.splits)

lemma stop_stops: "stop_with q s \<noteq> Done (Inl st) t"
  by (auto simp: stop_with_def andthen_def bind_def return_def split: outcome.splits)

lemma no_wait_after: "only (\<lambda>e. \<not> is_wait e) (after_wait st r)"
  unfolding after_wait_def Let_def by (intro only_intros no_wait_again no_wait_log)

lemma after_wait_retries: "after_wait (d, k) r s = Done (Inl (d', k')) t \<Longrightarrow> k \<noteq> 0 \<and> k' = k - 1"
  using again_retries stop_stops unfolding after_wait_def Let_def by (simp add: return_def split: if_splits)

lemma appending_sleep: "appending (sleep_body st)"
  unfolding sleep_body_def futex_def by (intro append_intros only_appending [OF no_wait_after])

lemma sleep_body_turn:
  assumes "script s = r # rs"
  defines "u \<equiv> adv s [Got (Atomic (Futex waitq FUTEX_WAIT (-1))) r] rs (er r)"
  shows "sleep_body st s = after_wait st r u" and "waits (since s (final (sleep_body st s))) = 1"
proof -
  let ?e = "Got (Atomic (Futex waitq FUTEX_WAIT (-1))) r"
  show b: "sleep_body st s = after_wait st r u"
    using assms by (simp add: sleep_body_def futex_def run_sys_Cons)
  have "grows u (final (after_wait st r u))" by (rule appendingD [OF only_appending [OF no_wait_after]])
  then have "since s (final (after_wait st r u)) = ?e # since u (final (after_wait st r u))"
    by (auto simp: grows_def since_def u_def)
  moreover have "waits (since u (final (after_wait st r u))) = 0"
    by (rule waits_none) (use onlyD [OF no_wait_after] in blast)
  moreover have "is_wait ?e" by (simp add: is_wait_def)
  ultimately show "waits (since s (final (sleep_body st s))) = 1" using b by (simp add: waits_def)
qed

lemma waits_loop: "0 \<le> k \<Longrightarrow> waits (since s (final (loop sleep_body (d, k) s))) \<le> nat k + 1"
proof (induction "(d, k)" s arbitrary: d k rule: sw.induct)
  case (turn s d k)
  show ?case
  proof (cases "script s")
    case Nil
    then show ?thesis by (subst sw.unfold) (simp add: sleep_body_def futex_def prog_simps waits_def is_wait_def)
  next
    case (Cons r rs)
    note b = sleep_body_turn [OF Cons, of "(d, k)"]
    show ?thesis
    proof (cases "\<exists>st t. sleep_body (d, k) s = Done (Inl st) t")
      case True
      then obtain d' k' t where t: "sleep_body (d, k) s = Done (Inl (d', k')) t" by auto
      with b(1) after_wait_retries [of d k r _ d' k' t] have k: "k \<noteq> 0" "k' = k - 1" by simp_all
      with turn t have IH: "waits (since t (final (loop sleep_body (d', k') t))) \<le> nat k' + 1" by simp
      have "grows s t" using appending_sleep t by (rule appending_Done)
      moreover have "grows t (final (loop sleep_body (d', k') t))"
        by (rule appendingD [OF sw.appending_loop [OF appending_sleep]])
      ultimately have st: "since s (final (loop sleep_body (d', k') t)) = since s t @ since t (final (loop sleep_body (d', k') t))"
        by (rule since_trans)
      have "loop sleep_body (d, k) s = loop sleep_body (d', k') t" by (subst sw.unfold) (simp add: t bind_def)
      then have "since s (final (loop sleep_body (d, k) s)) = since s t @ since t (final (loop sleep_body (d', k') t))"
        by (simp only: st)
      with IH b(2) t k turn.prems show ?thesis by simp
    next
      case False
      then have "final (loop sleep_body (d, k) s) = final (sleep_body (d, k) s)"
        by (subst sw.unfold) (auto simp: bind_def return_def split: outcome.split sum.split)
      with b(2) show ?thesis by simp
    qed
  qed
qed

text \<open>
  \<^bold>\<open>C30.\<close> Whatever the kernel answers, \<open>sleep_on_waitq\<close> makes at most one \<open>FUTEX_WAIT\<close> more than
  the retries it was given.
\<close>

theorem sleep_on_waitq_bounded:
  assumes "0 \<le> retries"
  shows "waits (since s (final (sleep_on_waitq retries s))) \<le> nat retries + 1"
  unfolding sleep_on_waitq_def using assms by (rule waits_loop)

theorem sleep_on_waitq_bounded_witness:
  "waits (since (start [failed EINTR, ok 60, ok 0, ok 60, failed EINTR, ok 60, ok 0, ok 60] (Some 3) init_globals)
     (final (sleep_on_waitq 1 (start [failed EINTR, ok 60, ok 0, ok 60, failed EINTR, ok 60, ok 0, ok 60] (Some 3) init_globals)))) \<le> 2"
  using sleep_on_waitq_bounded [of 1 "start [failed EINTR, ok 60, ok 0, ok 60, failed EINTR, ok 60, ok 0, ok 60] (Some 3) init_globals"]
  by simp

section \<open>Releasing the futex\<close>

lemma return_fun: "return v = Done v"
  by (simp add: return_def fun_eq_iff)

lemma release_turn:
  assumes "script s = ok v # failed EINTR # ok q # ok 0 # ok q # rs" and "v \<noteq> tid" and "logfp s = Some lf" and "p \<noteq> 0"
  shows "\<exists>u. loop (release_body tid) (p, retval) s =
      (if p = SIZEOF_INT then Done retval else loop (release_body tid) (p - SIZEOF_INT, retval)) u \<and>
    script u = rs \<and> logfp u = Some lf"
proof -
  let ?t = "adv s [Got (Atomic (AtomicCmpxchg pi_futex tid 0)) (ok v), Got (Atomic (Futex pi_futex FUTEX_UNLOCK_PI 1)) (failed EINTR)]
    (ok q # ok 0 # ok q # rs) EINTR"
  let ?k = "if p = SIZEOF_INT then Done retval else loop (release_body tid) (p - SIZEOF_INT, retval)"
  have "loop (release_body tid) (p, retval) s = bind (log_safe INFO 349 []) (\<lambda>_. ?k) ?t"
    using assms(1,2,4)
    by (subst rl.unfold) (simp add: release_body_def while_retries_def do_unlock_contended_pi_futex_def atomic_defs
        prog_simps bind_return_fun bind_Done_fun return_fun Let_def)
  also have "\<exists>u. \<dots> = ?k u \<and> script u = rs \<and> logfp u = Some lf"
    using log_safe_free [of ?t q rs lf INFO 349 "[]" "\<lambda>_. ?k"] assms(3) by auto
  finally show ?thesis .
qed

text \<open>The answers of \<open>n\<close> rounds in which the unlock call is interrupted.\<close>

definition interrupted :: "int \<Rightarrow> nat \<Rightarrow> resp list" where
  "interrupted tid n = concat (replicate n [ok (tid + 1), failed EINTR, ok tid, ok 0, ok tid])"

lemma interrupted_simps [simp]:
  "interrupted tid 0 = []"
  "interrupted tid (Suc n) = ok (tid + 1) # failed EINTR # ok tid # ok 0 # ok tid # interrupted tid n"
  by (simp_all add: interrupted_def)

text \<open>The address of the int with \<open>k\<close> ints below it.\<close>

definition int_at :: "nat \<Rightarrow> u64" where
  "int_at k = of_nat (4 * k)"

lemma int_at_steps:
  assumes "4 * Suc k < 2 ^ 64"
  shows "int_at (Suc k) \<noteq> 0" and "int_at (Suc k) = SIZEOF_INT \<longleftrightarrow> k = 0"
    and "int_at (Suc k) - SIZEOF_INT = int_at k"
proof -
  have u: "unat (int_at (Suc k)) = 4 * Suc k"
    unfolding int_at_def unat_of_nat using assms by simp
  have "unat (int_at (Suc k)) \<noteq> 0" unfolding u by simp
  then show "int_at (Suc k) \<noteq> 0" by (metis unat_0)
  show "int_at (Suc k) = SIZEOF_INT \<longleftrightarrow> k = 0"
    unfolding word_unat_eq_iff u by (simp add: SIZEOF_INT_def)
  show "int_at (Suc k) - SIZEOF_INT = int_at k" by (simp add: SIZEOF_INT_def int_at_def)
qed

lemma release_rounds:
  assumes "script s = interrupted tid n @ rs" and "logfp s = Some lf" and "n \<le> k" and "4 * k < 2 ^ 64" and "0 < k"
  shows "\<exists>u. loop (release_body tid) (int_at k, retval) s =
      (if n = k then Done retval else loop (release_body tid) (int_at (k - n), retval)) u \<and>
    script u = rs \<and> logfp u = Some lf"
  using assms
proof (induction n arbitrary: s k)
  case 0
  then show ?case by auto
next
  case (Suc n)
  then obtain j where k: "k = Suc j" by (cases k) auto
  note steps = int_at_steps [OF Suc.prems(4) [unfolded k]]
  from Suc.prems(1) have "script s = ok (tid + 1) # failed EINTR # ok tid # ok 0 # ok tid # interrupted tid n @ rs" by simp
  from release_turn [OF this _ Suc.prems(2), of tid "int_at k" retval] steps k
  obtain u where u: "loop (release_body tid) (int_at k, retval) s =
      (if j = 0 then Done retval else loop (release_body tid) (int_at j, retval)) u"
    and v: "script u = interrupted tid n @ rs" "logfp u = Some lf" by auto
  show ?case
  proof (cases "j = 0")
    case True
    with Suc.prems(3) k have "n = 0" by simp
    with u v True k show ?thesis by auto
  next
    case False
    with Suc.IH [of u j] v Suc.prems(3,4) k
    have "\<exists>w. loop (release_body tid) (int_at j, retval) u =
        (if n = j then Done retval else loop (release_body tid) (int_at (j - n), retval)) w \<and> script w = rs \<and> logfp w = Some lf"
      by auto
    with u False k show ?thesis by auto
  qed
qed

text \<open>
  \<^bold>\<open>C31.\<close> The retries of \<open>release_pi_futex\<close> are bounded by the address of the counter and not by
  the counter: with the address \<open>4 k\<close> the function is still trying after \<open>n < k\<close> interrupted unlock
  calls, for a variable on the stack far more than the 100 retries meant; and after \<open>k\<close> of them, when
  the pointer has run down to null, it returns as if the futex were released, with \<open>retval\<close>
  unchanged instead of -101.
\<close>

theorem release_counts_in_pointer:
  assumes "0 < k" and "4 * k < 2 ^ 64"
  shows "(n < k \<longrightarrow> (\<exists>t. release_pi_futex (int_at k) retval tid (start (interrupted tid n) (Some 3) g) = Blocked t)) \<and>
    (\<exists>t. release_pi_futex (int_at k) retval tid
      (start (interrupted tid k @ [ok tid, ok 0, ok tid]) (Some 3) g) = Done retval t)"
proof (intro conjI impI)
  assume "n < k"
  with release_rounds [of "start (interrupted tid n) (Some 3) g" tid n "[]" 3 k retval] assms
  obtain u where u: "loop (release_body tid) (int_at k, retval) (start (interrupted tid n) (Some 3) g) =
      loop (release_body tid) (int_at (k - n), retval) u" "script u = []"
    by auto
  from u(2) have "\<exists>t. loop (release_body tid) (int_at (k - n), retval) u = Blocked t"
    by (subst rl.unfold) (simp add: release_body_def atomic_defs prog_simps)
  with u(1) show "\<exists>t. release_pi_futex (int_at k) retval tid (start (interrupted tid n) (Some 3) g) = Blocked t"
    by (auto simp: release_pi_futex_def bind_def)
next
  let ?s = "start (interrupted tid k @ [ok tid, ok 0, ok tid]) (Some 3) g"
  from release_rounds [of ?s tid k "[ok tid, ok 0, ok tid]" 3 k retval] assms
  obtain u where u: "loop (release_body tid) (int_at k, retval) ?s = Done retval u"
    "script u = [ok tid, ok 0, ok tid]" "logfp u = Some 3" by auto
  from log_safe_free [OF u(2,3), of INFO 424 "[]" "\<lambda>_. return retval"] u(1)
  show "\<exists>t. release_pi_futex (int_at k) retval tid ?s = Done retval t"
    by (auto simp: release_pi_futex_def bind_def [of "loop _ _"] andthen_def return_def)
qed

theorem release_counts_in_pointer_witness:
  "(\<exists>t. release_pi_futex 0x7ffe1000 0 60 (start (interrupted 60 101) (Some 3) init_globals) = Blocked t) \<and>
   (\<exists>t. release_pi_futex 8 (-9) 60 (start (interrupted 60 2 @ [ok 60, ok 0, ok 60]) (Some 3) init_globals) = Done (-9) t)"
proof
  show "\<exists>t. release_pi_futex 0x7ffe1000 0 60 (start (interrupted 60 101) (Some 3) init_globals) = Blocked t"
    using release_counts_in_pointer [where k = "0x1fff8400" and n = 101 and retval = 0 and tid = 60 and g = init_globals] by (simp add: int_at_def)
  show "\<exists>t. release_pi_futex 8 (-9) 60 (start (interrupted 60 2 @ [ok 60, ok 0, ok 60]) (Some 3) init_globals) = Done (-9) t"
    using release_counts_in_pointer [where k = 2 and retval = "-9" and tid = 60 and g = init_globals] by (simp add: int_at_def)
qed

lemma log_error_free:
  assumes "script s = ok t # ok 0 # ok t # rs" and "logfp s = Some lf"
  shows "\<exists>u. bind (log_error_safe n what) k s = k () u \<and> script u = rs \<and> logfp u = Some lf"
  using log_safe_free [OF assms, of FAIL n "[S what, I (errno s)]" k] by (auto simp: log_error_safe_def prog_simps)

text \<open>
  Releasing a futex that nobody waits for is reported as a failure: the exchange that
  frees it does not end the loop, the next turn finds the futex free and asks the kernel to
  unlock it, and the refusal of the kernel makes \<open>retval\<close> -100 even if the test has passed.
\<close>

theorem uncontended_release_fails:
  assumes "tid \<noteq> 0" and "p \<noteq> 0"
    and "script s = [ok tid, ok 0, failed EPERM] @ [ok tid, ok 0, ok tid] @ [ok tid, ok 0, ok tid]" and "logfp s = Some lf"
  shows "\<exists>t. release_pi_futex p retval tid s = Done (-100) t"
proof -
  let ?u = "adv s [Got (Atomic (AtomicCmpxchg pi_futex tid 0)) (ok tid), Got (Atomic (AtomicCmpxchg pi_futex tid 0)) (ok 0),
    Got (Atomic (Futex pi_futex FUTEX_UNLOCK_PI 1)) (failed EPERM)] ([ok tid, ok 0, ok tid] @ [ok tid, ok 0, ok tid]) EPERM"
  have e: "EPERM \<noteq> ERESTART" "EPERM \<noteq> EINTR" "EPERM \<noteq> EFAULT" "EPERM \<noteq> EINVAL" by (simp_all add: errno_defs)
  have "\<exists>t. loop (release_body tid) (p, retval) s = Done (-100) t \<and> script t = [ok tid, ok 0, ok tid] \<and> logfp t = Some lf"
  proof -
    have "loop (release_body tid) (p, retval) s =
        bind (log_error_safe 368 ''This process seems to lack permission to release a futex'') (\<lambda>_. Done (-100)) ?u"
      using assms(1-3) e
      by (subst rl.unfold, simp add: release_body_def while_retries_def atomic_defs prog_simps,
          subst rl.unfold, simp add: release_body_def while_retries_def do_unlock_contended_pi_futex_def atomic_defs prog_simps bind_return_fun bind_Done_fun Let_def)
    with log_error_free [of ?u tid "[ok tid, ok 0, ok tid]" lf 368 _ "\<lambda>_. Done (-100)"] assms(4) show ?thesis
      by (auto simp: return_def)
  qed
  then obtain t where "loop (release_body tid) (p, retval) s = Done (-100) t" "script t = [ok tid, ok 0, ok tid]" "logfp t = Some lf"
    by blast
  with log_safe_free [of t tid "[]" lf INFO 424 "[]" "\<lambda>_. return (-100)"] show ?thesis
    by (auto simp: release_pi_futex_def bind_def [of "loop _ _"] andthen_def return_def)
qed

theorem uncontended_release_fails_witness:
  "\<exists>t. release_pi_futex 0x7ffe1000 0 60 (start ([ok 60, ok 0, failed EPERM] @ [ok 60, ok 0, ok 60] @ [ok 60, ok 0, ok 60]) (Some 3) init_globals) = Done (-100) t"
  by (rule uncontended_release_fails [where lf = 3]) simp_all

end
