(* ===== verification/Fs_Kernel.thy ===== *)
theory Fs_Kernel
  imports Handshake
begin

text \<open>
  The part of the file system the tests of unlinked files rely on, as the manual pages describe it:
  a directory maps names to inodes, an inode is a regular file or a fifo with its bytes, and a
  descriptor refers to an inode, not to a name, so that an inode lives on after its name is gone.
  \<open>creat\<close> opens for writing only, and reading such a descriptor fails with EBADF. A removed
  directory has no entries to read: \<open>getdents\<close> on it fails with ENOENT. The files of the
  checkpoint handshake are not part of the state.
\<close>

section \<open>State\<close>

datatype inode = Reg string | Fifo string | Dir bool

record fs =
  names :: "string \<Rightarrow> nat option"
  inodes :: "nat \<Rightarrow> inode"
  fds :: "int \<Rightarrow> (nat \<times> bool \<times> nat) option"
  used :: nat

text \<open>A descriptor is an inode, whether it can be read, and an offset.\<close>

definition O_WRONLY :: int where "O_WRONLY = 1"
definition O_RDWR :: int where "O_RDWR = 2"
definition O_APPEND :: int where "O_APPEND = 1024"
definition O_DIRECTORY :: int where "O_DIRECTORY = 65536"

definition new_inode :: "string \<Rightarrow> inode \<Rightarrow> fs \<Rightarrow> fs" where
  "new_inode p i k = k\<lparr>names := (names k)(p := Some (used k)), inodes := (inodes k)(used k := i), used := used k + 1\<rparr>"

definition new_fd :: "int \<Rightarrow> nat \<Rightarrow> bool \<Rightarrow> fs \<Rightarrow> fs" where
  "new_fd fd i readable k = k\<lparr>fds := (fds k)(fd := Some (i, readable, 0))\<rparr>"

section \<open>Calls\<close>

definition k_creat :: "string \<Rightarrow> resp \<Rightarrow> fs \<Rightarrow> fs option" where
  "k_creat p r k =
     (if rv r < 0 \<or> fds k (rv r) \<noteq> None then None
      else if p = CKPT_READY then Some k
      else case names k p of
        None \<Rightarrow> Some (new_fd (rv r) (used k) False (new_inode p (Reg []) k))
      | Some i \<Rightarrow> Some (new_fd (rv r) i False (k\<lparr>inodes := (inodes k)(i := Reg [])\<rparr>)))"

definition k_open :: "string \<Rightarrow> int \<Rightarrow> resp \<Rightarrow> fs \<Rightarrow> fs option" where
  "k_open p flags r k =
     (case names k p of
        None \<Rightarrow> if rv r = -1 then Some k else None
      | Some i \<Rightarrow> if rv r < 0 \<or> fds k (rv r) \<noteq> None then None
                 else Some (new_fd (rv r) i (flags mod 4 \<noteq> O_WRONLY) k))"

definition k_make :: "string \<Rightarrow> inode \<Rightarrow> resp \<Rightarrow> fs \<Rightarrow> fs option" where
  "k_make p i r k =
     (if names k p = None then if rv r = 0 then Some (new_inode p i k) else None
      else if rv r = -1 then Some k else None)"

definition k_write :: "int \<Rightarrow> string \<Rightarrow> resp \<Rightarrow> fs \<Rightarrow> fs option" where
  "k_write fd str r k =
     (case fds k fd of
        None \<Rightarrow> if rv r = -1 then Some k else None
      | Some (i, rd, off) \<Rightarrow>
          if rv r \<noteq> int (length str) then None
          else case inodes k i of
            Reg c \<Rightarrow> Some (k\<lparr>inodes := (inodes k)(i := Reg (take off c @ str @ drop (off + length str) c)),
                           fds := (fds k)(fd := Some (i, rd, off + length str))\<rparr>)
          | Fifo q \<Rightarrow> Some (k\<lparr>inodes := (inodes k)(i := Fifo (q @ str))\<rparr>)
          | Dir _ \<Rightarrow> None)"

text \<open>A fifo that is open for writing gives its first bytes; while it has none a read waits.\<close>

definition k_read :: "int \<Rightarrow> nat \<Rightarrow> resp \<Rightarrow> fs \<Rightarrow> fs option" where
  "k_read fd n r k =
     (case fds k fd of
        None \<Rightarrow> if rv r = -1 \<and> er r = EBADF then Some k else None
      | Some (i, rd, off) \<Rightarrow>
          if \<not> rd then if rv r = -1 \<and> er r = EBADF then Some k else None
          else case inodes k i of
            Reg c \<Rightarrow> if rdat r = take n (drop off c) \<and> rv r = int (length (rdat r))
                     then Some (k\<lparr>fds := (fds k)(fd := Some (i, rd, off + length (rdat r)))\<rparr>) else None
          | Fifo q \<Rightarrow> if q \<noteq> [] \<and> rdat r = take n q \<and> rv r = int (length (rdat r))
                      then Some (k\<lparr>inodes := (inodes k)(i := Fifo (drop n q))\<rparr>) else None
          | Dir _ \<Rightarrow> None)"

definition k_lseek :: "int \<Rightarrow> int \<Rightarrow> resp \<Rightarrow> fs \<Rightarrow> fs option" where
  "k_lseek fd off r k =
     (case fds k fd of
        None \<Rightarrow> if rv r = -1 then Some k else None
      | Some (i, rd, _) \<Rightarrow> if rv r = off then Some (k\<lparr>fds := (fds k)(fd := Some (i, rd, nat off))\<rparr>) else None)"

definition k_unlink :: "string \<Rightarrow> resp \<Rightarrow> fs \<Rightarrow> fs option" where
  "k_unlink p r k =
     (if names k p = None then if rv r = -1 then Some k else None
      else if rv r = 0 then Some (k\<lparr>names := (names k)(p := None)\<rparr>) else None)"

text \<open>\<open>rmdir\<close> marks the inode as removed; \<open>getdents\<close> fails on a removed directory.\<close>

definition k_rmdir :: "string \<Rightarrow> resp \<Rightarrow> fs \<Rightarrow> fs option" where
  "k_rmdir p r k =
     (case names k p of
        None \<Rightarrow> if rv r = -1 then Some k else None
      | Some i \<Rightarrow> if rv r = 0 then Some (k\<lparr>names := (names k)(p := None), inodes := (inodes k)(i := Dir False)\<rparr>) else None)"

definition k_getdents :: "int \<Rightarrow> resp \<Rightarrow> fs \<Rightarrow> fs option" where
  "k_getdents fd r k =
     (case fds k fd of
        None \<Rightarrow> if rv r = -1 then Some k else None
      | Some (i, _, _) \<Rightarrow> if inodes k i = Dir True then Some k
                         else if rv r = -1 \<and> er r = ENOENT then Some k else None)"

section \<open>The kernel\<close>

definition fs_answers :: "call \<Rightarrow> resp \<Rightarrow> fs \<Rightarrow> fs option" where
  "fs_answers c r k =
     (case c of
        Unistd u \<Rightarrow>
          (case u of
             Access p \<Rightarrow> if rv r = 0 \<or> er r = ENOENT then Some k else None
           | Creat p m \<Rightarrow> k_creat p r k
           | Open p flags m \<Rightarrow> k_open p flags r k
           | Mkdir p m \<Rightarrow> k_make p (Dir True) r k
           | Write fd str \<Rightarrow> k_write fd str r k
           | Read fd n \<Rightarrow> k_read fd n r k
           | Lseek fd off w \<Rightarrow> k_lseek fd off r k
           | Unlink p \<Rightarrow> k_unlink p r k
           | _ \<Rightarrow> Some k)
      | Libc f args \<Rightarrow>
          (case args of
             S p # _ \<Rightarrow> if f = ''mkfifo'' then k_make p (Fifo []) r k
                        else if f = ''rmdir'' then k_rmdir p r k else Some k
           | I fd # _ \<Rightarrow> if f = ''getdents'' then k_getdents fd r k else Some k
           | [] \<Rightarrow> Some k)
      | _ \<Rightarrow> Some k)"

definition fs_effect :: "call \<Rightarrow> fs \<Rightarrow> fs" where
  "fs_effect c k =
     (case c of
        Unistd (Close fd) \<Rightarrow> k\<lparr>fds := (fds k)(fd := None)\<rparr>
      | Unistd (Unlink p) \<Rightarrow> if p = CKPT_DONE then k else k\<lparr>names := (names k)(p := None)\<rparr>
      | _ \<Rightarrow> k)"

definition fs_kernel :: "fs kernel" where
  "fs_kernel = \<lparr>answers = fs_answers, effect = fs_effect\<rparr>"

definition empty_fs :: fs where
  "empty_fs = \<lparr>names = \<lambda>_. None, inodes = \<lambda>_. Reg [], fds = \<lambda>_. None, used = 0\<rparr>"

lemma fs_kernel_sel [simp]: "answers fs_kernel = fs_answers" "effect fs_kernel = fs_effect"
  by (simp_all add: fs_kernel_def)

lemma fs_answers_simps [simp]:
  "fs_answers (Unistd (Access p)) r k = (if rv r = 0 \<or> er r = ENOENT then Some k else None)"
  "fs_answers (Unistd (Creat p m)) r k = k_creat p r k"
  "fs_answers (Unistd (Open p flags m)) r k = k_open p flags r k"
  "fs_answers (Unistd (Mkdir p m)) r k = k_make p (Dir True) r k"
  "fs_answers (Unistd (Write fd str)) r k = k_write fd str r k"
  "fs_answers (Unistd (Read fd n)) r k = k_read fd n r k"
  "fs_answers (Unistd (Lseek fd off w)) r k = k_lseek fd off r k"
  "fs_answers (Unistd (Unlink p)) r k = k_unlink p r k"
  "fs_answers (Libc ''mkfifo'' [S p, I m]) r k = k_make p (Fifo []) r k"
  "fs_answers (Libc ''rmdir'' [S p]) r k = k_rmdir p r k"
  "fs_answers (Libc ''getdents'' [I fd, I sz]) r k = k_getdents fd r k"
  by (simp_all add: fs_answers_def)

lemma fs_effect_simps [simp]:
  "fs_effect (Unistd (Unlink CKPT_DONE)) k = k" "fs_effect (Stdio c) k = k" "fs_effect (Proc c') k = k"
  "fs_effect (Unistd (Fsync fd)) k = k"
  "fds k fd = None \<Longrightarrow> fs_effect (Unistd (Close fd)) k = k"
  by (auto simp: fs_effect_def fun_upd_idem)

interpretation fsh: handshake fs_kernel
  by unfold_locales (auto simp: k_creat_def simp del: not_None_eq split: if_splits option.splits)

section \<open>Labels on a file system\<close>

text \<open>
  One rule per call, for a state in which the call succeeds (or, for a read through a descriptor
  that is not readable, fails); the state after the call is written out, so that the next rule can
  look into it.
\<close>

abbreviation goes_on_with :: "('a \<Rightarrow> 'k \<Rightarrow> 'g proc \<Rightarrow> bool) \<Rightarrow> (int \<Rightarrow> 'k \<Rightarrow> bool) \<Rightarrow> 'k kernel \<Rightarrow> 'g proc \<Rightarrow> int \<Rightarrow>
    'k \<Rightarrow> ('g, 'a) prog \<Rightarrow> bool" where
  "goes_on_with Q E K s lf k p \<equiv> \<forall>u. logfp u = Some lf \<longrightarrow> glob u = glob s \<longrightarrow> wp K p Q E k u"

definition label_ok :: "string list \<Rightarrow> int \<Rightarrow> 'g proc \<Rightarrow> int \<Rightarrow> (resp \<Rightarrow> ('g, 'a) prog) \<Rightarrow> (resp \<Rightarrow> ('g, 'a) prog) \<Rightarrow> bool" where
  "label_ok labels op s lf out_to rest \<longleftrightarrow> 0 \<le> op \<and> op < int (length labels) \<and> logfp s = Some lf \<and>
     (\<forall>r. appending (out_to r)) \<and> (\<forall>r. appending (rest r))"

lemma label_step:
  assumes "label_ok labels op s lf out_to rest"
    and "\<And>r k'. fs_answers c r k = Some k' \<Longrightarrow> goes_on_with Q E fs_kernel s lf k' (if rv r < 0 then out_to r else rest r)"
  shows "wp fs_kernel (at_label labels op lbl (sys c) out_to rest) Q E k s"
  by (rule fsh.wp_label_sys [where lf = lf]) (use assms in \<open>simp_all add: label_ok_def\<close>)

lemma wp_creat_new:
  assumes "label_ok labels op s lf out_to rest" and "names k p = None" and "p \<noteq> CKPT_READY"
    and "\<And>r. 0 \<le> rv r \<Longrightarrow> fds k (rv r) = None \<Longrightarrow>
      goes_on_with Q E fs_kernel s lf (new_fd (rv r) (used k) False (new_inode p (Reg []) k)) (rest r)"
  shows "wp fs_kernel (at_label labels op lbl (sys (Unistd (Creat p m))) out_to rest) Q E k s"
  by (rule label_step [OF assms(1)]) (use assms(2-) in \<open>auto simp del: not_None_eq simp: k_creat_def split: if_splits\<close>)

lemma wp_mkfifo_new:
  assumes "label_ok labels op s lf out_to rest" and "names k p = None" and "\<And>r. rv r = 0 \<Longrightarrow> goes_on_with Q E fs_kernel s lf (new_inode p (Fifo []) k) (rest r)"
  shows "wp fs_kernel (at_label labels op lbl (sys (Libc ''mkfifo'' [S p, I m])) out_to rest) Q E k s"
  by (rule label_step [OF assms(1)]) (use assms(2-) in \<open>auto simp del: not_None_eq simp: k_make_def split: if_splits\<close>)

lemma wp_mkdir_new:
  assumes "label_ok labels op s lf out_to rest" and "names k p = None" and "\<And>r. rv r = 0 \<Longrightarrow> goes_on_with Q E fs_kernel s lf (new_inode p (Dir True) k) (rest r)"
  shows "wp fs_kernel (at_label labels op lbl (sys (Unistd (Mkdir p m))) out_to rest) Q E k s"
  by (rule label_step [OF assms(1)]) (use assms(2-) in \<open>auto simp del: not_None_eq simp: k_make_def split: if_splits\<close>)

lemma wp_open_old:
  assumes "label_ok labels op s lf out_to rest" and "names k p = Some i" and "\<And>r. 0 \<le> rv r \<Longrightarrow> fds k (rv r) = None \<Longrightarrow>
      goes_on_with Q E fs_kernel s lf (new_fd (rv r) i (flags mod 4 \<noteq> O_WRONLY) k) (rest r)"
  shows "wp fs_kernel (at_label labels op lbl (sys (Unistd (Open p flags m))) out_to rest) Q E k s"
  by (rule label_step [OF assms(1)]) (use assms(2-) in \<open>auto simp del: not_None_eq simp: k_open_def split: if_splits\<close>)

lemma wp_write_fifo:
  assumes "label_ok labels op s lf out_to rest" and "fds k fd = Some (i, rd, off)" and "inodes k i = Fifo q" and "\<And>r. rv r = int (length str) \<Longrightarrow>
      goes_on_with Q E fs_kernel s lf (k\<lparr>inodes := (inodes k)(i := Fifo (q @ str))\<rparr>) (rest r)"
  shows "wp fs_kernel (at_label labels op lbl (sys (Unistd (Write fd str))) out_to rest) Q E k s"
  by (rule label_step [OF assms(1)]) (use assms(2-) in \<open>auto simp del: not_None_eq simp: k_write_def split: if_splits\<close>)

lemma wp_write_new:
  assumes "label_ok labels op s lf out_to rest" and "fds k fd = Some (i, rd, 0)" and "inodes k i = Reg []" and "\<And>r. rv r = int (length str) \<Longrightarrow>
      goes_on_with Q E fs_kernel s lf
        (k\<lparr>inodes := (inodes k)(i := Reg str), fds := (fds k)(fd := Some (i, rd, length str))\<rparr>) (rest r)"
  shows "wp fs_kernel (at_label labels op lbl (sys (Unistd (Write fd str))) out_to rest) Q E k s"
  by (rule label_step [OF assms(1)]) (use assms(2-) in \<open>auto simp del: not_None_eq simp: k_write_def split: if_splits\<close>)

lemma wp_unlink_old:
  assumes "label_ok labels op s lf out_to rest" and "names k p = Some i" and "\<And>r. rv r = 0 \<Longrightarrow>
      goes_on_with Q E fs_kernel s lf (k\<lparr>names := (names k)(p := None)\<rparr>) (rest r)"
  shows "wp fs_kernel (at_label labels op lbl (sys (Unistd (Unlink p))) out_to rest) Q E k s"
  by (rule label_step [OF assms(1)]) (use assms(2-) in \<open>auto simp del: not_None_eq simp: k_unlink_def split: if_splits\<close>)

lemma wp_rmdir_old:
  assumes "label_ok labels op s lf out_to rest" and "names k p = Some i" and "\<And>r. rv r = 0 \<Longrightarrow>
      goes_on_with Q E fs_kernel s lf (k\<lparr>names := (names k)(p := None), inodes := (inodes k)(i := Dir False)\<rparr>) (rest r)"
  shows "wp fs_kernel (at_label labels op lbl (sys (Libc ''rmdir'' [S p])) out_to rest) Q E k s"
  by (rule label_step [OF assms(1)]) (use assms(2-) in \<open>auto simp del: not_None_eq simp: k_rmdir_def split: if_splits\<close>)

lemma wp_lseek_start:
  assumes "label_ok labels op s lf out_to rest" and "fds k fd = Some (i, rd, off)" and "\<And>r. rv r = 0 \<Longrightarrow>
      goes_on_with Q E fs_kernel s lf (k\<lparr>fds := (fds k)(fd := Some (i, rd, 0))\<rparr>) (rest r)"
  shows "wp fs_kernel (at_label labels op lbl (sys (Unistd (Lseek fd 0 w))) out_to rest) Q E k s"
  by (rule label_step [OF assms(1)]) (use assms(2-) in \<open>auto simp del: not_None_eq simp: k_lseek_def split: if_splits\<close>)

lemma wp_read_fifo:
  assumes "label_ok labels op s lf out_to rest" and "fds k fd = Some (i, True, off)" and "inodes k i = Fifo q" and "q \<noteq> []"
    and "\<And>r. rdat r = take n q \<Longrightarrow> rv r = int (length (rdat r)) \<Longrightarrow>
      goes_on_with Q E fs_kernel s lf (k\<lparr>inodes := (inodes k)(i := Fifo (drop n q))\<rparr>) (rest r)"
  shows "wp fs_kernel (at_label labels op lbl (sys (Unistd (Read fd n))) out_to rest) Q E k s"
  by (rule label_step [OF assms(1)]) (use assms(2-) in \<open>auto simp del: not_None_eq simp: k_read_def split: if_splits\<close>)

lemma wp_read_denied:
  assumes "label_ok labels op s lf out_to rest" and "fds k fd = Some (i, False, off)"
    and "\<And>r. rv r = -1 \<Longrightarrow> er r = EBADF \<Longrightarrow> goes_on_with Q E fs_kernel s lf k (out_to r)"
  shows "wp fs_kernel (at_label labels op lbl (sys (Unistd (Read fd n))) out_to rest) Q E k s"
  by (rule label_step [OF assms(1)]) (use assms(2-) in \<open>auto simp del: not_None_eq simp: k_read_def split: if_splits\<close>)

lemma wp_getdents_removed:
  assumes "label_ok labels op s lf out_to rest" and "fds k fd = Some (i, rd, off)" and "inodes k i = Dir False"
    and "\<And>r. rv r = -1 \<Longrightarrow> er r = ENOENT \<Longrightarrow> goes_on_with Q E fs_kernel s lf k (out_to r)"
  shows "wp fs_kernel (at_label labels op lbl (sys (Libc ''getdents'' [I fd, I n])) out_to rest) Q E k s"
  by (rule label_step [OF assms(1)]) (use assms(2-) in \<open>auto simp del: not_None_eq simp: k_getdents_def split: if_splits\<close>)

lemmas fs_label_rules =
  wp_creat_new wp_mkfifo_new wp_mkdir_new wp_open_old wp_write_fifo wp_write_new wp_unlink_old wp_rmdir_old
  wp_lseek_start wp_read_fifo wp_read_denied wp_getdents_removed

section \<open>Comparing a buffer\<close>

text \<open>
  \<open>strcmp\<close> of a string with a buffer of which only the first bytes have been written: whether they
  differ, or \<open>None\<close> when that depends on bytes that were never written.
\<close>

fun str_differs :: "string \<Rightarrow> string \<Rightarrow> bool option" where
  "str_differs [] [] = None"
| "str_differs [] (y # ys) = Some (y \<noteq> NUL)"
| "str_differs (x # xs) [] = None"
| "str_differs (x # xs) (y # ys) = (if x \<noteq> y then Some True else str_differs xs ys)"

lemma str_differs_self: "str_differs xs (xs @ NUL # ys) = Some False"
  by (induction xs) simp_all

text \<open>Bytes read to the start of a buffer; those after them stay.\<close>

definition overlay :: "string \<Rightarrow> string \<Rightarrow> string" where
  "overlay new old = new @ drop (length new) old"

end
