(* ===== verification/Fs_File.thy ===== *)
theory Fs_File
  imports Fs_Kernel
begin

text \<open>
  fs/file.c: write a file, remove its name, read the file back through its descriptor, do the same
  with a second file of the same name, and compare both. Every step is a label where the program
  can be checkpointed. The opening of \<open>main\<close> is shared by the programs of fs/. The tests of a
  result that follow a label in the source repeat the one in the macro, so they are left out.
\<close>

section \<open>Constants and globals\<close>

definition LOG_FILE :: string where "LOG_FILE = ''log.unlinked.file''"

definition FS_APPEND_FL :: int where "FS_APPEND_FL = 0x20"
definition FS_IMMUTABLE_FL :: int where "FS_IMMUTABLE_FL = 0x10"
definition FS_UNRM_FL :: int where "FS_UNRM_FL = 0x2"
definition FS_IOC_SETFLAGS :: int where "FS_IOC_SETFLAGS = 0x40086602"

definition pathname :: string where "pathname = ''trash''"
definition buffer :: string where "buffer = ''hello world!'' @ [CHR 0x0A]"
definition buffer2 :: string where "buffer2 = ''goodbye old world, hello new world!'' @ [CHR 0x0A]"

definition labels :: "string list" where
  "labels = [''creat1'', ''setflags1'', ''write1'', ''unlink'', ''lseek'', ''read'', ''creat2'', ''setflags2'',
             ''write2'', ''lseek2'', ''read2'', ''lseek3'', ''read3'']"

record fs_globals =
  inode_flags :: int
  oflags :: int

definition init_globals :: fs_globals where
  "init_globals = \<lparr>inode_flags = 0, oflags = O_RDWR\<rparr>"

type_synonym 'a fsprog = "(fs_globals, 'a) prog"

section \<open>Options\<close>

definition usage :: "string \<Rightarrow> int \<Rightarrow> unit fsprog" where
  "usage prog pout =
     block [emit (Stdio (FprintfTo pout 44 [S prog, S ''Create an unlinked file to checkpoint/restore.'',
              I (int (length labels) - 1)])), print_labels labels pout]"

definition fs_long_options :: "longopt list" where
  "fs_long_options =
     [(''print-labels'', 0, CHR ''L''), (''print-max-label-no'', 0, CHR ''N''), (''help'', 0, CHR ''h''),
      (''append'', 0, CHR ''a''), (''immutable'', 0, CHR ''i''), (''undelete'', 0, CHR ''u''),
      (''label'', 1, CHR ''l''), (''num'', 1, CHR ''n'')]"

definition other_option :: "char \<Rightarrow> string option \<Rightarrow> unit fsprog" where
  "other_option c optarg =
     (if c = CHR ''a'' then set_glob (\<lambda>g. g\<lparr>oflags := oflags g OR O_APPEND, inode_flags := inode_flags g OR FS_APPEND_FL\<rparr>)
      else if c = CHR ''i'' then set_glob (\<lambda>g. g\<lparr>inode_flags := inode_flags g OR FS_IMMUTABLE_FL\<rparr>)
      else if c = CHR ''u'' then set_glob (\<lambda>g. g\<lparr>inode_flags := inode_flags g OR FS_UNRM_FL\<rparr>)
      else return ())"

definition parse_args :: "string list \<Rightarrow> unit fsprog" where
  "parse_args argv =
     andthen (last_label labels)
       (foreach (label_option labels 92 116 [] (usage (hd argv)) other_option)
          (fst (getopt_long ''LNhl:n:aiu'' fs_long_options (tl argv))))"

section \<open>Operations\<close>

definition setflags :: "int \<Rightarrow> resp fsprog" where
  "setflags fd =
     with_glob inode_flags (\<lambda>flags.
     if flags = 0 then return (ok 0)
     else sys (Libc ''ioctl'' [I fd, I FS_IOC_SETFLAGS, I flags]))"

text \<open>
  The opening of the programs of fs/: the log file replaces stdout and stderr, and the process
  joins freezer group 1. The first argument is the name of the log, the others the lines of the
  two messages.
\<close>

definition fs_setup :: "string \<Rightarrow> nat \<Rightarrow> nat \<Rightarrow> ('g, unit) prog" where
  "fs_setup log_file line_open line_move =
     andthen (emit (Unistd (Close 0))) (
     bind (sysv (Stdio (Fopen log_file ''w''))) (\<lambda>fp.
     if fp < 0 then andthen (emit (Stdio (Perror line_open))) (exit_with 1)
     else andthen (block [modify (\<lambda>s. s\<lparr>logfp := Some fp\<rparr>), emit (Unistd (Dup2 fp 1)), emit (Unistd (Dup2 fp 2))]) (
     bind (sysv (Proc Getpid)) (\<lambda>pid.
     bind (move_to_cgroup ''freezer'' ''1'' pid) (\<lambda>m.
     if m = 0 then andthen (log_error line_move ''move_to_cgroup'') (exit_with 2)
     else return ())))))"

text \<open>
  From \<open>out\<close> on. \<open>ret\<close> is \<open>None\<close> while nothing has been assigned to it: a failing \<open>creat1\<close> jumps
  to \<open>out\<close> from inside its label.
\<close>

definition close_log :: "('g, unit) prog" where
  "close_log = bind (gets logfp) (\<lambda>fp. emit (Stdio (Fclose (the fp))))"

definition out_of :: "int \<Rightarrow> int \<Rightarrow> int option \<Rightarrow> ('g, 'a) prog" where
  "out_of fd fd2 ret =
     (case ret of
        None \<Rightarrow> crash
      | Some rc \<Rightarrow>
          andthen (block
            [if rc \<noteq> 0 then emit (Stdio (Perror 239)) else return (),
             emit (Unistd (Close fd)),
             if -1 < fd2 then emit (Unistd (Close fd2)) else return (),
             emit (Unistd (Unlink pathname)),
             close_log]) (exit_with rc))"

text \<open>Comparing what was read; bytes that were never written make the comparison undefined.\<close>

definition compare_or :: "string \<Rightarrow> string \<Rightarrow> ('g, 'a) prog \<Rightarrow> ('g, 'a) prog \<Rightarrow> ('g, 'a) prog" where
  "compare_or want got differs same =
     (case str_differs want got of None \<Rightarrow> crash | Some True \<Rightarrow> differs | Some False \<Rightarrow> same)"

section \<open>The main program\<close>

text \<open>From label \<open>lseek2\<close> on: both files are compared.\<close>

definition check_both :: "int \<Rightarrow> int \<Rightarrow> string \<Rightarrow> int fsprog" where
  "check_both fd fd2 contents =
     (let out = (\<lambda>rc. out_of fd fd2 (Some rc)) in
      at_label labels 9 ''lseek2'' (sys (Unistd (Lseek fd 0 0))) (\<lambda>r. out (rv r)) (\<lambda>_.
      at_label labels 10 ''read2'' (sys (Unistd (Read fd (length buffer + 1)))) (\<lambda>r. out (rv r)) (\<lambda>r.
      compare_or buffer (overlay (rdat r) contents)
        (andthen (log_msg FAIL 220 []) (out 1)) (
      at_label labels 11 ''lseek3'' (sys (Unistd (Lseek fd2 0 0))) (\<lambda>r. out (rv r)) (\<lambda>_.
      at_label labels 12 ''read3'' (sys (Unistd (Read fd2 (length buffer2 + 1)))) (\<lambda>r. out (rv r)) (\<lambda>r.
      compare_or buffer2 (rdat r)
        (andthen (log_msg FAIL 232 []) (out 1))
        (out 0)))))))"

text \<open>From label \<open>creat2\<close> on; a \<open>creat2\<close> that fails leaves the result of the last read in \<open>ret\<close>.\<close>

definition second_file :: "int \<Rightarrow> resp \<Rightarrow> int fsprog" where
  "second_file fd rd =
     at_label labels 6 ''creat2'' (sys (Unistd (Creat pathname O_RDWR))) (\<lambda>r. out_of fd (rv r) (Some (rv rd))) (\<lambda>r.
     let fd2 = rv r; out = (\<lambda>rc. out_of fd fd2 (Some rc)) in
     at_label labels 7 ''setflags2'' (setflags fd) (\<lambda>r. out (rv r)) (\<lambda>_.
     at_label labels 8 ''write2'' (sys (Unistd (Write fd2 (buffer2 @ [NUL])))) (\<lambda>r. out (rv r)) (\<lambda>_.
     check_both fd fd2 (rdat rd))))"

definition file_test :: "int fsprog" where
  "file_test =
     with_glob oflags (\<lambda>m.
     at_label labels 0 ''creat1'' (sys (Unistd (Creat pathname m))) (\<lambda>r. out_of (rv r) (-1) None) (\<lambda>r.
     let fd = rv r; out = (\<lambda>rc. out_of fd (-1) (Some rc)) in
     at_label labels 1 ''setflags1'' (setflags fd) (\<lambda>r. out (rv r)) (\<lambda>_.
     at_label labels 2 ''write1'' (sys (Unistd (Write fd (buffer @ [NUL])))) (\<lambda>r. out (rv r)) (\<lambda>_.
     at_label labels 3 ''unlink'' (sys (Unistd (Unlink pathname))) (\<lambda>r. out (rv r)) (\<lambda>_.
     at_label labels 4 ''lseek'' (sys (Unistd (Lseek fd 0 0))) (\<lambda>r. out (rv r)) (\<lambda>_.
     at_label labels 5 ''read'' (sys (Unistd (Read fd (length buffer + 1)))) (\<lambda>r. out (rv r)) (\<lambda>r.
     compare_or buffer (rdat r)
       (andthen (log_msg FAIL 189 []) (out 1))
       (second_file fd r))))))))"

definition main :: "string list \<Rightarrow> int fsprog" where
  "main argv = andthen (block [parse_args argv, fs_setup LOG_FILE 155 161]) file_test"

section \<open>Appending\<close>

lemma appending_setflags [append_intros]: "appending (setflags fd)"
  unfolding setflags_def by (intro append_intros)

lemma appending_close_log [append_intros]: "appending close_log"
  unfolding close_log_def by (intro append_intros)

lemma appending_out_of [append_intros]: "appending (out_of fd fd2 ret)"
  unfolding out_of_def by (auto intro!: append_intros split: option.split)

lemma appending_compare_or [append_intros]:
  "appending p \<Longrightarrow> appending q \<Longrightarrow> appending (compare_or want got p q)"
  unfolding compare_or_def by (auto intro!: append_intros split: option.split bool.split)

lemma appending_check_both [append_intros]: "appending (check_both fd fd2 c)"
  unfolding check_both_def Let_def by (intro append_intros)

lemma appending_second_file [append_intros]: "appending (second_file fd rd)"
  unfolding second_file_def Let_def by (intro append_intros)

section \<open>The verdict\<close>

lemma wp_out_of: "(\<And>k. E c k) \<Longrightarrow> wp K (out_of fd fd2 (Some c)) Q E k s"
  unfolding out_of_def close_log_def by (auto intro!: wp_rules append_intros)

lemma labels_length: "length labels = 13"
  by (simp add: labels_def)

lemma wp_setflags_label:
  assumes "label_ok labels op s lf out_to rest"
    and "\<And>r. goes_on_with Q E fs_kernel s lf k (if rv r < 0 then out_to r else rest r)"
  shows "wp fs_kernel (at_label labels op lbl (setflags fd) out_to rest) Q E k s"
proof (rule fsh.wp_at_label [where ?s0.0 = s])
  fix u
  assume "same_vars s u"
  then show "wp fs_kernel (setflags fd) (\<lambda>r k' t. same_vars s t \<and>
      (\<forall>u. same_vars s u \<longrightarrow> wp fs_kernel (if rv r < 0 then out_to r else rest r) Q E k' u)) E k u"
    using assms assms(2) [of "ok 0"] unfolding setflags_def label_ok_def
    by (intro wp_rules append_intros) (simp_all add: same_vars_def fs_answers_def)
qed (use assms(1) in \<open>simp_all add: label_ok_def append_intros\<close>)

lemma path_not_ready: "pathname \<noteq> CKPT_READY"
  by (simp add: pathname_def CKPT_READY_def)

lemma file_test_wp:
  assumes "logfp s = Some lf" and "names k pathname = None"
  shows "wp fs_kernel file_test (\<lambda>_ _ _. False) (\<lambda>c _. c < 0) k s"
  unfolding file_test_def Let_def
  by (intro wp_with_glob_last wp_creat_new wp_setflags_label wp_write_new wp_unlink_old wp_lseek_start
      wp_read_denied allI impI wp_if wp_out_of)
    (simp_all add: label_ok_def labels_length append_intros assms new_fd_def new_inode_def path_not_ready)+

text \<open>
  \<^bold>\<open>C33.\<close> \<open>file\<close> cannot pass, whatever checkpoint and restart do: on a file system that behaves as
  documented, the test ends with a negative status whenever it ends, because \<open>creat\<close> opens its
  file for writing only and the test then reads from that descriptor.
\<close>

theorem file_never_passes:
  assumes "logfp s = Some lf" and "names k pathname = None"
    and "run_kernel fs_kernel k (since s (final (file_test s))) \<noteq> None"
  shows "case file_test s of Exited c t \<Rightarrow> c < 0 | Blocked t \<Rightarrow> True | _ \<Rightarrow> False"
proof -
  from assms(3) obtain k' where "run_kernel fs_kernel k (since s (final (file_test s))) = Some k'" by auto
  with file_test_wp [OF assms(1,2)] show ?thesis by (rule wp_ends)
qed

definition example_run :: "fs_globals proc" where
  "example_run = start [ok 3, ok 0, ok 0, ok 14, ok 0, ok 0, failed EBADF] (Some 5) init_globals"

theorem file_never_passes_witness:
  "(case file_test example_run of Exited c t \<Rightarrow> c < 0 | Blocked t \<Rightarrow> True | _ \<Rightarrow> False) \<and>
   (case file_test example_run of Exited c t \<Rightarrow> c = -1 | _ \<Rightarrow> False)"
proof
  show "case file_test example_run of Exited c t \<Rightarrow> c < 0 | Blocked t \<Rightarrow> True | _ \<Rightarrow> False"
  proof (rule file_never_passes [where k = empty_fs])
    show "logfp example_run = Some 5" by (simp add: example_run_def)
    show "run_kernel fs_kernel empty_fs (since example_run (final (file_test example_run))) \<noteq> None"
      by code_simp
  qed (simp add: empty_fs_def)
qed code_simp

end
