(* ===== verification/Fs_Fifo.thy ===== *)
theory Fs_Fifo
  imports Fs_File
begin

text \<open>
  fs/fifo.c: as file.c with two fifos of the same name, the first one unlinked before the second is
  made. The options, the flags and the opening of the program are those of file.c (the lines are
  two less); \<open>setflags\<close> and the option cases are the same code. The option loop compares a plain
  char with -1, which ends it where char is signed.
\<close>

section \<open>Constants\<close>

definition fifo_labels :: "string list" where
  "fifo_labels = [''mkfifo1'', ''open1'', ''setflags1'', ''write1'', ''unlink'', ''mkfifo2'', ''open2'', ''setflags2'',
                  ''write2'', ''read1'', ''read2'']"

definition S_IRUSR_S_IWUSR :: int where "S_IRUSR_S_IWUSR = 384"

section \<open>Options\<close>

definition fifo_usage :: "string \<Rightarrow> int \<Rightarrow> unit fsprog" where
  "fifo_usage prog pout =
     block [emit (Stdio (FprintfTo pout 42 [S prog, S ''Create an unlinked file to checkpoint/restore.'',
              I (int (length fifo_labels) - 1)])), print_labels fifo_labels pout]"

definition fifo_parse_args :: "string list \<Rightarrow> unit fsprog" where
  "fifo_parse_args argv =
     andthen (last_label fifo_labels)
       (foreach (label_option fifo_labels 90 114 [] (fifo_usage (hd argv)) other_option)
          (fst (getopt_long ''LNhl:n:aiu'' fs_long_options (tl argv))))"

section \<open>The main program\<close>

definition fifo_out :: "int \<Rightarrow> int \<Rightarrow> int \<Rightarrow> ('g, 'a) prog" where
  "fifo_out fifo1 fifo2 ret =
     andthen (block
       [if ret \<noteq> 0 then emit (Stdio (Perror 192)) else return (),
        if -1 < fifo1 then emit (Unistd (Close fifo1)) else return (),
        if -1 < fifo2 then emit (Unistd (Close fifo2)) else return (),
        emit (Unistd (Unlink pathname)),
        close_log]) (exit_with ret)"

text \<open>From label \<open>read1\<close> on.\<close>

definition check_fifos :: "int \<Rightarrow> int \<Rightarrow> int fsprog" where
  "check_fifos fifo1 fifo2 =
     at_label fifo_labels 9 ''read1'' (sys (Unistd (Read fifo1 (length buffer + 1)))) (\<lambda>r. fifo_out fifo1 fifo2 (rv r)) (\<lambda>r.
     compare_or buffer (rdat r)
       (andthen (log_msg FAIL 179 []) (fifo_out fifo1 fifo2 1)) (
     at_label fifo_labels 10 ''read2'' (sys (Unistd (Read fifo2 (length buffer2 + 1)))) (\<lambda>r. fifo_out fifo1 fifo2 (rv r)) (\<lambda>r.
     compare_or buffer2 (rdat r)
       (andthen (log_msg FAIL 185 []) (fifo_out fifo1 fifo2 1))
       (fifo_out fifo1 fifo2 0))))"

text \<open>
  From label \<open>mkfifo2\<close> on. A label that assigns to \<open>fifo1\<close> or \<open>fifo2\<close> leaves the result of the
  label before it in \<open>ret\<close>.
\<close>

definition second_fifo :: "int \<Rightarrow> int fsprog" where
  "second_fifo fifo1 =
     with_glob oflags (\<lambda>flags.
     at_label fifo_labels 5 ''mkfifo2'' (sys (Libc ''mkfifo'' [S pathname, I S_IRUSR_S_IWUSR])) (\<lambda>r. fifo_out fifo1 (-1) (rv r)) (\<lambda>m.
     at_label fifo_labels 6 ''open2'' (sys (Unistd (Open pathname flags 0))) (\<lambda>r. fifo_out fifo1 (rv r) (rv m)) (\<lambda>f.
     at_label fifo_labels 7 ''setflags2'' (setflags (rv f)) (\<lambda>r. fifo_out fifo1 (rv f) (rv r)) (\<lambda>_.
     at_label fifo_labels 8 ''write2'' (sys (Unistd (Write (rv f) (buffer2 @ [NUL])))) (\<lambda>r. fifo_out fifo1 (rv f) (rv r)) (\<lambda>_.
     check_fifos fifo1 (rv f))))))"

definition fifo_test :: "int fsprog" where
  "fifo_test =
     with_glob oflags (\<lambda>flags.
     at_label fifo_labels 0 ''mkfifo1'' (sys (Libc ''mkfifo'' [S pathname, I S_IRUSR_S_IWUSR])) (\<lambda>r. fifo_out (-1) (-1) (rv r)) (\<lambda>m.
     at_label fifo_labels 1 ''open1'' (sys (Unistd (Open pathname flags 0))) (\<lambda>r. fifo_out (rv r) (-1) (rv m)) (\<lambda>f.
     at_label fifo_labels 2 ''setflags1'' (setflags (rv f)) (\<lambda>r. fifo_out (rv f) (-1) (rv r)) (\<lambda>_.
     at_label fifo_labels 3 ''write1'' (sys (Unistd (Write (rv f) (buffer @ [NUL])))) (\<lambda>r. fifo_out (rv f) (-1) (rv r)) (\<lambda>_.
     at_label fifo_labels 4 ''unlink'' (sys (Unistd (Unlink pathname))) (\<lambda>r. fifo_out (rv f) (-1) (rv r)) (\<lambda>_.
     second_fifo (rv f)))))))"

definition fifo_main :: "string list \<Rightarrow> int fsprog" where
  "fifo_main argv = andthen (block [fifo_parse_args argv, fs_setup LOG_FILE 153 159]) fifo_test"

section \<open>The unlinked fifo keeps its contents\<close>

lemma fifo_labels_length: "length fifo_labels = 11"
  by (simp add: fifo_labels_def)

lemma appending_fifo_out [append_intros]: "appending (fifo_out f1 f2 ret)"
  unfolding fifo_out_def by (intro append_intros)

lemma appending_check_fifos [append_intros]: "appending (check_fifos f1 f2)"
  unfolding check_fifos_def by (intro append_intros)

lemma appending_second_fifo [append_intros]: "appending (second_fifo f1)"
  unfolding second_fifo_def by (intro append_intros)

lemma wp_fifo_out: "(\<And>k. E c k) \<Longrightarrow> wp K (fifo_out f1 f2 c) Q E k s"
  unfolding fifo_out_def close_log_def by (auto intro!: wp_rules append_intros)

lemma wp_setflags_none:
  assumes "label_ok lbls op s lf out_to rest" and "inode_flags (glob s) = 0"
    and "goes_on_with Q E fs_kernel s lf k (rest (ok 0))"
  shows "wp fs_kernel (at_label lbls op lbl (setflags fd) out_to rest) Q E k s"
proof (rule fsh.wp_at_label [where ?s0.0 = s])
  fix u
  assume "same_vars s u"
  with assms show "wp fs_kernel (setflags fd) (\<lambda>r k' t. same_vars s t \<and>
      (\<forall>u. same_vars s u \<longrightarrow> wp fs_kernel (if rv r < 0 then out_to r else rest r) Q E k' u)) E k u"
    unfolding setflags_def label_ok_def
    by (intro wp_rules append_intros) (simp_all add: same_vars_def)
qed (use assms(1) in \<open>simp_all add: label_ok_def append_intros\<close>)

lemma wp_compare_same:
  "str_differs want got = Some False \<Longrightarrow> wp K q Q E k s \<Longrightarrow> wp K (compare_or want got p q) Q E k s"
  by (simp add: compare_or_def)

lemma check_fifos_wp:
  assumes "logfp s = Some lf" and "i \<noteq> j"
    and "fds k f1 = Some (i, True, o1)" and "inodes k i = Fifo (buffer @ [NUL])"
    and "fds k f2 = Some (j, True, o2)" and "inodes k j = Fifo (buffer2 @ [NUL])"
  shows "wp fs_kernel (check_fifos f1 f2) (\<lambda>_ _ _. False) (\<lambda>c _. c = 0) k s"
  unfolding check_fifos_def
proof (rule wp_read_fifo [where lf = lf, OF _ assms(3,4)], goal_cases)
  case (3 r)
  show ?case
    using assms(2,5,6) 3
    by (intro allI impI wp_compare_same wp_read_fifo [where lf = lf and q = "buffer2 @ [NUL]"] wp_fifo_out)
      (auto simp: label_ok_def fifo_labels_length append_intros str_differs_self)
qed (use assms in \<open>simp_all add: label_ok_def fifo_labels_length append_intros\<close>)

lemma second_fifo_wp:
  assumes "logfp s = Some lf" and "inode_flags (glob s) = 0" and "oflags (glob s) mod 4 \<noteq> O_WRONLY"
    and "names k pathname = None" and "i < used k"
    and "fds k f1 = Some (i, True, o1)" and "inodes k i = Fifo (buffer @ [NUL])"
  shows "wp fs_kernel (second_fifo f1) (\<lambda>_ _ _. False) (\<lambda>c _. c = 0) k s"
  unfolding second_fifo_def
  by (intro wp_with_glob_last wp_mkfifo_new wp_open_old [where i = "used k"] wp_setflags_none
      wp_write_fifo [where i = "used k" and q = "[]"]
      check_fifos_wp [where i = i and j = "used k" and ?o1.0 = o1] allI impI)
    (use assms in \<open>auto simp: label_ok_def fifo_labels_length append_intros new_fd_def new_inode_def\<close>)

lemma fifo_test_wp:
  assumes "logfp s = Some lf" and "inode_flags (glob s) = 0" and "oflags (glob s) mod 4 \<noteq> O_WRONLY"
    and "names k pathname = None"
  shows "wp fs_kernel fifo_test (\<lambda>_ _ _. False) (\<lambda>c _. c = 0) k s"
  unfolding fifo_test_def
  by (intro wp_with_glob_last wp_mkfifo_new wp_open_old [where i = "used k"] wp_setflags_none
      wp_write_fifo [where i = "used k" and q = "[]"] wp_unlink_old [where i = "used k"]
      second_fifo_wp [where i = "used k" and ?o1.0 = 0] allI impI)
    (use assms in \<open>auto simp: label_ok_def fifo_labels_length append_intros new_fd_def new_inode_def\<close>)

text \<open>
  \<^bold>\<open>C32.\<close> On a file system that behaves as documented, and with a restart that restores it,
  \<open>fifo\<close> passes: whenever the test ends, it ends with status 0. The first fifo keeps its contents
  after its name was removed and given to a second fifo, wherever the checkpoint is taken.
\<close>

theorem fifo_passes:
  assumes "logfp s = Some lf" and "inode_flags (glob s) = 0" and "oflags (glob s) = O_RDWR"
    and "names k pathname = None"
    and "run_kernel fs_kernel k (since s (final (fifo_test s))) \<noteq> None"
  shows "case fifo_test s of Exited c t \<Rightarrow> c = 0 | Blocked t \<Rightarrow> True | _ \<Rightarrow> False"
proof -
  from assms(5) obtain k' where "run_kernel fs_kernel k (since s (final (fifo_test s))) = Some k'" by auto
  moreover have "oflags (glob s) mod 4 \<noteq> O_WRONLY" using assms(3) by (simp add: O_RDWR_def O_WRONLY_def)
  with assms have "wp fs_kernel fifo_test (\<lambda>_ _ _. False) (\<lambda>c _. c = 0) k s" by (intro fifo_test_wp)
  then show ?thesis using calculation by (rule wp_ends)
qed

text \<open>A run with the checkpoint, in a dry run, at the first label.\<close>

definition fifo_run :: "fs_globals proc" where
  "fifo_run = start [ok 0, ok 0, ok 0, ok 3, ok 14, ok 0, ok 0, ok 4, ok 37,
     \<lparr>rv = 14, er = 0, rdat = buffer @ [NUL], outs = []\<rparr>,
     \<lparr>rv = 37, er = 0, rdat = buffer2 @ [NUL], outs = []\<rparr>] (Some 5) init_globals"

theorem fifo_passes_witness:
  "(case fifo_test fifo_run of Exited c t \<Rightarrow> c = 0 | Blocked t \<Rightarrow> True | _ \<Rightarrow> False) \<and>
   (case fifo_test fifo_run of Exited c t \<Rightarrow> True | _ \<Rightarrow> False)"
proof
  show "case fifo_test fifo_run of Exited c t \<Rightarrow> c = 0 | Blocked t \<Rightarrow> True | _ \<Rightarrow> False"
  proof (rule fifo_passes [where k = empty_fs])
    show "run_kernel fs_kernel empty_fs (since fifo_run (final (fifo_test fifo_run))) \<noteq> None"
      by code_simp
  qed (simp_all add: fifo_run_def init_globals_def empty_fs_def)
qed code_simp

text \<open>
  A fifo that cannot be opened is reported as success: the failed \<open>open\<close> jumps to \<open>out\<close>
  with the 0 that \<open>mkfifo\<close> left in \<open>ret\<close>.
\<close>

theorem fifo_open_failure_passes:
  assumes "script s = ok 0 # failed e # rest" and "logfp s = Some lf"
    and "ckpt_op_num s = 10" and "ckpt_label s = Some ''read2''"
  shows "\<exists>t. fifo_test s = Exited 0 t"
  using assms
  by (simp add: fifo_test_def run_at_label fifo_labels_length ckpt_here_def prog_simps fifo_out_def close_log_def)

theorem fifo_open_failure_passes_witness:
  "\<exists>t. fifo_test (start [ok 0, failed EACCES] (Some 5) init_globals
      \<lparr>ckpt_op_num := 10, ckpt_label := Some ''read2''\<rparr>) = Exited 0 t"
  by (rule fifo_open_failure_passes [where e = EACCES and rest = "[]" and lf = 5]) simp_all

end
