(* ===== verification/Fs_Dir.thy ===== *)
theory Fs_Dir
  imports Fs_File
begin

text \<open>
  fs/dir.c: open a directory, remove it, read its entries through the descriptor. What is compared
  in the end is a buffer the program never writes. And fs/do_ckpt.c, a process that only takes part
  in the checkpoint handshake.
\<close>

section \<open>dir.c\<close>

definition dir_log_file :: string where "dir_log_file = ''log.unlinked.dir''"

definition dir_labels :: "string list" where
  "dir_labels = [''mkdir'', ''open'', ''rmdir'', ''getdent'', ''close'']"

definition S_IRWXU :: int where "S_IRWXU = 448"

definition dir_usage :: "string \<Rightarrow> int \<Rightarrow> (unit, unit) prog" where
  "dir_usage prog pout =
     block [emit (Stdio (FprintfTo pout 28 [S prog, S ''Create an unlinked file to checkpoint/restore.'',
              I (int (length dir_labels) - 1)])), print_labels dir_labels pout]"

definition dir_long_options :: "longopt list" where
  "dir_long_options =
     [(''print-labels'', 0, CHR ''L''), (''print-max-label-no'', 0, CHR ''N''), (''help'', 0, CHR ''h''),
      (''label'', 1, CHR ''l''), (''num'', 1, CHR ''n'')]"

definition dir_parse_args :: "string list \<Rightarrow> (unit, unit) prog" where
  "dir_parse_args argv =
     andthen (last_label dir_labels)
       (foreach (label_option dir_labels 67 81 [] (dir_usage (hd argv)) (\<lambda>_ _. return ()))
          (fst (getopt_long ''LNhl:n:'' dir_long_options (tl argv))))"

text \<open>\<open>fd\<close> is \<open>None\<close> until the directory has been opened; closing it then is undefined.\<close>

definition dir_out :: "int option \<Rightarrow> int \<Rightarrow> ('g, 'a) prog" where
  "dir_out fd ret =
     (case fd of
        None \<Rightarrow> crash
      | Some d \<Rightarrow> andthen (block [emit (Unistd (Close d)), close_log]) (exit_with ret))"

text \<open>
  \<open>getdents\<close> stores what it reads in \<open>buffer\<close>; nothing is ever stored in \<open>fdcontents\<close>. A failing
  \<open>open\<close> leaves the 0 of \<open>mkdir\<close> in \<open>ret\<close>.
\<close>

definition dir_test :: "(unit, int) prog" where
  "dir_test =
     at_label dir_labels 0 ''mkdir'' (sys (Unistd (Mkdir pathname S_IRWXU))) (\<lambda>r. dir_out None (rv r)) (\<lambda>m.
     at_label dir_labels 1 ''open'' (sys (Unistd (Open pathname O_DIRECTORY 0))) (\<lambda>r. dir_out (Some (rv r)) (rv m)) (\<lambda>f.
     at_label dir_labels 2 ''rmdir'' (sys (Libc ''rmdir'' [S pathname])) (\<lambda>r. dir_out (Some (rv f)) (rv r)) (\<lambda>_.
     at_label dir_labels 3 ''getdent'' (sys (Libc ''getdents'' [I (rv f), I (int (length buffer) + 1)]))
       (\<lambda>r. dir_out (Some (rv f)) (rv r)) (\<lambda>g.
     at_label dir_labels 4 ''close'' (sys (Unistd (Close (rv f)))) (\<lambda>r. dir_out (Some (rv f)) (rv r)) (\<lambda>_.
     compare_or (overlay (rdat g) buffer) ''''
       (andthen (log_msg FAIL 127 []) (dir_out (Some (rv f)) 1))
       (dir_out (Some (rv f)) 0))))))"

definition dir_main :: "string list \<Rightarrow> (unit, int) prog" where
  "dir_main argv = andthen (block [dir_parse_args argv, fs_setup dir_log_file 109 115]) dir_test"

section \<open>do_ckpt.c\<close>

definition do_ckpt_log_file :: string where "do_ckpt_log_file = ''log.do_ckpt''"

definition do_ckpt_main :: "(unit, int) prog" where
  "do_ckpt_main = andthen (block [fs_setup do_ckpt_log_file 22 28, do_ckpt]) (exit_with 0)"

section \<open>The verdict\<close>

lemma dir_labels_length: "length dir_labels = 5"
  by (simp add: dir_labels_def)

lemma appending_dir_out [append_intros]: "appending (dir_out fd ret)"
  unfolding dir_out_def by (auto intro!: append_intros split: option.split)

lemma wp_dir_out: "(\<And>k. E c k) \<Longrightarrow> wp K (dir_out (Some fd) c) Q E k s"
  unfolding dir_out_def close_log_def by (auto intro!: wp_rules append_intros)

lemma dir_test_wp:
  assumes "logfp s = Some lf" and "names k pathname = None"
  shows "wp fs_kernel dir_test (\<lambda>_ _ _. False) (\<lambda>c _. c < 0) k s"
  unfolding dir_test_def
  by (intro wp_mkdir_new wp_open_old [where i = "used k"] wp_rmdir_old [where i = "used k"]
      wp_getdents_removed [where i = "used k"] wp_dir_out allI impI)
    (simp_all add: label_ok_def dir_labels_length append_intros assms new_fd_def new_inode_def)+

text \<open>
  \<open>dir\<close> cannot pass either: on a file system that behaves as documented the directory has been
  removed when its entries are read, and the test ends with a negative status whenever it ends.
\<close>

theorem dir_never_passes:
  assumes "logfp s = Some lf" and "names k pathname = None"
    and "run_kernel fs_kernel k (since s (final (dir_test s))) \<noteq> None"
  shows "case dir_test s of Exited c t \<Rightarrow> c < 0 | Blocked t \<Rightarrow> True | _ \<Rightarrow> False"
proof -
  from assms(3) obtain k' where "run_kernel fs_kernel k (since s (final (dir_test s))) = Some k'" by auto
  with dir_test_wp [OF assms(1,2)] show ?thesis by (rule wp_ends)
qed

definition dir_run :: "unit proc" where
  "dir_run = start [ok 0, ok 0, ok 0, ok 3, ok 0, failed ENOENT] (Some 5) ()"

theorem dir_never_passes_witness:
  "(case dir_test dir_run of Exited c t \<Rightarrow> c < 0 | Blocked t \<Rightarrow> True | _ \<Rightarrow> False) \<and>
   (case dir_test dir_run of Exited c t \<Rightarrow> c = -1 | _ \<Rightarrow> False)"
proof
  show "case dir_test dir_run of Exited c t \<Rightarrow> c < 0 | Blocked t \<Rightarrow> True | _ \<Rightarrow> False"
  proof (rule dir_never_passes [where k = empty_fs])
    show "run_kernel fs_kernel empty_fs (since dir_run (final (dir_test dir_run))) \<noteq> None" by code_simp
  qed (simp_all add: dir_run_def empty_fs_def)
qed code_simp

end
