(* ===== verification/Dnotify.thy ===== *)
theory Dnotify
  imports Handshake
begin

text \<open>
  fs/notify/dnotify.c: watch a directory with F_NOTIFY and wait for the SIGIO of every kind of
  event. A failed assertion ends the process with the status 134 a shell gives for SIGABRT. Then
  the kernel's side, files and dnotify, and that the test passes with it.
\<close>

section \<open>Constants and globals\<close>

definition LOG_FILE :: string where "LOG_FILE = ''log.dnotify''"

definition DN_ACCESS :: int where "DN_ACCESS = 0x1"
definition DN_MODIFY :: int where "DN_MODIFY = 0x2"
definition DN_CREATE :: int where "DN_CREATE = 0x4"
definition DN_DELETE :: int where "DN_DELETE = 0x8"
definition DN_RENAME :: int where "DN_RENAME = 0x10"
definition DN_ATTRIB :: int where "DN_ATTRIB = 0x20"
definition DN_MULTISHOT :: int where "DN_MULTISHOT = 0x80000000"
definition F_NOTIFY :: int where "F_NOTIFY = 1026"
definition O_CREAT_EXCL_RDWR :: int where "O_CREAT_EXCL_RDWR = 64 + 128 + 2"
definition S_IRUSR :: int where "S_IRUSR = 256"
definition S_IRWXU :: int where "S_IRWXU = 448"
definition SIG_BLOCK :: int where "SIG_BLOCK = 0"

definition labels :: "string list" where
  "labels =
     [''watch_create'', ''do_create'', ''DN_CREATE_sigio_wait'', ''watch_modify'', ''do_modify'', ''DN_MODIFY_sigio_wait'',
      ''watch_access'', ''do_access'', ''DN_ACCESS_sigio_wait'', ''watch_attrib'', ''do_attrib'', ''DN_ATTRIB_sigio_wait'',
      ''watch_rename'', ''do_rename'', ''DN_RENAME_sigio_wait'', ''watch_delete'', ''do_delete'', ''DN_DELETE_sigio_wait'',
      ''do_rmdir'']"

record dn_globals =
  freezer :: string
  watchfd :: int

definition init_globals :: dn_globals where
  "init_globals = \<lparr>freezer = ''1'', watchfd = -1\<rparr>"

type_synonym 'a dnprog = "(dn_globals, 'a) prog"

definition writ_contents :: string where "writ_contents = ''hello world''"

section \<open>Options\<close>

definition usage :: "int \<Rightarrow> unit dnprog" where
  "usage pout =
     block [emit (Stdio (FprintfTo pout 28 [I (int (length labels) - 1)])), print_labels labels pout]"

definition other_option :: "char \<Rightarrow> string option \<Rightarrow> unit dnprog" where
  "other_option c optarg =
     (if c = CHR ''f''
      then block [set_glob (\<lambda>g. g\<lparr>freezer := the optarg\<rparr>), emit (Stdio (Printf 67 [S (the optarg)]))]
      else return ())"

definition parse_args :: "string list \<Rightarrow> unit dnprog" where
  "parse_args args =
     andthen (last_label labels)
       (foreach (label_option labels 74 88 [] usage other_option)
          (fst (getopt_long ''f:LNhl:n:'' long_options args)))"

section \<open>Assertions\<close>

definition assert_that :: "bool \<Rightarrow> ('g, unit) prog" where
  "assert_that c = (if c then return () else andthen (emit (Proc AbortCall)) (exit_with 134))"

definition eassert :: "nat \<Rightarrow> bool \<Rightarrow> ('g, unit) prog" where
  "eassert n c = andthen (if c then return () else emit (Stdio (Perror n))) (assert_that c)"

text \<open>The signal number \<open>sigtimedwait\<close> returned, and the one in its siginfo.\<close>

definition dnotify_sigio :: "int \<Rightarrow> int \<Rightarrow> ('g, unit) prog" where
  "dnotify_sigio signo si_signo = block [assert_that (signo = SIGIO), assert_that (si_signo = SIGIO)]"

section \<open>The main program\<close>

text \<open>
  From \<open>out\<close> on. \<open>dir\<close> is \<open>None\<close> until the directory was opened; closing it then is undefined.
\<close>

definition out_of :: "int option \<Rightarrow> int \<Rightarrow> int \<Rightarrow> 'a dnprog" where
  "out_of dir fd ret =
     andthen (bind (gets errno) (\<lambda>e. fprintf 217 [I e])) (
     andthen (if 0 \<le> fd then emit (Unistd (Close fd)) else return ()) (
     case dir of
       None \<Rightarrow> crash
     | Some d \<Rightarrow>
         andthen (block [emit (Dirent (Closedir d)), bind (gets logfp) (\<lambda>fp. emit (Stdio (Fclose (the fp))))])
           (exit_with (if ret \<noteq> 0 then 1 else ret))))"

text \<open>One of the six rounds: watch for an event, cause it, wait for its signal.\<close>

definition dn_expect_events :: "int \<Rightarrow> int \<Rightarrow> int \<Rightarrow> string \<Rightarrow> int dnprog \<Rightarrow> int dnprog" where
  "dn_expect_events dir fd op lbl k =
     at_label labels op lbl (sys (Libc ''sigtimedwait'' [I SIGIO, I 1])) (\<lambda>r. out_of (Some dir) fd (rv r)) (\<lambda>r.
     andthen (dnotify_sigio (rv r) (out 0 r)) k)"

definition watch :: "int \<Rightarrow> int \<Rightarrow> int \<Rightarrow> string \<Rightarrow> int \<Rightarrow> int dnprog \<Rightarrow> int dnprog" where
  "watch dir fd op lbl events k =
     with_glob watchfd (\<lambda>w.
     at_label labels op lbl (sys (Unistd (Fcntl w F_NOTIFY [events]))) (\<lambda>r. out_of (Some dir) fd (rv r)) (\<lambda>_. k))"

text \<open>From label \<open>watch_attrib\<close> on; \<open>fd\<close> is closed on the way and then 0.\<close>

definition last_rounds :: "int \<Rightarrow> int \<Rightarrow> int dnprog" where
  "last_rounds dir fd =
     watch dir fd 9 ''watch_attrib'' DN_ATTRIB (
     at_label labels 10 ''do_attrib'' (sys (Unistd (Fchmod fd S_IRUSR))) (\<lambda>r. out_of (Some dir) fd (rv r)) (\<lambda>r.
     andthen (assert_that (rv r = 0)) (
     bind (sysv (Unistd (Close fd))) (\<lambda>c. andthen (assert_that (c = 0)) (
     dn_expect_events dir 0 11 ''DN_ATTRIB_sigio_wait'' (
     watch dir 0 12 ''watch_rename'' DN_RENAME (
     at_label labels 13 ''do_rename'' (sys (Libc ''rename'' [S ''./dwatch/create'', S ''./dwatch/rename'']))
       (\<lambda>r. out_of (Some dir) 0 (rv r)) (\<lambda>r.
     andthen (assert_that (rv r = 0)) (
     dn_expect_events dir 0 14 ''DN_RENAME_sigio_wait'' (
     watch dir 0 15 ''watch_delete'' (DN_DELETE OR DN_MULTISHOT) (
     at_label labels 16 ''do_delete'' (sys (Unistd (Unlink ''./dwatch/rename''))) (\<lambda>r. out_of (Some dir) 0 (rv r)) (\<lambda>r.
     andthen (assert_that (rv r = 0)) (
     dn_expect_events dir 0 17 ''DN_DELETE_sigio_wait'' (
     at_label labels 18 ''do_rmdir'' (sys (Libc ''rmdir'' [S ''./dwatch''])) (\<lambda>r. out_of (Some dir) 0 (rv r)) (\<lambda>r.
     andthen (assert_that (rv r = 0)) (out_of (Some dir) 0 0))))))))))))))))"

text \<open>
  From label \<open>watch_create\<close> on. The bytes read are compared as a C string with what was written;
  fewer bytes than asked for fail the assertion before.
\<close>

definition first_rounds :: "int \<Rightarrow> int dnprog" where
  "first_rounds dir =
     (let need = int (length writ_contents) + 1 in
      watch dir (-1) 0 ''watch_create'' DN_CREATE (
      at_label labels 1 ''do_create'' (sys (Unistd (Open ''./dwatch/create'' O_CREAT_EXCL_RDWR 0)))
        (\<lambda>r. out_of (Some dir) (-1) (rv r)) (\<lambda>r.
      let fd = rv r in
      with_glob watchfd (\<lambda>w.
      andthen (block [assert_that (fd \<noteq> w), assert_that (0 \<le> fd)]) (
      dn_expect_events dir fd 2 ''DN_CREATE_sigio_wait'' (
      watch dir fd 3 ''watch_modify'' DN_MODIFY (
      at_label labels 4 ''do_modify'' (sys (Unistd (Write fd (writ_contents @ [NUL])))) (\<lambda>r. out_of (Some dir) fd (rv r)) (\<lambda>r.
      andthen (assert_that (rv r = need)) (
      dn_expect_events dir fd 5 ''DN_MODIFY_sigio_wait'' (
      bind (sysv (Unistd (Lseek fd 0 0))) (\<lambda>l. andthen (assert_that (l = 0)) (
      watch dir fd 6 ''watch_access'' DN_ACCESS (
      at_label labels 7 ''do_access'' (sys (Unistd (Read fd (length writ_contents + 1)))) (\<lambda>r. out_of (Some dir) fd (rv r)) (\<lambda>r.
      andthen (block [assert_that (rv r = need), assert_that (cstr (rdat r) 0 = writ_contents)]) (
      dn_expect_events dir fd 8 ''DN_ACCESS_sigio_wait'' (
      last_rounds dir fd))))))))))))))))"

text \<open>Opening the directory and blocking SIGIO.\<close>

definition prepare :: "(int \<Rightarrow> int dnprog) \<Rightarrow> int dnprog" where
  "prepare k =
     bind (sysv (Unistd (Mkdir ''./dwatch'' S_IRWXU))) (\<lambda>r. andthen (eassert 162 (r = 0)) (
     bind (sysv (Dirent (Opendir ''./dwatch''))) (\<lambda>dir. andthen (eassert 164 (0 \<le> dir)) (
     bind (sysv (Libc ''dirfd'' [I dir])) (\<lambda>w. andthen (block [set_glob (\<lambda>g. g\<lparr>watchfd := w\<rparr>), eassert 166 (0 \<le> w)]) (
     bind (sysv (Libc ''sigemptyset'' [])) (\<lambda>r. andthen (eassert 170 (r = 0)) (
     bind (sysv (Libc ''sigaddset'' [I SIGIO])) (\<lambda>r. andthen (eassert 172 (r = 0)) (
     bind (sysv (Libc ''sigprocmask'' [I SIG_BLOCK, I SIGIO])) (\<lambda>r. andthen (eassert 174 (r = 0))
     (k dir))))))))))))"

definition main :: "string list \<Rightarrow> int dnprog" where
  "main args =
     andthen (block [parse_args args, emit (Unistd (Close 0))]) (
     bind (sysv (Stdio (Fopen LOG_FILE ''w+''))) (\<lambda>fp.
     if fp < 0 then andthen (emit (Stdio (Perror 144))) (exit_with 1)
     else andthen (modify (\<lambda>s. s\<lparr>logfp := Some fp\<rparr>)) (
     bind (sysv (Unistd (Dup2 fp 1))) (\<lambda>d.
     if d < 0 then andthen (fprintf 149 []) (out_of None (-1) 0)
     else bind (sysv (Unistd (Dup2 fp 2))) (\<lambda>d.
     if d < 0 then andthen (fprintf 153 []) (out_of None (-1) 0)
     else bind (sysv (Proc Getpid)) (\<lambda>pid.
     with_glob freezer (\<lambda>frz.
     bind (move_to_cgroup ''freezer'' frz pid) (\<lambda>m.
     if m = 0 then andthen (fprintf 157 []) (out_of None (-1) 0)
     else andthen (emit (Stdio (Printf 160 [S frz]))) (prepare first_rounds)))))))))"

section \<open>The kernel's side\<close>

text \<open>
  The part of the file system the test works on, and what fcntl(2) says of F_NOTIFY. Files are
  found by their path, and an open file has an inode and an offset. A directory stream has the
  descriptor \<open>dirfd\<close> gives for it. A watch belongs to a directory: it is set through a descriptor of
  the directory, an event on a file in the directory that it matches makes SIGIO pending, provided
  the signal is blocked, and removes the watch unless it has DN_MULTISHOT. A call succeeds when what
  its manual page asks for holds, resources permitting, and fails otherwise. The files of the
  checkpoint handshake are not part of the state.
\<close>

record dn =
  dirs :: "string \<Rightarrow> bool"
  files :: "(string \<times> nat) list"
  contents :: "nat \<Rightarrow> string"
  path_of :: "nat \<Rightarrow> string"
  used :: nat
  fds :: "int \<Rightarrow> (nat \<times> nat) option"
  streams :: "int \<Rightarrow> string option"
  dirfds :: "int \<Rightarrow> string option"
  watches :: "string \<Rightarrow> int"
  blocked :: bool
  sigio :: bool

definition dir_of :: "string \<Rightarrow> string" where
  "dir_of p = rev (tl (dropWhile (\<lambda>c. c \<noteq> CHR ''/'') (rev p)))"

definition trigger :: "int \<Rightarrow> string \<Rightarrow> dn \<Rightarrow> dn" where
  "trigger event d k =
     (if watches k d AND event = 0 then k
      else k\<lparr>sigio := blocked k,
             watches := (if watches k d AND DN_MULTISHOT = 0 then (watches k)(d := 0) else watches k)\<rparr>)"

definition unused :: "int \<Rightarrow> dn \<Rightarrow> bool" where
  "unused fd k \<longleftrightarrow> 0 \<le> fd \<and> fds k fd = None \<and> dirfds k fd = None"

text \<open>An answer with the state after it: the call succeeds with a result that is as it must be, or fails.\<close>

definition succeeds :: "bool \<Rightarrow> bool \<Rightarrow> resp \<Rightarrow> dn \<Rightarrow> dn \<Rightarrow> dn option" where
  "succeeds can result_ok r k' k =
     (if can then if result_ok then Some k' else None else if rv r = -1 then Some k else None)"

definition without :: "string \<Rightarrow> dn \<Rightarrow> (string \<times> nat) list" where
  "without p k = filter (\<lambda>(q, i). q \<noteq> p) (files k)"

definition dn_open :: "string \<Rightarrow> int \<Rightarrow> resp \<Rightarrow> dn \<Rightarrow> dn option" where
  "dn_open p flags r k =
     succeeds (flags = O_CREAT_EXCL_RDWR \<and> dirs k (dir_of p) \<and> \<not> dirs k p \<and> map_of (files k) p = None) (unused (rv r) k) r
       (trigger DN_CREATE (dir_of p)
         (k\<lparr>files := (p, used k) # files k, contents := (contents k)(used k := []), path_of := (path_of k)(used k := p),
            used := used k + 1, fds := (fds k)(rv r := Some (used k, 0))\<rparr>)) k"

text \<open>A call on an open file.\<close>

definition on_file :: "int \<Rightarrow> (nat \<Rightarrow> nat \<Rightarrow> bool) \<Rightarrow> (nat \<Rightarrow> nat \<Rightarrow> dn) \<Rightarrow> resp \<Rightarrow> dn \<Rightarrow> dn option" where
  "on_file fd result_ok next r k =
     (case fds k fd of
        None \<Rightarrow> if rv r = -1 then Some k else None
      | Some (i, off) \<Rightarrow> if result_ok i off then Some (next i off) else None)"

definition dn_write :: "int \<Rightarrow> string \<Rightarrow> resp \<Rightarrow> dn \<Rightarrow> dn option" where
  "dn_write fd str r k =
     on_file fd (\<lambda>i off. rv r = int (length str))
       (\<lambda>i off. (if str = [] then id else trigger DN_MODIFY (dir_of (path_of k i)))
          (k\<lparr>contents := (contents k)(i := take off (contents k i) @ str @ drop (off + length str) (contents k i)),
             fds := (fds k)(fd := Some (i, off + length str))\<rparr>)) r k"

definition dn_read :: "int \<Rightarrow> nat \<Rightarrow> resp \<Rightarrow> dn \<Rightarrow> dn option" where
  "dn_read fd n r k =
     on_file fd (\<lambda>i off. rdat r = take n (drop off (contents k i)) \<and> rv r = int (length (rdat r)))
       (\<lambda>i off. (if rdat r = [] then id else trigger DN_ACCESS (dir_of (path_of k i)))
          (k\<lparr>fds := (fds k)(fd := Some (i, off + length (rdat r)))\<rparr>)) r k"

definition dn_lseek :: "int \<Rightarrow> int \<Rightarrow> resp \<Rightarrow> dn \<Rightarrow> dn option" where
  "dn_lseek fd pos r k = on_file fd (\<lambda>i off. rv r = pos) (\<lambda>i off. k\<lparr>fds := (fds k)(fd := Some (i, nat pos))\<rparr>) r k"

definition dn_fchmod :: "int \<Rightarrow> resp \<Rightarrow> dn \<Rightarrow> dn option" where
  "dn_fchmod fd r k = on_file fd (\<lambda>i off. rv r = 0) (\<lambda>i off. trigger DN_ATTRIB (dir_of (path_of k i)) k) r k"

definition dn_close :: "int \<Rightarrow> dn \<Rightarrow> dn" where
  "dn_close fd k = k\<lparr>fds := (fds k)(fd := None), dirfds := (dirfds k)(fd := None)\<rparr>"

definition dn_unlink :: "string \<Rightarrow> resp \<Rightarrow> dn \<Rightarrow> dn option" where
  "dn_unlink p r k =
     succeeds (map_of (files k) p \<noteq> None) (rv r = 0) r
       (trigger DN_DELETE (dir_of p) (k\<lparr>files := without p k\<rparr>)) k"

text \<open>Renaming within a directory is one event, moving a file to another directory is two.\<close>

definition dn_rename :: "string \<Rightarrow> string \<Rightarrow> resp \<Rightarrow> dn \<Rightarrow> dn option" where
  "dn_rename p q r k =
     succeeds (map_of (files k) p \<noteq> None \<and> dirs k (dir_of q) \<and> \<not> dirs k q) (rv r = 0) r
       ((if dir_of p = dir_of q then trigger DN_RENAME (dir_of p)
         else trigger DN_CREATE (dir_of q) \<circ> trigger DN_DELETE (dir_of p))
         (k\<lparr>files := (q, the (map_of (files k) p)) # filter (\<lambda>(x, i). x \<noteq> q) (without p k),
            path_of := (path_of k)(the (map_of (files k) p) := q)\<rparr>)) k"

definition dn_rmdir :: "string \<Rightarrow> resp \<Rightarrow> dn \<Rightarrow> dn option" where
  "dn_rmdir p r k =
     succeeds (dirs k p \<and> (\<forall>(q, i) \<in> set (files k). dir_of q \<noteq> p)) (rv r = 0) r
       (trigger DN_DELETE (dir_of p) (k\<lparr>dirs := (dirs k)(p := False)\<rparr>)) k"

definition dn_mkdir :: "string \<Rightarrow> resp \<Rightarrow> dn \<Rightarrow> dn option" where
  "dn_mkdir p r k =
     succeeds (dirs k (dir_of p) \<and> \<not> dirs k p \<and> map_of (files k) p = None) (rv r = 0) r
       (trigger DN_CREATE (dir_of p) (k\<lparr>dirs := (dirs k)(p := True), watches := (watches k)(p := 0)\<rparr>)) k"

definition dn_notify :: "int \<Rightarrow> int \<Rightarrow> resp \<Rightarrow> dn \<Rightarrow> dn option" where
  "dn_notify fd events r k =
     (case dirfds k fd of
        None \<Rightarrow> if rv r = -1 then Some k else None
      | Some d \<Rightarrow> if rv r = 0 then Some (k\<lparr>watches := (watches k)(d := watches k d OR events)\<rparr>) else None)"

definition dn_libc :: "string \<Rightarrow> arg list \<Rightarrow> resp \<Rightarrow> dn \<Rightarrow> dn option" where
  "dn_libc f args r k =
     (case args of
        [S p, S q] \<Rightarrow> if f = ''rename'' then dn_rename p q r k else Some k
      | [S p] \<Rightarrow> if f = ''rmdir'' then dn_rmdir p r k else Some k
      | [I d] \<Rightarrow>
          if f = ''dirfd'' then
            case streams k d of None \<Rightarrow> if rv r = -1 then Some k else None
            | Some p \<Rightarrow> if unused (rv r) k then Some (k\<lparr>dirfds := (dirfds k)(rv r := Some p)\<rparr>) else None
          else if rv r = 0 then Some k else None
      | [I x, I y] \<Rightarrow>
          if f = ''sigtimedwait'' then
            if sigio k then if rv r = SIGIO \<and> out 0 r = SIGIO then Some (k\<lparr>sigio := False\<rparr>) else None
            else if rv r = -1 then Some k else None
          else if f = ''sigprocmask'' then
            if rv r = 0 then Some (k\<lparr>blocked := (blocked k \<or> x = SIG_BLOCK \<and> y = SIGIO)\<rparr>) else None
          else Some k
      | _ \<Rightarrow> if rv r = 0 then Some k else None)"

definition dn_answers :: "call \<Rightarrow> resp \<Rightarrow> dn \<Rightarrow> dn option" where
  "dn_answers c r k =
     (case c of
        Unistd u \<Rightarrow>
          (case u of
             Access p \<Rightarrow> if rv r = 0 \<or> er r = ENOENT then Some k else None
           | Creat p m \<Rightarrow> if unused (rv r) k then Some k else None
           | Fcntl fd cmd args \<Rightarrow> if cmd = F_NOTIFY then dn_notify fd (hd args) r k else Some k
           | Open p flags m \<Rightarrow> dn_open p flags r k
           | Write fd str \<Rightarrow> dn_write fd str r k
           | Lseek fd off w \<Rightarrow> dn_lseek fd off r k
           | Read fd n \<Rightarrow> dn_read fd n r k
           | Fchmod fd m \<Rightarrow> dn_fchmod fd r k
           | Close fd \<Rightarrow> on_file fd (\<lambda>i off. rv r = 0) (\<lambda>i off. dn_close fd k) r k
           | Unlink p \<Rightarrow> dn_unlink p r k
           | Mkdir p m \<Rightarrow> dn_mkdir p r k
           | _ \<Rightarrow> Some k)
      | Dirent (Opendir p) \<Rightarrow>
          if dirs k p then if 0 \<le> rv r \<and> streams k (rv r) = None then Some (k\<lparr>streams := (streams k)(rv r := Some p)\<rparr>) else None
          else if rv r < 0 then Some k else None
      | Libc f args \<Rightarrow> dn_libc f args r k
      | _ \<Rightarrow> Some k)"

definition dn_effect :: "call \<Rightarrow> dn \<Rightarrow> dn" where
  "dn_effect c k =
     (case c of
        Unistd (Close fd) \<Rightarrow> dn_close fd k
      | Unistd (Unlink p) \<Rightarrow> if p = CKPT_DONE then k else k\<lparr>files := without p k\<rparr>
      | _ \<Rightarrow> k)"

definition dn_kernel :: "dn kernel" where
  "dn_kernel = \<lparr>answers = dn_answers, effect = dn_effect\<rparr>"

lemma dn_kernel_sel [simp]: "answers dn_kernel = dn_answers" "effect dn_kernel = dn_effect"
  by (simp_all add: dn_kernel_def)

lemma close_unused [simp]: "unused fd k \<Longrightarrow> dn_close fd k = k"
  by (auto simp: unused_def dn_close_def fun_upd_idem)

lemma unused_nonneg: "unused fd k \<Longrightarrow> 0 \<le> fd"
  by (simp add: unused_def)

interpretation dnh: handshake dn_kernel
  by unfold_locales (auto simp: dn_answers_def dn_effect_def unused_nonneg split: if_splits)

section \<open>The test passes\<close>

lemma dn_labels_length: "length labels = 19"
  by (simp add: labels_def)

lemma appending_assert [append_intros]: "appending (assert_that c)"
  unfolding assert_that_def by (intro append_intros)

lemma appending_eassert [append_intros]: "appending (eassert n c)"
  unfolding eassert_def by (intro append_intros)

lemma appending_dnotify_sigio [append_intros]: "appending (dnotify_sigio a b)"
  unfolding dnotify_sigio_def by (intro append_intros)

lemma appending_dn_out_of [append_intros]: "appending (out_of dir fd ret)"
  unfolding out_of_def by (auto intro!: append_intros split: option.split)

lemma appending_expect [append_intros]: "appending k \<Longrightarrow> appending (dn_expect_events dir fd op lbl k)"
  unfolding dn_expect_events_def by (intro append_intros)

lemma appending_watch [append_intros]: "appending k \<Longrightarrow> appending (watch dir fd op lbl events k)"
  unfolding watch_def by (intro append_intros)

lemma appending_last_rounds [append_intros]: "appending (last_rounds dir fd)"
  unfolding last_rounds_def by (intro append_intros)

lemma appending_first_rounds [append_intros]: "appending (first_rounds dir)"
  unfolding first_rounds_def Let_def by (intro append_intros)

lemma wp_assert: "c \<Longrightarrow> wp K (f ()) Q E k s \<Longrightarrow> wp K (bind (assert_that c) f) Q E k s"
  by (simp add: assert_that_def wp_bind_return)

lemma wp_eassert: "c \<Longrightarrow> wp K (f ()) Q E k s \<Longrightarrow> wp K (bind (eassert n c) f) Q E k s"
  by (simp add: eassert_def assert_that_def andthen_def wp_bind_return bind_return_fun)

lemma wp_dn_out: "wp dn_kernel (out_of (Some d) fd 0) Q (\<lambda>c _. c = 0) k s" if "logfp s = Some lf"
  using that unfolding out_of_def by (intro wp_rules append_intros) (simp_all add: wp_rules append_intros)

text \<open>
  Between two calls of the test: its directory is watched for the events \<open>m\<close> through the descriptor
  \<open>w\<close>, SIGIO is pending or not, the directory has the entries \<open>ns\<close>, and the file in it is open with
  the offset and the contents \<open>fo\<close> says.
\<close>

definition DWATCH :: string where "DWATCH = ''./dwatch''"

definition is_open :: "int \<times> nat \<times> nat \<times> string \<Rightarrow> dn \<Rightarrow> bool" where
  "is_open f k \<longleftrightarrow> (case f of (fd, i, off, c) \<Rightarrow>
     fds k fd = Some (i, off) \<and> contents k i = c \<and> dir_of (path_of k i) = DWATCH)"

definition entries :: "dn \<Rightarrow> (string \<times> nat) list" where
  "entries k = filter (\<lambda>(q, i). dir_of q = DWATCH) (files k)"

definition dn_at :: "int \<Rightarrow> int \<Rightarrow> bool \<Rightarrow> (string \<times> nat) list \<Rightarrow> (int \<times> nat \<times> nat \<times> string) option \<Rightarrow> dn \<Rightarrow> bool" where
  "dn_at w m sg ns fo k \<longleftrightarrow>
     dirfds k w = Some DWATCH \<and> dirs k DWATCH \<and> \<not> dirs k ''./dwatch/create'' \<and> \<not> dirs k ''./dwatch/rename'' \<and>
     blocked k \<and> watches k DWATCH = m \<and> sigio k = sg \<and> entries k = ns \<and>
     (\<forall>f. fo = Some f \<longrightarrow> is_open f k)"

definition dn_state :: "int \<Rightarrow> int \<Rightarrow> int \<Rightarrow> bool \<Rightarrow> (string \<times> nat) list \<Rightarrow> (int \<times> nat \<times> nat \<times> string) option \<Rightarrow>
    dn \<Rightarrow> dn_globals proc \<Rightarrow> bool" where
  "dn_state lf w m sg ns fo k s \<longleftrightarrow> logfp s = Some lf \<and> watchfd (glob s) = w \<and> dn_at w m sg ns fo k"

lemma dir_of_simps [simp]:
  "dir_of ''./dwatch/create'' = DWATCH" "dir_of ''./dwatch/rename'' = DWATCH" "dir_of DWATCH = ''.''"
  by (simp_all add: dir_of_def DWATCH_def)

lemma DWATCH_not_dot [simp]: "DWATCH \<noteq> ''.''" "''.'' \<noteq> DWATCH"
  by (simp_all add: DWATCH_def)

lemma dn_state_adv [simp]: "dn_state lf w m sg ns fo k (adv s es rs e) = dn_state lf w m sg ns fo k s"
  by (simp add: dn_state_def)

lemma map_of_entries: "dir_of p = DWATCH \<Longrightarrow> map_of (files k) p = map_of (entries k) p"
proof -
  have "dir_of p = DWATCH \<Longrightarrow> map_of xs p = map_of (filter (\<lambda>(q, i). dir_of q = DWATCH) xs) p" for xs :: "(string \<times> nat) list"
    by (induction xs) auto
  then show "dir_of p = DWATCH \<Longrightarrow> map_of (files k) p = map_of (entries k) p" by (simp add: entries_def)
qed

text \<open>An event in the directory, and one elsewhere.\<close>

lemma trigger_sel [simp]:
  "dirs (trigger e d k) = dirs k" "files (trigger e d k) = files k" "contents (trigger e d k) = contents k"
  "path_of (trigger e d k) = path_of k" "fds (trigger e d k) = fds k" "dirfds (trigger e d k) = dirfds k"
  "streams (trigger e d k) = streams k" "blocked (trigger e d k) = blocked k" "entries (trigger e d k) = entries k"
  "is_open f (trigger e d k) = is_open f k"
  by (simp_all add: trigger_def entries_def is_open_def)

lemma trigger_watch:
  "watches k d AND e \<noteq> 0 \<Longrightarrow> watches k d AND DN_MULTISHOT = 0 \<Longrightarrow> blocked k \<Longrightarrow>
    watches (trigger e d k) d = 0 \<and> sigio (trigger e d k)"
  "watches k d AND e \<noteq> 0 \<Longrightarrow> watches k d AND DN_MULTISHOT \<noteq> 0 \<Longrightarrow> blocked k \<Longrightarrow>
    watches (trigger e d k) d = watches k d \<and> sigio (trigger e d k)"
  "d' \<noteq> d \<Longrightarrow> watches (trigger e d' k) d = watches k d"
  by (simp_all add: trigger_def)

lemmas dn_events = DN_ACCESS_def DN_MODIFY_def DN_CREATE_def DN_DELETE_def DN_RENAME_def DN_ATTRIB_def DN_MULTISHOT_def

lemmas dn_step_defs = dn_answers_def dn_state_def dn_at_def succeeds_def on_file_def

section \<open>One call at a time\<close>

lemma wp_dn_label:
  assumes "dn_state lf w m sg ns fo k s" and "0 \<le> op" and "op < 19"
    and "\<And>r. appending (out_to r)" and "\<And>r. appending (rest r)"
    and ok: "\<And>r k'. dn_answers c r k = Some k' \<Longrightarrow> dn_at w m sg ns fo k \<Longrightarrow> 0 \<le> rv r \<and> P r \<and> dn_at w m' sg' (ns' r) (fo' r) k'"
    and "\<And>r k' u. P r \<Longrightarrow> dn_state lf w m' sg' (ns' r) (fo' r) k' u \<Longrightarrow> wp dn_kernel (rest r) Q E k' u"
  shows "wp dn_kernel (at_label labels op lbl (sys c) out_to rest) Q E k s"
proof (rule dnh.wp_label_sys [where lf = lf])
  fix r k' and u :: "dn_globals proc"
  assume "answers dn_kernel c r k = Some k'" and u: "logfp u = Some lf" "glob u = glob s"
  with ok [of r k'] assms(1) have r: "0 \<le> rv r" "P r" "dn_at w m' sg' (ns' r) (fo' r) k'" by (auto simp: dn_state_def)
  moreover have "dn_state lf w m' sg' (ns' r) (fo' r) k' u" using assms(1) r(3) u by (simp add: dn_state_def)
  ultimately show "wp dn_kernel (if rv r < 0 then out_to r else rest r) Q E k' u" using assms(7) by simp
qed (use assms in \<open>auto simp: dn_labels_length dn_state_def\<close>)

lemma watch_step:
  assumes "dn_state lf w m sg ns fo k s" and "0 \<le> op" and "op < 19" and "appending p"
    and "\<And>k' u. dn_state lf w (m OR events) sg ns fo k' u \<Longrightarrow> wp dn_kernel p Q E k' u"
  shows "wp dn_kernel (watch dir fd op lbl events p) Q E k s"
  unfolding watch_def
proof (rule wp_with_glob_last, rule wp_dn_label [where P = "\<lambda>_. True" and ns' = "\<lambda>_. ns" and fo' = "\<lambda>_. fo", OF assms(1-3)])
  fix r k'
  assume "dn_answers (Unistd (Fcntl (watchfd (glob s)) F_NOTIFY [events])) r k = Some k'" and "dn_at w m sg ns fo k"
  then show "0 \<le> rv r \<and> True \<and> dn_at w (m OR events) sg ns fo k'"
    using assms(1) by (auto simp: dn_step_defs dn_notify_def entries_def is_open_def split: if_splits)
qed (use assms in \<open>auto intro: append_intros\<close>)

lemma expect_step:
  assumes "dn_state lf w m True ns fo k s" and "0 \<le> op" and "op < 19" and "appending p"
    and "\<And>k' u. dn_state lf w m False ns fo k' u \<Longrightarrow> wp dn_kernel p Q E k' u"
  shows "wp dn_kernel (dn_expect_events dir fd op lbl p) Q E k s"
  unfolding dn_expect_events_def dnotify_sigio_def
proof (rule wp_dn_label [where P = "\<lambda>r. rv r = SIGIO \<and> out 0 r = SIGIO" and ns' = "\<lambda>_. ns" and fo' = "\<lambda>_. fo", OF assms(1-3)])
  fix r k'
  assume "dn_answers (Libc ''sigtimedwait'' [I SIGIO, I 1]) r k = Some k'" and "dn_at w m True ns fo k"
  then show "0 \<le> rv r \<and> (rv r = SIGIO \<and> out 0 r = SIGIO) \<and> dn_at w m False ns fo k'"
    by (auto simp: dn_step_defs dn_libc_def entries_def is_open_def SIGIO_def split: if_splits)
qed (use assms in \<open>auto intro!: append_intros wp_andthen wp_andthen_assoc wp_bind_return wp_assert\<close>)

lemma entries_filter: "entries (k\<lparr>files := filter P (files k)\<rparr>) = filter P (entries k)"
  by (simp add: entries_def conj_commute)

lemma open_step:
  assumes "dn_state lf w m sg [] None k s" and "0 \<le> op" and "op < 19"
    and "\<And>r. appending (out_to r)" and "\<And>r. appending (rest r)"
    and m: "m AND DN_CREATE \<noteq> 0" "m AND DN_MULTISHOT = 0"
    and "\<And>r i k' u. 0 \<le> rv r \<Longrightarrow> rv r \<noteq> w \<Longrightarrow>
      dn_state lf w 0 True [(''./dwatch/create'', i)] (Some (rv r, i, 0, [])) k' u \<Longrightarrow> wp dn_kernel (rest r) Q E k' u"
  shows "wp dn_kernel (at_label labels op lbl (sys (Unistd (Open ''./dwatch/create'' O_CREAT_EXCL_RDWR 0))) out_to rest) Q E k s"
proof (rule wp_dn_label [where P = "\<lambda>r. 0 \<le> rv r \<and> rv r \<noteq> w" and ns' = "\<lambda>_. [(''./dwatch/create'', used k)]"
      and fo' = "\<lambda>r. Some (rv r, used k, 0, [])", OF assms(1-5)])
  fix r k'
  assume "dn_answers (Unistd (Open ''./dwatch/create'' O_CREAT_EXCL_RDWR 0)) r k = Some k'" and "dn_at w m sg [] None k"
  then show "0 \<le> rv r \<and> (0 \<le> rv r \<and> rv r \<noteq> w) \<and> dn_at w 0 True [(''./dwatch/create'', used k)] (Some (rv r, used k, 0, [])) k'"
    using m map_of_entries [of "''./dwatch/create''" k]
    by (auto simp: dn_step_defs dn_open_def unused_def trigger_watch is_open_def entries_def split: if_splits)
qed (use assms(8) in auto)

lemma write_step:
  assumes "dn_state lf w m sg ns (Some (fd, i, 0, [])) k s" and "0 \<le> op" and "op < 19"
    and "\<And>r. appending (out_to r)" and "\<And>r. appending (rest r)"
    and m: "m AND DN_MODIFY \<noteq> 0" "m AND DN_MULTISHOT = 0" "str \<noteq> []"
    and "\<And>r k' u. rv r = int (length str) \<Longrightarrow>
      dn_state lf w 0 True ns (Some (fd, i, length str, str)) k' u \<Longrightarrow> wp dn_kernel (rest r) Q E k' u"
  shows "wp dn_kernel (at_label labels op lbl (sys (Unistd (Write fd str))) out_to rest) Q E k s"
proof (rule wp_dn_label [where P = "\<lambda>r. rv r = int (length str)" and ns' = "\<lambda>_. ns"
      and fo' = "\<lambda>r. Some (fd, i, length str, str)", OF assms(1-5)])
  fix r k'
  assume "dn_answers (Unistd (Write fd str)) r k = Some k'" and "dn_at w m sg ns (Some (fd, i, 0, [])) k"
  then show "0 \<le> rv r \<and> rv r = int (length str) \<and> dn_at w 0 True ns (Some (fd, i, length str, str)) k'"
    using m by (auto simp: dn_step_defs dn_write_def trigger_watch is_open_def entries_def split: if_splits)
qed (use assms(9) in auto)

lemma read_step:
  assumes "dn_state lf w m sg ns (Some (fd, i, off, c)) k s" and "0 \<le> op" and "op < 19"
    and "\<And>r. appending (out_to r)" and "\<And>r. appending (rest r)"
    and m: "m AND DN_ACCESS \<noteq> 0" "m AND DN_MULTISHOT = 0" "take n (drop off c) \<noteq> []"
    and "\<And>r k' u. rdat r = take n (drop off c) \<Longrightarrow> rv r = int (length (rdat r)) \<Longrightarrow>
      dn_state lf w 0 True ns (Some (fd, i, off + length (rdat r), c)) k' u \<Longrightarrow> wp dn_kernel (rest r) Q E k' u"
  shows "wp dn_kernel (at_label labels op lbl (sys (Unistd (Read fd n))) out_to rest) Q E k s"
proof (rule wp_dn_label [where P = "\<lambda>r. rdat r = take n (drop off c) \<and> rv r = int (length (rdat r))" and ns' = "\<lambda>_. ns"
      and fo' = "\<lambda>r. Some (fd, i, off + length (rdat r), c)", OF assms(1-5)])
  fix r k'
  assume "dn_answers (Unistd (Read fd n)) r k = Some k'" and "dn_at w m sg ns (Some (fd, i, off, c)) k"
  then show "0 \<le> rv r \<and> (rdat r = take n (drop off c) \<and> rv r = int (length (rdat r))) \<and>
      dn_at w 0 True ns (Some (fd, i, off + length (rdat r), c)) k'"
    using m by (auto simp: dn_step_defs dn_read_def trigger_watch is_open_def entries_def split: if_splits)
qed (use assms(9) in auto)

lemma fchmod_step:
  assumes "dn_state lf w m sg ns (Some f) k s" and "fst f = fd" and "0 \<le> op" and "op < 19"
    and "\<And>r. appending (out_to r)" and "\<And>r. appending (rest r)"
    and m: "m AND DN_ATTRIB \<noteq> 0" "m AND DN_MULTISHOT = 0"
    and "\<And>r k' u. rv r = 0 \<Longrightarrow> dn_state lf w 0 True ns (Some f) k' u \<Longrightarrow> wp dn_kernel (rest r) Q E k' u"
  shows "wp dn_kernel (at_label labels op lbl (sys (Unistd (Fchmod fd mode))) out_to rest) Q E k s"
proof (rule wp_dn_label [where P = "\<lambda>r. rv r = 0" and ns' = "\<lambda>_. ns" and fo' = "\<lambda>r. Some f", OF assms(1,3-6)])
  fix r k'
  assume "dn_answers (Unistd (Fchmod fd mode)) r k = Some k'" and "dn_at w m sg ns (Some f) k"
  then show "0 \<le> rv r \<and> rv r = 0 \<and> dn_at w 0 True ns (Some f) k'"
    using m assms(2) by (auto simp: dn_step_defs dn_fchmod_def trigger_watch is_open_def split: if_splits)
qed (use assms(9) in auto)

text \<open>The two calls outside a label.\<close>

lemma lseek_step:
  assumes "dn_state lf w m sg ns (Some (fd, i, off, c)) k s" and "\<And>v. appending (f v)"
    and "\<And>k' u. dn_state lf w m sg ns (Some (fd, i, 0, c)) k' u \<Longrightarrow> wp dn_kernel (f 0) Q E k' u"
  shows "wp dn_kernel (bind (sysv (Unistd (Lseek fd 0 0))) f) Q E k s"
proof (rule wp_sysv)
  fix r rs k'
  assume "answers dn_kernel (Unistd (Lseek fd 0 0)) r k = Some k'"
  with assms(1) have "rv r = 0" "dn_state lf w m sg ns (Some (fd, i, 0, c)) k' (adv s [Got (Unistd (Lseek fd 0 0)) r] rs (er r))"
    by (auto simp: dn_step_defs dn_lseek_def is_open_def entries_def split: if_splits)
  then show "wp dn_kernel (f (rv r)) Q E k' (adv s [Got (Unistd (Lseek fd 0 0)) r] rs (er r))" using assms(3) by simp
qed (rule assms(2))

lemma close_step:
  assumes "dn_state lf w m sg ns (Some f) k s" and "fst f = fd" and "fd \<noteq> w" and "\<And>v. appending (p v)"
    and "\<And>k' u. dn_state lf w m sg ns None k' u \<Longrightarrow> wp dn_kernel (p 0) Q E k' u"
  shows "wp dn_kernel (bind (sysv (Unistd (Close fd))) p) Q E k s"
proof (rule wp_sysv)
  fix r rs k'
  assume "answers dn_kernel (Unistd (Close fd)) r k = Some k'"
  with assms(1-3) have "rv r = 0" "dn_state lf w m sg ns None k' (adv s [Got (Unistd (Close fd)) r] rs (er r))"
    by (auto simp: dn_step_defs dn_close_def is_open_def entries_def split: if_splits)
  then show "wp dn_kernel (p (rv r)) Q E k' (adv s [Got (Unistd (Close fd)) r] rs (er r))" using assms(5) by simp
qed (rule assms(4))

lemma rename_step:
  assumes "dn_state lf w m sg [(''./dwatch/create'', i)] None k s" and "0 \<le> op" and "op < 19"
    and "\<And>r. appending (out_to r)" and "\<And>r. appending (rest r)"
    and m: "m AND DN_RENAME \<noteq> 0" "m AND DN_MULTISHOT = 0"
    and "\<And>r k' u. rv r = 0 \<Longrightarrow> dn_state lf w 0 True [(''./dwatch/rename'', i)] None k' u \<Longrightarrow> wp dn_kernel (rest r) Q E k' u"
  shows "wp dn_kernel (at_label labels op lbl (sys (Libc ''rename'' [S ''./dwatch/create'', S ''./dwatch/rename''])) out_to rest) Q E k s"
proof (rule wp_dn_label [where P = "\<lambda>r. rv r = 0" and ns' = "\<lambda>_. [(''./dwatch/rename'', i)]" and fo' = "\<lambda>r. None", OF assms(1-5)])
  fix r k'
  assume "dn_answers (Libc ''rename'' [S ''./dwatch/create'', S ''./dwatch/rename'']) r k = Some k'"
    and a: "dn_at w m sg [(''./dwatch/create'', i)] None k"
  moreover have "map_of (files k) ''./dwatch/create'' = Some i"
    using a map_of_entries [of "''./dwatch/create''" k] by (simp add: dn_at_def)
  moreover have "filter (\<lambda>(q, j). dir_of q = DWATCH) (filter (\<lambda>(x, j). x \<noteq> ''./dwatch/rename'') (without ''./dwatch/create'' k)) = []"
  proof -
    have "entries k = [(''./dwatch/create'', i)]" using a by (simp add: dn_at_def)
    then have "filter (\<lambda>(q, j). q \<noteq> ''./dwatch/create'') (entries k) = []" by simp
    then show ?thesis by (auto simp: entries_def without_def filter_empty_conv)
  qed
  ultimately show "0 \<le> rv r \<and> rv r = 0 \<and> dn_at w 0 True [(''./dwatch/rename'', i)] None k'"
    using m by (auto simp: dn_step_defs dn_libc_def dn_rename_def trigger_watch entries_def split: if_splits)
qed (use assms(8) in auto)

lemma unlink_step:
  assumes "dn_state lf w m sg [(''./dwatch/rename'', i)] None k s" and "0 \<le> op" and "op < 19"
    and "\<And>r. appending (out_to r)" and "\<And>r. appending (rest r)"
    and m: "m AND DN_DELETE \<noteq> 0" "m AND DN_MULTISHOT \<noteq> 0"
    and "\<And>r k' u. rv r = 0 \<Longrightarrow> dn_state lf w m True [] None k' u \<Longrightarrow> wp dn_kernel (rest r) Q E k' u"
  shows "wp dn_kernel (at_label labels op lbl (sys (Unistd (Unlink ''./dwatch/rename''))) out_to rest) Q E k s"
proof (rule wp_dn_label [where P = "\<lambda>r. rv r = 0" and ns' = "\<lambda>_. []" and fo' = "\<lambda>r. None", OF assms(1-5)])
  fix r k'
  assume "dn_answers (Unistd (Unlink ''./dwatch/rename'')) r k = Some k'" and a: "dn_at w m sg [(''./dwatch/rename'', i)] None k"
  moreover have "map_of (files k) ''./dwatch/rename'' = Some i"
    using a map_of_entries [of "''./dwatch/rename''" k] by (simp add: dn_at_def)
  moreover have "entries (k\<lparr>files := without ''./dwatch/rename'' k\<rparr>) = []"
    using a by (simp add: without_def entries_filter dn_at_def)
  ultimately show "0 \<le> rv r \<and> rv r = 0 \<and> dn_at w m True [] None k'"
    using m by (auto simp: dn_step_defs dn_unlink_def trigger_watch split: if_splits)
qed (use assms(8) in auto)

lemma rmdir_step:
  assumes "dn_state lf w m sg [] None k s" and "0 \<le> op" and "op < 19"
    and "\<And>r. appending (out_to r)" and "\<And>r. appending (rest r)"
    and "\<And>r k' u. rv r = 0 \<Longrightarrow> logfp u = Some lf \<Longrightarrow> wp dn_kernel (rest r) Q E k' u"
  shows "wp dn_kernel (at_label labels op lbl (sys (Libc ''rmdir'' [S ''./dwatch''])) out_to rest) Q E k s"
proof (rule dnh.wp_label_sys [where lf = lf])
  fix r k' and u :: "dn_globals proc"
  assume a: "answers dn_kernel (Libc ''rmdir'' [S ''./dwatch'']) r k = Some k'" and u: "logfp u = Some lf" "glob u = glob s"
  have "\<forall>(q, i) \<in> set (files k). dir_of q \<noteq> DWATCH" and "dirs k DWATCH"
    using assms(1) by (auto simp: dn_state_def dn_at_def entries_def filter_empty_conv)
  with a have "rv r = 0" by (auto simp: dn_answers_def dn_libc_def dn_rmdir_def succeeds_def DWATCH_def split: if_splits)
  with assms(6) u show "wp dn_kernel (if rv r < 0 then out_to r else rest r) Q E k' u" by simp
qed (use assms in \<open>auto simp: dn_labels_length dn_state_def\<close>)

section \<open>All rounds\<close>

lemma last_rounds_wp:
  assumes "dn_state lf w 0 False [(''./dwatch/create'', i)] (Some (fd, i, off, c)) k s" and "fd \<noteq> w"
  shows "wp dn_kernel (last_rounds dir fd) (\<lambda>_ _ _. False) (\<lambda>c _. c = 0) k s"
  using assms(1) unfolding last_rounds_def
  apply -
  apply (erule watch_step, simp_all add: append_intros)
  apply (erule fchmod_step, simp_all add: append_intros dn_events)
  apply (rule wp_andthen, rule wp_assert, simp)
  apply (erule close_step, simp_all add: append_intros assms(2))
  apply (rule wp_andthen, rule wp_assert, simp)
  apply (erule expect_step, simp_all add: append_intros)
  apply (erule watch_step, simp_all add: append_intros)
  apply (erule rename_step, simp_all add: append_intros dn_events)
  apply (rule wp_andthen, rule wp_assert, simp)
  apply (erule expect_step, simp_all add: append_intros)
  apply (erule watch_step, simp_all add: append_intros)
  apply (erule unlink_step, simp_all add: append_intros dn_events)
  apply (rule wp_andthen, rule wp_assert, simp)
  apply (erule expect_step, simp_all add: append_intros)
  apply (erule rmdir_step, simp_all add: append_intros)
  apply (rule wp_andthen, rule wp_assert, simp)
  apply (erule wp_dn_out)
  done

lemma cstr_written: "cstr (writ_contents @ [NUL]) 0 = writ_contents"
  by (simp add: writ_contents_def cstr_def NUL_def)

lemma first_rounds_wp:
  assumes "dn_state lf w 0 sg [] None k s"
  shows "wp dn_kernel (first_rounds dir) (\<lambda>_ _ _. False) (\<lambda>c _. c = 0) k s"
  using assms unfolding first_rounds_def Let_def
  apply -
  apply (erule watch_step, simp_all add: append_intros)
  apply (erule open_step, simp_all add: append_intros dn_events)
  apply (rule wp_with_glob_last, rule wp_andthen)
  apply (rule wp_andthen_assoc, rule wp_assert, simp add: dn_state_def)
  apply (rule wp_andthen_assoc, rule wp_assert, simp, rule wp_bind_return)
  apply (erule expect_step, simp_all add: append_intros)
  apply (erule watch_step, simp_all add: append_intros)
  apply (erule write_step, simp_all add: append_intros dn_events)
  apply (rule wp_andthen, rule wp_assert, simp)
  apply (erule expect_step, simp_all add: append_intros)
  apply (erule lseek_step, simp_all add: append_intros)
  apply (rule wp_andthen, rule wp_assert, simp)
  apply (erule watch_step, simp_all add: append_intros)
  apply (erule read_step, simp_all add: append_intros dn_events)
  apply (rule wp_andthen)
  apply (rule wp_andthen_assoc, rule wp_assert, simp)
  apply (rule wp_andthen_assoc, rule wp_assert, simp add: cstr_written, rule wp_bind_return)
  apply (erule expect_step, simp_all add: append_intros)
  apply (erule last_rounds_wp, assumption)
  done

text \<open>Nothing is called ./dwatch yet.\<close>

definition no_dwatch :: "dn \<Rightarrow> bool" where
  "no_dwatch k \<longleftrightarrow> dirs k ''.'' \<and> (\<forall>q. dirs k q \<longrightarrow> q \<noteq> ''./dwatch'' \<and> dir_of q \<noteq> ''./dwatch'') \<and>
     (\<forall>(q, i) \<in> set (files k). q \<noteq> ''./dwatch'' \<and> dir_of q \<noteq> ''./dwatch'')"

text \<open>The new directory: without entries and without a watch.\<close>

definition empty_dwatch :: "dn \<Rightarrow> bool" where
  "empty_dwatch k \<longleftrightarrow> dirs k DWATCH \<and> \<not> dirs k ''./dwatch/create'' \<and> \<not> dirs k ''./dwatch/rename'' \<and>
     watches k DWATCH = 0 \<and> entries k = []"

lemma empty_dwatch_upd [simp]:
  "empty_dwatch (k\<lparr>streams := x\<rparr>) = empty_dwatch k" "empty_dwatch (k\<lparr>dirfds := y\<rparr>) = empty_dwatch k"
  "empty_dwatch (k\<lparr>blocked := z\<rparr>) = empty_dwatch k"
  by (simp_all add: empty_dwatch_def entries_def)

lemma mkdir_dwatch:
  assumes "dn_answers (Unistd (Mkdir ''./dwatch'' m)) r k = Some k'" and "no_dwatch k"
  shows "rv r = 0 \<and> empty_dwatch k'"
proof -
  have d: "dirs k ''.''" "\<not> dirs k DWATCH" "\<not> dirs k ''./dwatch/create''" "\<not> dirs k ''./dwatch/rename''"
    using assms(2) by (auto simp: no_dwatch_def DWATCH_def dir_of_def)
  have "map_of (files k) DWATCH = None"
    using assms(2) by (auto simp: no_dwatch_def DWATCH_def map_of_eq_None_iff)
  moreover have "entries k = []" using assms(2) by (auto simp: no_dwatch_def entries_def DWATCH_def filter_empty_conv)
  moreover have "''./dwatch'' = DWATCH" "DWATCH \<noteq> ''./dwatch/create''" "DWATCH \<noteq> ''./dwatch/rename''"
    by (simp_all add: DWATCH_def)
  ultimately show ?thesis
    using assms(1) d unfolding dn_answers_def dn_mkdir_def succeeds_def empty_dwatch_def
    by (auto simp: trigger_watch(3) entries_def split: if_splits)
qed

lemma opendir_dwatch:
  assumes "dn_answers (Dirent (Opendir ''./dwatch'')) r k = Some k'" and "empty_dwatch k"
  shows "0 \<le> rv r \<and> streams k' (rv r) = Some DWATCH \<and> empty_dwatch k'"
  using assms by (auto simp: dn_answers_def DWATCH_def empty_dwatch_def entries_def split: if_splits)

lemma dirfd_dwatch:
  assumes "dn_answers (Libc ''dirfd'' [I d]) r k = Some k'" and "empty_dwatch k" and "streams k d = Some DWATCH"
  shows "0 \<le> rv r \<and> dirfds k' (rv r) = Some DWATCH \<and> empty_dwatch k'"
  using assms by (auto simp: dn_answers_def dn_libc_def unused_def split: if_splits)

lemma sigset_answers:
  "dn_answers (Libc ''sigemptyset'' []) r k = Some k' \<Longrightarrow> rv r = 0 \<and> k' = k"
  "dn_answers (Libc ''sigaddset'' [I SIGIO]) r k = Some k' \<Longrightarrow> rv r = 0 \<and> k' = k"
  "dn_answers (Libc ''sigprocmask'' [I SIG_BLOCK, I SIGIO]) r k = Some k' \<Longrightarrow> rv r = 0 \<and> k' = k\<lparr>blocked := True\<rparr>"
  by (auto simp: dn_answers_def dn_libc_def split: if_splits)

lemma ready_wp:
  assumes "logfp s = Some lf" and "dirfds k (watchfd (glob s)) = Some DWATCH" and "empty_dwatch k" and "blocked k"
  shows "wp dn_kernel (first_rounds dir) (\<lambda>_ _ _. False) (\<lambda>c _. c = 0) k s"
  by (rule first_rounds_wp [where lf = lf and w = "watchfd (glob s)" and sg = "sigio k"])
    (use assms in \<open>simp add: dn_state_def dn_at_def empty_dwatch_def\<close>)

lemma prepare_wp:
  assumes "logfp s = Some lf" and "no_dwatch k"
  shows "wp dn_kernel (prepare first_rounds) (\<lambda>_ _ _. False) (\<lambda>c _. c = 0) k s"
  unfolding prepare_def
  by (intro wp_sysv wp_andthen wp_andthen_assoc wp_set_glob wp_bind_return wp_eassert append_intros)
    (auto simp: assms dest!: mkdir_dwatch [OF _ assms(2)] opendir_dwatch dirfd_dwatch sigset_answers
      intro!: wp_sysv wp_set_glob wp_eassert wp_bind_return wp_andthen wp_andthen_assoc ready_wp [where lf = lf] append_intros)

text \<open>
  \<^bold>\<open>C34.\<close> With a kernel that keeps files and dnotify watches as documented, and a restart that
  restores the files, the descriptors, the watch and the pending signal, \<open>dnotify\<close> passes wherever it
  is checkpointed, if nothing is called ./dwatch when it starts: from the \<open>mkdir\<close> on no assertion
  fails, no wait for SIGIO times out, and whenever the test ends, it ends with status 0.
\<close>

theorem dnotify_passes:
  assumes "logfp s = Some lf" and "no_dwatch k"
    and "run_kernel dn_kernel k (since s (final (prepare first_rounds s))) \<noteq> None"
  shows "case prepare first_rounds s of Exited c t \<Rightarrow> c = 0 | Blocked t \<Rightarrow> True | _ \<Rightarrow> False"
proof -
  from assms(3) obtain k' where "run_kernel dn_kernel k (since s (final (prepare first_rounds s))) = Some k'" by auto
  with prepare_wp [OF assms(1,2)] show ?thesis by (rule wp_ends)
qed

definition sigio_answer :: resp where
  "sigio_answer = \<lparr>rv = SIGIO, er = 0, rdat = [], outs = [SIGIO]\<rparr>"

text \<open>A run with the checkpoint, in a dry run, at the first label, in a directory with one other file.\<close>

definition dn_run :: "dn_globals proc" where
  "dn_run = start
     ([ok 0, ok 9, ok 6, ok 0, ok 0, ok 0, ok 0, ok 0, ok 0, ok 7, sigio_answer, ok 0, ok 12, sigio_answer, ok 0, ok 0,
       \<lparr>rv = 12, er = 0, rdat = writ_contents @ [NUL], outs = []\<rparr>, sigio_answer, ok 0, ok 0, ok 0, sigio_answer,
       ok 0, ok 0, sigio_answer, ok 0, ok 0, sigio_answer, ok 0]) (Some 5) init_globals"

definition dn_begin :: dn where
  "dn_begin = \<lparr>dirs = (\<lambda>_. False)(''.'' := True), files = [(''./core'', 0)], contents = \<lambda>_. [], path_of = \<lambda>_. ''./core'', used = 1,
     fds = \<lambda>_. None, streams = \<lambda>_. None, dirfds = \<lambda>_. None, watches = \<lambda>_. 0, blocked = False, sigio = False\<rparr>"

theorem dnotify_passes_witness:
  "(case prepare first_rounds dn_run of Exited c t \<Rightarrow> c = 0 | Blocked t \<Rightarrow> True | _ \<Rightarrow> False) \<and>
   (case prepare first_rounds dn_run of Exited c t \<Rightarrow> True | _ \<Rightarrow> False)"
proof
  show "case prepare first_rounds dn_run of Exited c t \<Rightarrow> c = 0 | Blocked t \<Rightarrow> True | _ \<Rightarrow> False"
  proof (rule dnotify_passes [where k = dn_begin])
    show "run_kernel dn_kernel dn_begin (since dn_run (final (prepare first_rounds dn_run))) \<noteq> None"
      by code_simp
  qed (simp_all add: dn_run_def no_dwatch_def dn_begin_def dir_of_def)
qed code_simp

end
