(* ===== verification/Sysv_Ipc.thy ===== *)
theory Sysv_Ipc
  imports Kernel Mounts Getopt
begin

text \<open>
  The programs of ipc/ make two System V objects, one private and one with a key, wait for a
  checkpoint, and create an ok-file if both objects are still there. This theory has what they
  share, written for ipc/create-sem.c (create-shm.c repeats the code some lines further down, so
  the line of a message is moved by the difference), and the kernel's rules for such objects: who
  owns them and who may read and write them.
\<close>

section \<open>Constants\<close>

definition IPC_PRIVATE :: int where "IPC_PRIVATE = 0"
definition IPC_CREAT :: int where "IPC_CREAT = 512"
definition IPC_KEY :: int where "IPC_KEY = 0xabcd10f"
definition MODE_0600 :: int where "MODE_0600 = 384"
definition MODE_0755 :: int where "MODE_0755 = 493"
definition DIRNAME :: string where "DIRNAME = ''./sandbox''"

record ipc_globals =
  id1 :: int
  id2 :: int

type_synonym 'a ipcprog = "(ipc_globals, 'a) prog"

section \<open>Shared operations\<close>

definition dosetuid :: "nat \<Rightarrow> int \<Rightarrow> unit ipcprog" where
  "dosetuid off uid =
     andthen (emit (Libc ''setgroups'' [I 0])) (
     bind (sysv (Libc ''setgid'' [I uid])) (\<lambda>ret.
     if ret = -1 then andthen (emit (Stdio (Perror (58 + off)))) (exit_with 1)
     else bind (sysv (Libc ''setuid'' [I uid])) (\<lambda>ret.
     if ret = -1 then andthen (emit (Stdio (Perror (63 + off)))) (exit_with 1)
     else return ())))"

definition docreat :: "nat \<Rightarrow> string \<Rightarrow> int \<Rightarrow> unit ipcprog" where
  "docreat off fnam mode =
     bind (sysv (Unistd (Creat fnam mode))) (\<lambda>ret.
     if ret = -1 then andthen (emit (Stdio (Perror (72 + off)))) (exit_with 2) else return ())"

definition usage :: "nat \<Rightarrow> string \<Rightarrow> 'a ipcprog" where
  "usage off me =
     andthen (block
       [emit (Stdio (Printf (79 + off) [S me])), emit (Stdio (Printf (80 + off) [])),
        emit (Stdio (Printf (81 + off) [])), emit (Stdio (Printf (82 + off) []))]) (exit_with 1)"

text \<open>The options \<open>uid\<close>, \<open>early\<close> and \<open>read\<close>, or \<open>None\<close> when the loop meets an unknown one.\<close>

fun scan_options :: "options \<Rightarrow> int \<times> bool \<times> bool \<Rightarrow> (int \<times> bool \<times> bool) option" where
  "scan_options [] st = Some st"
| "scan_options ((c, optarg) # os) (uid, early, rd) =
     (if c = CHR ''u'' then scan_options os (atoi (the optarg), early, rd)
      else if c = CHR ''e'' then scan_options os (uid, True, rd)
      else if c = CHR ''r'' then scan_options os (uid, early, True)
      else None)"

text \<open>
  \<open>main\<close> from the mkdir on. What differs between the programs comes as an argument: how to make
  and how to check the objects, how to become the user, and the names of the two files. First the
  end of it, from the sleep on, and from the first file on.
\<close>

definition report :: "int ipcprog \<Rightarrow> (string \<Rightarrow> unit ipcprog) \<Rightarrow> string \<Rightarrow> int ipcprog" where
  "report check_objs create_file ok_name =
     andthen (emit (Proc (Sleep 3))) (
     bind check_objs (\<lambda>c.
     andthen (if c \<noteq> 0 then create_file ok_name else return ()) (exit_with 0)))"

definition wait_and_report :: "int ipcprog \<Rightarrow> (int \<Rightarrow> unit ipcprog) \<Rightarrow> (string \<Rightarrow> unit ipcprog) \<Rightarrow>
    string \<Rightarrow> string \<Rightarrow> int \<Rightarrow> bool \<Rightarrow> int ipcprog" where
  "wait_and_report check_objs become create_file created_name ok_name uid early =
     andthen (create_file created_name) (
     andthen (block (map (\<lambda>i. emit (Unistd (Close i))) [0, 1, 2, 3])) (
     andthen (if \<not> early \<and> uid \<noteq> -1 then become uid else return ()) (
     report check_objs create_file ok_name)))"

definition ipc_test :: "(int \<Rightarrow> unit ipcprog) \<Rightarrow> int ipcprog \<Rightarrow> (int \<Rightarrow> unit ipcprog) \<Rightarrow> (string \<Rightarrow> unit ipcprog) \<Rightarrow>
    int ipcprog \<Rightarrow> string \<Rightarrow> string \<Rightarrow> int \<Rightarrow> bool \<Rightarrow> bool \<Rightarrow> int ipcprog" where
  "ipc_test mk_objs check_objs become create_file print_usage created_name ok_name uid early rd =
     andthen (block
       [emit (Unistd (Mkdir DIRNAME MODE_0755)),
        if uid \<noteq> -1 then emit (Libc ''chown'' [S DIRNAME, I uid, I 0]) else return ()]) (
     if early \<and> uid = -1 then print_usage
     else andthen (if early then become uid else return ()) (
     andthen (mk_objs (if rd then MODE_0755 else MODE_0600)) (
     wait_and_report check_objs become create_file created_name ok_name uid early)))"

section \<open>create-sem.c\<close>

definition GETVAL :: int where "GETVAL = 12"
definition SEMCREATED :: string where "SEMCREATED = DIRNAME @ ''/sem-created''"
definition SEM_OK :: string where "SEM_OK = DIRNAME @ ''/sem-ok''"

definition create_sems :: "int \<Rightarrow> unit ipcprog" where
  "create_sems mode =
     bind (sysv (Libc ''semget'' [I IPC_PRIVATE, I 1, I mode])) (\<lambda>a.
     andthen (set_glob (\<lambda>g. g\<lparr>id1 := a\<rparr>)) (
     bind (sysv (Libc ''semget'' [I IPC_KEY, I 1, I (IPC_CREAT OR mode)])) (\<lambda>b.
     andthen (set_glob (\<lambda>g. g\<lparr>id2 := b\<rparr>)) (
     if a = -1 then andthen (emit (Stdio (Perror 30))) (exit_with 1)
     else if b = -1 then andthen (emit (Stdio (Perror 34))) (exit_with 1)
     else return ()))))"

definition check_sems :: "int ipcprog" where
  "check_sems =
     with_glob id1 (\<lambda>a. bind (sysv (Libc ''semctl'' [I a, I 0, I GETVAL])) (\<lambda>ret.
     if ret = -1 then return 0
     else with_glob id2 (\<lambda>b. bind (sysv (Libc ''semctl'' [I b, I 0, I GETVAL])) (\<lambda>ret.
     if ret = -1 then return 0 else return 1))))"

definition sem_test :: "string \<Rightarrow> int \<Rightarrow> bool \<Rightarrow> bool \<Rightarrow> int ipcprog" where
  "sem_test me = ipc_test create_sems check_sems (dosetuid 0) (\<lambda>f. docreat 0 f MODE_0600) (usage 0 me) SEMCREATED SEM_OK"

definition main :: "string list \<Rightarrow> int ipcprog" where
  "main argv =
     bind (sysv (Proc Getpid)) (\<lambda>pid.
     bind (move_to_cgroup ''freezer'' ''1'' pid) (\<lambda>m.
     if m = 0 then andthen (emit (Stdio (Printf 99 []))) (exit_with 1)
     else case scan_options (fst (getopt ''reu:'' (tl argv))) (-1, False, False) of
       None \<Rightarrow> usage 0 (hd argv)
     | Some (uid, early, rd) \<Rightarrow> sem_test (hd argv) uid early rd))"

section \<open>The kernel's objects\<close>

text \<open>
  An object has the owner and the mode it was made with. A process with effective uid 0 may do
  everything; the owner needs the owner's bits, anyone else those of others (the programs leave
  the groups of the owner before they change their uid). Only a process with uid 0 changes its uid
  and gid. \<open>files\<close> are the files created so far, \<open>msgs\<close> the messages in a queue.
  Memory is never short.
\<close>

record sysv_state =
  euid :: int
  objs :: "int \<Rightarrow> (int \<times> int) option"
  keys :: "int \<Rightarrow> int option"
  msgs :: "int \<Rightarrow> (int \<times> string) list"
  files :: "string list"

definition may :: "int \<Rightarrow> int \<Rightarrow> int \<Rightarrow> sysv_state \<Rightarrow> bool" where
  "may own_bits other_bits i k \<longleftrightarrow>
     (case objs k i of
        None \<Rightarrow> False
      | Some (owner, mode) \<Rightarrow>
          euid k = 0 \<or> (if owner = euid k then mode AND own_bits = own_bits else mode AND other_bits = other_bits))"

definition may_read :: "int \<Rightarrow> sysv_state \<Rightarrow> bool" where
  "may_read = may 0x100 0x4"

definition may_write :: "int \<Rightarrow> sysv_state \<Rightarrow> bool" where
  "may_write = may 0x80 0x2"

text \<open>The get calls: a new object for \<open>IPC_PRIVATE\<close> or an unused key, else the one with the key.\<close>

definition k_get :: "int \<Rightarrow> int \<Rightarrow> resp \<Rightarrow> sysv_state \<Rightarrow> sysv_state option" where
  "k_get key flags r k =
     (if key \<noteq> IPC_PRIVATE \<and> keys k key \<noteq> None then if Some (rv r) = keys k key then Some k else None
      else if rv r < 0 \<or> objs k (rv r) \<noteq> None then None
      else let k' = k\<lparr>objs := (objs k)(rv r := Some (euid k, flags mod 512)), msgs := (msgs k)(rv r := [])\<rparr> in
        Some (if key = IPC_PRIVATE then k' else k'\<lparr>keys := (keys k)(key := Some (rv r))\<rparr>))"

text \<open>Calls that succeed exactly when a condition holds, and then change the state.\<close>

definition k_when :: "bool \<Rightarrow> (sysv_state \<Rightarrow> sysv_state) \<Rightarrow> resp \<Rightarrow> sysv_state \<Rightarrow> sysv_state option" where
  "k_when c f r k =
     (if c then if 0 \<le> rv r then Some (f k) else None
      else if rv r = -1 then Some k else None)"

text \<open>Sending appends to the queue; receiving type 1 takes the first message of that type.\<close>

definition k_rcv :: "int \<Rightarrow> int \<Rightarrow> resp \<Rightarrow> sysv_state \<Rightarrow> sysv_state option" where
  "k_rcv i ty r k =
     (if \<not> may_read i k then if rv r = -1 then Some k else None
      else case dropWhile (\<lambda>m. fst m \<noteq> ty) (msgs k i) of
        [] \<Rightarrow> None
      | m # rest \<Rightarrow>
          if rv r = int (length (snd m)) \<and> rdat r = snd m
          then Some (k\<lparr>msgs := (msgs k)(i := takeWhile (\<lambda>m. fst m \<noteq> ty) (msgs k i) @ rest)\<rparr>) else None)"

definition sysv_answers :: "call \<Rightarrow> resp \<Rightarrow> sysv_state \<Rightarrow> sysv_state option" where
  "sysv_answers c r k =
     (case c of
        Unistd (Creat p m) \<Rightarrow> if 0 \<le> rv r then Some (k\<lparr>files := files k @ [p]\<rparr>) else None
      | Proc (Malloc n) \<Rightarrow> if rv r \<noteq> 0 then Some k else None
      | Libc f args \<Rightarrow>
          if f = ''setgid'' then k_when (euid k = 0) (\<lambda>k. k) r k
          else (case args of
            [I u] \<Rightarrow> if f = ''setuid'' then k_when (euid k = 0) (\<lambda>k. k\<lparr>euid := u\<rparr>) r k
                     else if f = ''shmat'' then k_when (may_read u k \<and> may_write u k) (\<lambda>k. k) r k
                     else Some k
          | [I a, I b] \<Rightarrow> if f = ''msgget'' then k_get a b r k
                           else if f = ''msgrcv'' then k_rcv a b r k else Some k
          | [I a, I b, I d] \<Rightarrow> if f = ''semget'' \<or> f = ''shmget'' then k_get a d r k
                                else if f = ''semctl'' then k_when (may_read a k) (\<lambda>k. k) r k else Some k
          | [I a, I ty, S txt] \<Rightarrow>
              if f = ''msgsnd'' then k_when (may_write a k) (\<lambda>k. k\<lparr>msgs := (msgs k)(a := msgs k a @ [(ty, txt)])\<rparr>) r k
              else Some k
          | _ \<Rightarrow> Some k)
      | _ \<Rightarrow> Some k)"

definition sysv_kernel :: "sysv_state kernel" where
  "sysv_kernel = \<lparr>answers = sysv_answers, effect = \<lambda>_ k. k\<rparr>"

lemma sysv_kernel_sel [simp]: "answers sysv_kernel = sysv_answers" "effect sysv_kernel = (\<lambda>_ k. k)"
  by (simp_all add: sysv_kernel_def)

lemma sysv_answers_simps [simp]:
  "sysv_answers (Unistd (Creat p m)) r k = (if 0 \<le> rv r then Some (k\<lparr>files := files k @ [p]\<rparr>) else None)"
  "sysv_answers (Proc (Malloc n)) r k = (if rv r \<noteq> 0 then Some k else None)"
  "sysv_answers (Libc ''setgid'' [I u]) r k = k_when (euid k = 0) (\<lambda>k. k) r k"
  "sysv_answers (Libc ''setuid'' [I u]) r k = k_when (euid k = 0) (\<lambda>k. k\<lparr>euid := u\<rparr>) r k"
  "sysv_answers (Libc ''semget'' [I a, I b, I d]) r k = k_get a d r k"
  "sysv_answers (Libc ''shmget'' [I a, I b, I d]) r k = k_get a d r k"
  "sysv_answers (Libc ''msgget'' [I a, I b]) r k = k_get a b r k"
  "sysv_answers (Libc ''semctl'' [I a, I b, I d]) r k = k_when (may_read a k) (\<lambda>k. k) r k"
  "sysv_answers (Libc ''shmat'' [I a]) r k = k_when (may_read a k \<and> may_write a k) (\<lambda>k. k) r k"
  "sysv_answers (Libc ''msgsnd'' [I a, I ty, S txt]) r k =
     k_when (may_write a k) (\<lambda>k. k\<lparr>msgs := (msgs k)(a := msgs k a @ [(ty, txt)])\<rparr>) r k"
  "sysv_answers (Libc ''msgrcv'' [I a, I ty]) r k = k_rcv a ty r k"
  by (simp_all add: sysv_answers_def)

section \<open>When the ok-file is created\<close>

lemma appending_docreat [append_intros]: "appending (docreat off f m)"
  unfolding docreat_def by (intro append_intros)

lemma appending_dosetuid [append_intros]: "appending (dosetuid off uid)"
  unfolding dosetuid_def by (intro append_intros)

lemma appending_usage [append_intros]: "appending (usage off me)"
  unfolding usage_def by (intro append_intros)

text \<open>
  The interface \<open>ipc_objects\<close> of a pair of objects. \<open>made k g owner mode\<close>: the two objects whose
  ids are in the globals \<open>g\<close> exist in \<open>k\<close> as \<open>owner\<close> made them. Making them in a kernel without the
  key gives that; checking them succeeds for root, for the owner, and for anyone else exactly if
  the mode gives others what the check needs.
\<close>

locale ipc_objects =
  fixes mk_objs :: "int \<Rightarrow> unit ipcprog" and check_objs :: "int ipcprog" and become :: "int \<Rightarrow> unit ipcprog"
    and create_file :: "string \<Rightarrow> unit ipcprog"
    and made :: "sysv_state \<Rightarrow> ipc_globals \<Rightarrow> int \<Rightarrow> int \<Rightarrow> bool" and others :: "int \<Rightarrow> bool"
  assumes make: "keys k IPC_KEY = None \<Longrightarrow> mode \<in> {MODE_0600, MODE_0755} \<Longrightarrow>
      wp sysv_kernel (mk_objs mode) (\<lambda>_ k' t. made k' (glob t) (euid k) mode \<and> euid k' = euid k \<and> files k' = files k) E k s"
    and check: "made k (glob s) owner mode \<Longrightarrow> mode \<in> {MODE_0600, MODE_0755} \<Longrightarrow>
      wp sysv_kernel check_objs (\<lambda>c k' t. files k' = files k \<and>
        (c \<noteq> 0 \<longleftrightarrow> euid k = 0 \<or> euid k = owner \<or> others mode)) E k s"
    and become: "euid k = 0 \<Longrightarrow> wp sysv_kernel (become u) (\<lambda>_ k' t. k' = k\<lparr>euid := u\<rparr> \<and> glob t = glob s) E k s"
    and create: "wp sysv_kernel (create_file f) (\<lambda>_ k' t. k' = k\<lparr>files := files k @ [f]\<rparr> \<and> glob t = glob s) E k s"
    and made_kept: "made (k\<lparr>euid := u\<rparr>) g owner mode = made k g owner mode"
      "made (k\<lparr>files := fs\<rparr>) g owner mode = made k g owner mode"
    and app: "appending (mk_objs mode)" "appending check_objs" "appending (become u)" "appending (create_file f)"
begin

lemma appending_report [append_intros]: "appending (report check_objs create_file ok_name)"
  unfolding report_def using app by (auto intro!: append_intros)

lemma appending_wait [append_intros]:
  "appending (wait_and_report check_objs become create_file created_name ok_name uid early)"
  unfolding wait_and_report_def using app by (auto intro!: append_intros)

abbreviation ok_iff :: "string \<Rightarrow> bool \<Rightarrow> int \<Rightarrow> sysv_state \<Rightarrow> bool" where
  "ok_iff ok_name b \<equiv> \<lambda>c k'. c = 0 \<and> (ok_name \<in> set (files k') \<longleftrightarrow> b)"

lemma wp_report:
  assumes "made k (glob s) owner mode" and "mode \<in> {MODE_0600, MODE_0755}" and "ok_name \<notin> set (files k)"
  shows "wp sysv_kernel (report check_objs create_file ok_name) Q
    (ok_iff ok_name (euid k = 0 \<or> euid k = owner \<or> others mode)) k s"
proof -
  let ?E = "ok_iff ok_name (euid k = 0 \<or> euid k = owner \<or> others mode)"
  have "wp sysv_kernel (bind check_objs (\<lambda>c. andthen (if c \<noteq> 0 then create_file ok_name else return ()) (exit_with 0)))
      Q ?E k (adv s es rs e)" for es rs e
  proof (rule wp_seq [OF check [where owner = owner and mode = mode]])
    fix c and k' :: sysv_state and t :: "ipc_globals proc"
    assume c: "files k' = files k \<and> (c \<noteq> 0 \<longleftrightarrow> euid k = 0 \<or> euid k = owner \<or> others mode)"
    show "wp sysv_kernel (andthen (if c \<noteq> 0 then create_file ok_name else return ()) (exit_with 0)) Q ?E k' t"
      by (intro wp_andthen wp_bind_if wp_seq [OF create] wp_rules)
        (use c assms(3) app in \<open>auto intro: append_intros\<close>)
  qed (use assms app in \<open>auto intro!: append_intros\<close>)
  then show ?thesis
    unfolding report_def using app by (intro wp_andthen wp_emit) (auto intro!: append_intros)
qed

lemma wp_wait_and_report:
  assumes "made k (glob s) (euid k) mode" and "mode \<in> {MODE_0600, MODE_0755}"
    and "ok_name \<notin> set (files k)" and "ok_name \<noteq> created_name" and "\<not> early \<Longrightarrow> uid \<noteq> -1 \<Longrightarrow> euid k = 0"
  shows "wp sysv_kernel (wait_and_report check_objs become create_file created_name ok_name uid early)
    Q (ok_iff ok_name (early \<or> uid = -1 \<or> uid = 0 \<or> others mode)) k s"
proof -
  let ?k = "k\<lparr>files := files k @ [created_name]\<rparr>" and ?b = "early \<or> uid = -1 \<or> uid = 0 \<or> others mode"
  have rest: "wp sysv_kernel (report check_objs create_file ok_name) Q (ok_iff ok_name ?b) k' t"
    if "k' = (if \<not> early \<and> uid \<noteq> -1 then ?k\<lparr>euid := uid\<rparr> else ?k)" "glob t = glob s" for k' t
  proof -
    have "made k' (glob t) (euid k) mode" using that assms(1) made_kept by simp
    moreover have "ok_name \<notin> set (files k')" using that assms(3,4) by simp
    moreover have "(euid k' = 0 \<or> euid k' = euid k \<or> others mode) = ?b" using that(1) assms(5) by auto
    ultimately show ?thesis using wp_report [OF _ assms(2), of k' t "euid k" ok_name Q] by simp
  qed
  define go where "go = andthen (if \<not> early \<and> uid \<noteq> -1 then become uid else return ()) (report check_objs create_file ok_name)"
  have g: "appending go" unfolding go_def using app by (intro append_intros)
  have "wp sysv_kernel go Q (ok_iff ok_name ?b) ?k t" if "glob t = glob s" for t
    unfolding go_def
  proof (intro wp_andthen wp_bind_if)
    show "wp sysv_kernel (bind (become uid) (\<lambda>_. report check_objs create_file ok_name)) Q (ok_iff ok_name ?b) ?k t"
      if c: "\<not> early \<and> uid \<noteq> -1"
    proof (rule wp_seq [OF become])
      fix u k' and v :: "ipc_globals proc"
      assume "k' = ?k\<lparr>euid := uid\<rparr> \<and> glob v = glob t"
      then show "wp sysv_kernel (report check_objs create_file ok_name) Q (ok_iff ok_name ?b) k' v"
        by (intro rest) (use c \<open>glob t = glob s\<close> in simp_all)
    qed (use c assms(5) app in \<open>auto intro: append_intros\<close>)
    show "wp sysv_kernel (bind (return ()) (\<lambda>_. report check_objs create_file ok_name)) Q (ok_iff ok_name ?b) ?k t"
      if "\<not> (\<not> early \<and> uid \<noteq> -1)"
      by (rule wp_bind_return, rule rest) (use that \<open>glob t = glob s\<close> in auto)
  qed
  then show ?thesis
    unfolding wait_and_report_def go_def [symmetric]
    using app g by (intro wp_andthen wp_seq [OF create]) (auto intro!: wp_rules append_intros)
qed

lemma wp_ipc_test:
  assumes "euid k = 0" and "keys k IPC_KEY = None" and "ok_name \<notin> set (files k)" and "ok_name \<noteq> created_name"
    and "early \<Longrightarrow> uid \<noteq> -1" and "appending print_usage"
  shows "wp sysv_kernel (ipc_test mk_objs check_objs become create_file print_usage created_name ok_name uid early rd)
    Q (ok_iff ok_name (early \<or> uid = -1 \<or> uid = 0 \<or> others (if rd then MODE_0755 else MODE_0600))) k s"
proof -
  let ?mode = "if rd then MODE_0755 else MODE_0600" and ?b = "early \<or> uid = -1 \<or> uid = 0 \<or> others (if rd then MODE_0755 else MODE_0600)"
  let ?wait = "wait_and_report check_objs become create_file created_name ok_name uid early"
  have a: "appending (andthen (mk_objs ?mode) ?wait)" using app by (intro append_intros)
  have rest: "wp sysv_kernel (andthen (mk_objs ?mode) ?wait) Q (ok_iff ok_name ?b) k' t"
    if k': "keys k' IPC_KEY = None" "files k' = files k" "\<not> early \<Longrightarrow> euid k' = 0" for k' t
  proof (rule wp_andthen, rule wp_seq [OF make])
    fix u k'' and v :: "ipc_globals proc"
    assume "made k'' (glob v) (euid k') ?mode \<and> euid k'' = euid k' \<and> files k'' = files k'"
    then show "wp sysv_kernel ?wait Q (ok_iff ok_name ?b) k'' v"
      using k' assms(3,4) by (intro wp_wait_and_report) simp_all
  qed (use k' app in \<open>auto intro!: append_intros\<close>)
  define go where "go = andthen (if early then become uid else return ()) (andthen (mk_objs ?mode) ?wait)"
  have g: "appending go" unfolding go_def using a app by (intro append_intros)
  have "wp sysv_kernel go Q (ok_iff ok_name ?b) k t" for t
    unfolding go_def
  proof (intro wp_andthen wp_bind_if)
    show "wp sysv_kernel (bind (become uid) (\<lambda>_. andthen (mk_objs ?mode) ?wait)) Q (ok_iff ok_name ?b) k t" if early
    proof (rule wp_seq [OF become])
      fix u k' and v :: "ipc_globals proc"
      assume "k' = k\<lparr>euid := uid\<rparr> \<and> glob v = glob t"
      then show "wp sysv_kernel (andthen (mk_objs ?mode) ?wait) Q (ok_iff ok_name ?b) k' v"
        using assms(2) that by (intro rest) simp_all
    qed (use assms(1) a app in simp_all)
    show "wp sysv_kernel (bind (return ()) (\<lambda>_. andthen (mk_objs ?mode) ?wait)) Q (ok_iff ok_name ?b) k t"
      by (rule wp_bind_return, rule rest) (use assms(1,2) in simp_all)
  qed
  then show ?thesis
    using assms(5,6) g unfolding ipc_test_def go_def [symmetric]
    by (intro wp_rules append_intros) auto
qed

end

section \<open>Semaphores\<close>

definition both_made :: "sysv_state \<Rightarrow> ipc_globals \<Rightarrow> int \<Rightarrow> int \<Rightarrow> bool" where
  "both_made k g owner mode \<longleftrightarrow>
     id1 g \<noteq> id2 g \<and> 0 \<le> id1 g \<and> 0 \<le> id2 g \<and>
     objs k (id1 g) = Some (owner, mode) \<and> objs k (id2 g) = Some (owner, mode)"

lemma may_update [simp]:
  "may_read i (k\<lparr>msgs := m\<rparr>) = may_read i k" "may_write i (k\<lparr>msgs := m\<rparr>) = may_write i k"
  by (simp_all add: may_read_def may_write_def may_def split: option.split)

lemma mode_bits: "mode \<in> {MODE_0600, MODE_0755} \<Longrightarrow> mode mod 512 = mode \<and> (IPC_CREAT OR mode) mod 512 = mode"
  by (auto simp: MODE_0600_def MODE_0755_def IPC_CREAT_def)

lemma key_not_private: "IPC_KEY \<noteq> IPC_PRIVATE"
  by (simp add: IPC_KEY_def IPC_PRIVATE_def)

lemma appending_create_sems [append_intros]: "appending (create_sems mode)"
  unfolding create_sems_def by (intro append_intros)

lemma appending_check_sems [append_intros]: "appending check_sems"
  unfolding check_sems_def by (intro append_intros)

lemma wp_create_sems:
  assumes "keys k IPC_KEY = None" and "mode \<in> {MODE_0600, MODE_0755}"
  shows "wp sysv_kernel (create_sems mode)
    (\<lambda>_ k' t. both_made k' (glob t) (euid k) mode \<and> euid k' = euid k \<and> files k' = files k) E k s"
  unfolding create_sems_def
  by (intro wp_rules append_intros)
    (use assms mode_bits [OF assms(2)] key_not_private in \<open>auto simp: k_get_def both_made_def Let_def split: if_splits\<close>)

lemma may_read_made:
  "both_made k g owner mode \<Longrightarrow> mode \<in> {MODE_0600, MODE_0755} \<Longrightarrow> i \<in> {id1 g, id2 g} \<Longrightarrow>
   may_read i k \<longleftrightarrow> euid k = 0 \<or> euid k = owner \<or> mode = MODE_0755"
  by (auto simp: may_read_def may_def both_made_def MODE_0600_def MODE_0755_def)

lemma wp_check_sems:
  assumes "both_made k (glob s) owner mode" and "mode \<in> {MODE_0600, MODE_0755}"
  shows "wp sysv_kernel check_sems
    (\<lambda>c k' t. files k' = files k \<and> (c \<noteq> 0 \<longleftrightarrow> euid k = 0 \<or> euid k = owner \<or> mode = MODE_0755)) E k s"
  unfolding check_sems_def
  by (intro wp_rules append_intros)
    (use may_read_made [OF assms] in \<open>auto simp: k_when_def split: if_splits\<close>)

lemma wp_dosetuid:
  "euid k = 0 \<Longrightarrow> wp sysv_kernel (dosetuid off u) (\<lambda>_ k' t. k' = k\<lparr>euid := u\<rparr> \<and> glob t = glob s) E k s"
  unfolding dosetuid_def
  by (intro wp_rules append_intros) (auto simp: k_when_def split: if_splits)

lemma wp_docreat:
  "wp sysv_kernel (docreat off f m) (\<lambda>_ k' t. k' = k\<lparr>files := files k @ [f]\<rparr> \<and> glob t = glob s) E k s"
  unfolding docreat_def
  by (intro wp_rules append_intros) (auto split: if_splits)

lemma both_made_kept:
  "both_made (k\<lparr>euid := u\<rparr>) g owner mode = both_made k g owner mode"
  "both_made (k\<lparr>files := fs\<rparr>) g owner mode = both_made k g owner mode"
  by (simp_all add: both_made_def)

interpretation sem: ipc_objects create_sems check_sems "dosetuid 0" "\<lambda>f. docreat 0 f MODE_0600" both_made "\<lambda>mode. mode = MODE_0755"
  by unfold_locales
    (rule wp_create_sems wp_check_sems wp_dosetuid wp_docreat append_intros both_made_kept; assumption)+

text \<open>
  \<^bold>\<open>C35.\<close> Started as root in an ipc namespace without the key, and restored exactly by the restart,
  \<open>create-sem\<close> ends with status 0 whenever it ends, and has created \<open>sem-ok\<close> exactly if it kept its
  uid, became root again, changed its uid before it made the semaphores, or made them readable
  by others. In particular a run with \<open>-u\<close> alone never creates the file, whether the restart
  was right to make the semaphores or not.
\<close>

theorem sem_ok_iff:
  assumes "euid k = 0" and "keys k IPC_KEY = None" and "SEM_OK \<notin> set (files k)" and "early \<Longrightarrow> uid \<noteq> -1"
    and "run_kernel sysv_kernel k (since s (final (sem_test me uid early rd s))) = Some k'"
  shows "case sem_test me uid early rd s of
      Exited c t \<Rightarrow> c = 0 \<and> (SEM_OK \<in> set (files k') \<longleftrightarrow> early \<or> uid = -1 \<or> uid = 0 \<or> rd)
    | Blocked t \<Rightarrow> True | _ \<Rightarrow> False"
proof -
  have "SEM_OK \<noteq> SEMCREATED" by (simp add: SEM_OK_def SEMCREATED_def)
  then have "wp sysv_kernel (sem_test me uid early rd) (\<lambda>_ _ _. False)
      (sem.ok_iff SEM_OK (early \<or> uid = -1 \<or> uid = 0 \<or> (if rd then MODE_0755 else MODE_0600) = MODE_0755)) k s"
    unfolding sem_test_def by (intro sem.wp_ipc_test assms appending_usage)
  moreover have "(if rd then MODE_0755 else MODE_0600) = MODE_0755 \<longleftrightarrow> rd" by (simp add: MODE_0600_def MODE_0755_def)
  ultimately show ?thesis using wp_ends assms(5) by simp
qed

definition no_objects :: sysv_state where
  "no_objects = \<lparr>euid = 0, objs = \<lambda>_. None, keys = \<lambda>_. None, msgs = \<lambda>_. [], files = []\<rparr>"

text \<open>A run with \<open>-u 501\<close>: the semaphores are there, but not readable.\<close>

definition sem_run :: "ipc_globals proc" where
  "sem_run = start [ok 0, ok 32769, ok 3, ok 0, ok 0, failed EACCES] None \<lparr>id1 = 0, id2 = 0\<rparr>"

theorem sem_ok_iff_witness:
  "case run_kernel sysv_kernel no_objects (since sem_run (final (sem_test ''create-sem'' 501 False False sem_run))) of
     None \<Rightarrow> False
   | Some k' \<Rightarrow> (case sem_test ''create-sem'' 501 False False sem_run of
        Exited c t \<Rightarrow> c = 0 \<and> SEM_OK \<notin> set (files k') | _ \<Rightarrow> False)"
proof -
  let ?p = "sem_test ''create-sem'' 501 False False"
  have "run_kernel sysv_kernel no_objects (since sem_run (final (?p sem_run))) \<noteq> None" by code_simp
  then obtain k' where k': "run_kernel sysv_kernel no_objects (since sem_run (final (?p sem_run))) = Some k'"
    by (cases "run_kernel sysv_kernel no_objects (since sem_run (final (?p sem_run)))") simp_all
  have "case ?p sem_run of
      Exited c t \<Rightarrow> c = 0 \<and> (SEM_OK \<in> set (files k') \<longleftrightarrow> False \<or> (501 :: int) = -1 \<or> (501 :: int) = 0 \<or> False)
    | Blocked t \<Rightarrow> True | _ \<Rightarrow> False"
    by (rule sem_ok_iff [OF _ _ _ _ k']) (simp_all add: no_objects_def)
  moreover have "case ?p sem_run of Exited c t \<Rightarrow> True | _ \<Rightarrow> False" by code_simp
  ultimately show ?thesis by (simp add: k' split: outcome.splits)
qed

end
