(* ===== verification/Sysv_Shm.thy ===== *)
theory Sysv_Shm
  imports Sysv_Ipc
begin

text \<open>
  ipc/create-shm.c: the program of create-sem.c with shared memory segments, 5 lines further down.
  The segments are attached for reading and writing, and nothing is written to them.
\<close>

definition shm_string :: string where "shm_string = ''deadbeef''"
definition SHMCREATED :: string where "SHMCREATED = DIRNAME @ ''/shm-created''"
definition SHM_OK :: string where "SHM_OK = DIRNAME @ ''/shm-ok''"

definition create_shms :: "int \<Rightarrow> unit ipcprog" where
  "create_shms mode =
     (let shmsize = int (length shm_string) + 1 in
      bind (sysv (Libc ''shmget'' [I IPC_PRIVATE, I shmsize, I mode])) (\<lambda>a.
      andthen (set_glob (\<lambda>g. g\<lparr>id1 := a\<rparr>)) (
      if a = -1 then andthen (emit (Stdio (Perror 32))) (exit_with 1)
      else bind (sysv (Libc ''shmget'' [I IPC_KEY, I shmsize, I (IPC_CREAT OR mode)])) (\<lambda>b.
      andthen (set_glob (\<lambda>g. g\<lparr>id2 := b\<rparr>)) (
      if b = -1 then andthen (emit (Stdio (Perror 37))) (exit_with 1)
      else return ())))))"

definition check_shms :: "int ipcprog" where
  "check_shms =
     with_glob id1 (\<lambda>a. bind (sysv (Libc ''shmat'' [I a])) (\<lambda>shmptr.
     if shmptr = -1 then return 0
     else andthen (emit (Libc ''shmdt'' [I shmptr])) (
     with_glob id2 (\<lambda>b. bind (sysv (Libc ''shmat'' [I b])) (\<lambda>shmptr.
     if shmptr = -1 then return 0
     else andthen (emit (Libc ''shmdt'' [I shmptr])) (return 1))))))"

definition shm_test :: "string \<Rightarrow> int \<Rightarrow> bool \<Rightarrow> bool \<Rightarrow> int ipcprog" where
  "shm_test me = ipc_test create_shms check_shms (dosetuid 5) (\<lambda>f. docreat 5 f MODE_0600) (usage 5 me) SHMCREATED SHM_OK"

definition shm_main :: "string list \<Rightarrow> int ipcprog" where
  "shm_main argv =
     bind (sysv (Proc Getpid)) (\<lambda>pid.
     bind (move_to_cgroup ''freezer'' ''1'' pid) (\<lambda>m.
     if m = 0 then andthen (emit (Stdio (Printf 104 []))) (exit_with 1)
     else case scan_options (fst (getopt ''reu:'' (tl argv))) (-1, False, False) of
       None \<Rightarrow> usage 5 (hd argv)
     | Some (uid, early, rd) \<Rightarrow> shm_test (hd argv) uid early rd))"

section \<open>When the ok-file is created\<close>

lemma appending_create_shms [append_intros]: "appending (create_shms mode)"
  unfolding create_shms_def Let_def by (intro append_intros)

lemma appending_check_shms [append_intros]: "appending check_shms"
  unfolding check_shms_def by (intro append_intros)

lemma wp_create_shms:
  assumes "keys k IPC_KEY = None" and "mode \<in> {MODE_0600, MODE_0755}"
  shows "wp sysv_kernel (create_shms mode)
    (\<lambda>_ k' t. both_made k' (glob t) (euid k) mode \<and> euid k' = euid k \<and> files k' = files k) E k s"
  unfolding create_shms_def Let_def
  by (intro wp_rules append_intros)
    (use assms mode_bits [OF assms(2)] key_not_private in \<open>auto simp: k_get_def both_made_def Let_def split: if_splits\<close>)

lemma may_write_made:
  "both_made k g owner mode \<Longrightarrow> mode \<in> {MODE_0600, MODE_0755} \<Longrightarrow> i \<in> {id1 g, id2 g} \<Longrightarrow>
   may_write i k \<longleftrightarrow> euid k = 0 \<or> euid k = owner"
  by (auto simp: may_write_def may_def both_made_def MODE_0600_def MODE_0755_def)

lemma wp_check_shms:
  assumes "both_made k (glob s) owner mode" and "mode \<in> {MODE_0600, MODE_0755}"
  shows "wp sysv_kernel check_shms
    (\<lambda>c k' t. files k' = files k \<and> (c \<noteq> 0 \<longleftrightarrow> euid k = 0 \<or> euid k = owner \<or> False)) E k s"
  unfolding check_shms_def
  by (intro wp_rules append_intros)
    (use may_read_made [OF assms] may_write_made [OF assms] in \<open>auto simp: k_when_def split: if_splits\<close>)

interpretation shm: ipc_objects create_shms check_shms "dosetuid 5" "\<lambda>f. docreat 5 f MODE_0600" both_made "\<lambda>_. False"
  by unfold_locales
    (rule wp_create_shms wp_check_shms wp_dosetuid wp_docreat append_intros both_made_kept; assumption)+

text \<open>
  \<open>create-shm\<close> has created \<open>shm-ok\<close> exactly if it kept its uid, became root again or changed
  its uid before it made the segments: the option \<open>-r\<close> makes no difference, since attaching a
  segment for reading and writing needs a permission that mode 755 gives to the owner only.
\<close>

theorem shm_ok_iff:
  assumes "euid k = 0" and "keys k IPC_KEY = None" and "SHM_OK \<notin> set (files k)" and "early \<Longrightarrow> uid \<noteq> -1"
    and "run_kernel sysv_kernel k (since s (final (shm_test me uid early rd s))) = Some k'"
  shows "case shm_test me uid early rd s of
      Exited c t \<Rightarrow> c = 0 \<and> (SHM_OK \<in> set (files k') \<longleftrightarrow> early \<or> uid = -1 \<or> uid = 0)
    | Blocked t \<Rightarrow> True | _ \<Rightarrow> False"
proof -
  have "SHM_OK \<noteq> SHMCREATED" by (simp add: SHM_OK_def SHMCREATED_def)
  then have "wp sysv_kernel (shm_test me uid early rd) (\<lambda>_ _ _. False)
      (shm.ok_iff SHM_OK (early \<or> uid = -1 \<or> uid = 0 \<or> False)) k s"
    unfolding shm_test_def by (intro shm.wp_ipc_test assms appending_usage)
  then show ?thesis using wp_ends assms(5) by simp
qed

text \<open>A run with \<open>-r -u 501\<close>.\<close>

definition shm_run :: "ipc_globals proc" where
  "shm_run = start [ok 0, ok 32769, ok 3, ok 0, ok 0, failed EACCES] None \<lparr>id1 = 0, id2 = 0\<rparr>"

theorem shm_ok_iff_witness:
  "case run_kernel sysv_kernel no_objects (since shm_run (final (shm_test ''create-shm'' 501 False True shm_run))) of
     None \<Rightarrow> False
   | Some k' \<Rightarrow> (case shm_test ''create-shm'' 501 False True shm_run of
        Exited c t \<Rightarrow> c = 0 \<and> SHM_OK \<notin> set (files k') | _ \<Rightarrow> False)"
proof -
  let ?p = "shm_test ''create-shm'' 501 False True"
  have "run_kernel sysv_kernel no_objects (since shm_run (final (?p shm_run))) \<noteq> None" by code_simp
  then obtain k' where k': "run_kernel sysv_kernel no_objects (since shm_run (final (?p shm_run))) = Some k'"
    by (cases "run_kernel sysv_kernel no_objects (since shm_run (final (?p shm_run)))") simp_all
  have "case ?p shm_run of
      Exited c t \<Rightarrow> c = 0 \<and> (SHM_OK \<in> set (files k') \<longleftrightarrow> False \<or> (501 :: int) = -1 \<or> (501 :: int) = 0)
    | Blocked t \<Rightarrow> True | _ \<Rightarrow> False"
    by (rule shm_ok_iff [OF _ _ _ _ k']) (simp_all add: no_objects_def)
  moreover have "case ?p shm_run of Exited c t \<Rightarrow> True | _ \<Rightarrow> False" by code_simp
  ultimately show ?thesis by (simp add: k' split: outcome.splits)
qed

end
