(* ===== verification/Sysv_Mq.thy ===== *)
theory Sysv_Mq
  imports Sysv_Ipc
begin

text \<open>
  ipc/check-mq.c: the program of create-sem.c with message queues, whose messages are read back.
  There is no option \<open>-r\<close>, and \<open>dosetuid\<close> changes the uid only. When a message is not received the
  program prints the buffer all the same; the text it prints then is not modelled.
\<close>

definition MSG1 :: string where "MSG1 = ''message1''"
definition MSG2 :: string where "MSG2 = ''message2''"
definition MQCREATED :: string where "MQCREATED = DIRNAME @ ''/mq-created''"
definition MSQ_OK :: string where "MSQ_OK = DIRNAME @ ''/msq-ok''"

text \<open>A message that cannot be sent, or a queue that cannot be made, ends the program.\<close>

definition mq_fail :: "int \<Rightarrow> nat \<Rightarrow> 'a ipcprog" where
  "mq_fail b n = andthen (block [emit (Stdio (Perror n)), emit (Proc (Free b))]) (exit_with 1)"

text \<open>The buffer is not tested for NULL; the first store through it is undefined then.\<close>

definition create_mqs :: "unit ipcprog" where
  "create_mqs =
     bind (sysv (Proc (Malloc 100))) (\<lambda>b.
     bind (sysv (Libc ''msgget'' [I IPC_PRIVATE, I MODE_0600])) (\<lambda>q1.
     andthen (set_glob (\<lambda>g. g\<lparr>id1 := q1\<rparr>)) (
     bind (sysv (Libc ''msgget'' [I IPC_KEY, I (IPC_CREAT OR MODE_0600)])) (\<lambda>q2.
     andthen (set_glob (\<lambda>g. g\<lparr>id2 := q2\<rparr>)) (
     if q1 = -1 then mq_fail b 37
     else if q2 = -1 then mq_fail b 42
     else if b = 0 then crash
     else bind (sysv (Libc ''msgsnd'' [I q1, I 1, S (MSG1 @ [NUL])])) (\<lambda>ret.
     if ret = -1 then mq_fail b 51
     else bind (sysv (Libc ''msgsnd'' [I q2, I 1, S (MSG2 @ [NUL])])) (\<lambda>ret.
     if ret = -1 then mq_fail b 58
     else emit (Proc (Free b)))))))))"

definition verify_one :: "int \<Rightarrow> nat \<Rightarrow> int \<Rightarrow> string \<Rightarrow> int ipcprog \<Rightarrow> int ipcprog" where
  "verify_one b line q msg k =
     bind (sys (Libc ''msgrcv'' [I q, I 1])) (\<lambda>r.
     if rv r = -1 \<or> cstr (rdat r) 0 \<noteq> msg
     then andthen (block [emit (Stdio (Printf line [I (rv r)])), emit (Proc (Free b))]) (return 0)
     else k)"

definition verify_queues :: "int ipcprog" where
  "verify_queues =
     bind (sysv (Proc (Malloc 100))) (\<lambda>b.
     with_glob id1 (\<lambda>q1. verify_one b 72 q1 MSG1 (
     with_glob id2 (\<lambda>q2. verify_one b 78 q2 MSG2 (
     andthen (emit (Proc (Free b))) (return 1))))))"

definition mq_dosetuid :: "int \<Rightarrow> unit ipcprog" where
  "mq_dosetuid uid =
     bind (sysv (Libc ''setuid'' [I uid])) (\<lambda>ret.
     if ret = -1 then andthen (emit (Stdio (Perror 90))) (exit_with 1) else return ())"

definition mq_usage :: "string \<Rightarrow> 'a ipcprog" where
  "mq_usage me =
     andthen (block
       [emit (Stdio (Printf 106 [S me])), emit (Stdio (Printf 107 [])), emit (Stdio (Printf 108 []))]) (exit_with 1)"

definition mq_test :: "string \<Rightarrow> int \<Rightarrow> bool \<Rightarrow> int ipcprog" where
  "mq_test me uid early =
     ipc_test (\<lambda>_. create_mqs) verify_queues mq_dosetuid (\<lambda>f. docreat 27 f MODE_0600) (mq_usage me) MQCREATED MSQ_OK
       uid early False"

definition mq_main :: "string list \<Rightarrow> int ipcprog" where
  "mq_main argv =
     bind (sysv (Proc Getpid)) (\<lambda>pid.
     bind (move_to_cgroup ''freezer'' ''1'' pid) (\<lambda>m.
     if m = 0 then andthen (emit (Stdio (Printf 123 []))) (exit_with 1)
     else case scan_options (fst (getopt ''eu:'' (tl argv))) (-1, False, False) of
       None \<Rightarrow> mq_usage (hd argv)
     | Some (uid, early, _) \<Rightarrow> mq_test (hd argv) uid early))"

section \<open>When the ok-file is created\<close>

lemma appending_mq_fail [append_intros]: "appending (mq_fail b n)"
  unfolding mq_fail_def by (intro append_intros)

lemma appending_create_mqs [append_intros]: "appending create_mqs"
  unfolding create_mqs_def by (intro append_intros)

lemma appending_verify_one [append_intros]: "appending k \<Longrightarrow> appending (verify_one b n q msg k)"
  unfolding verify_one_def by (intro append_intros)

lemma appending_verify_queues [append_intros]: "appending verify_queues"
  unfolding verify_queues_def by (intro append_intros)

lemma appending_mq_dosetuid [append_intros]: "appending (mq_dosetuid uid)"
  unfolding mq_dosetuid_def by (intro append_intros)

lemma appending_mq_usage [append_intros]: "appending (mq_usage me)"
  unfolding mq_usage_def by (intro append_intros)

definition mqs_made :: "sysv_state \<Rightarrow> ipc_globals \<Rightarrow> int \<Rightarrow> int \<Rightarrow> bool" where
  "mqs_made k g owner mode \<longleftrightarrow> both_made k g owner MODE_0600 \<and>
     msgs k (id1 g) = [(1, MSG1 @ [NUL])] \<and> msgs k (id2 g) = [(1, MSG2 @ [NUL])]"

lemma may_0600:
  assumes "both_made k g owner MODE_0600" and "i \<in> {id1 g, id2 g}"
  shows "may_read i k \<longleftrightarrow> euid k = 0 \<or> euid k = owner" and "may_write i k \<longleftrightarrow> euid k = 0 \<or> euid k = owner"
  using assms by (auto simp: may_read_def may_write_def may_def both_made_def MODE_0600_def)

lemma cstr_msgs: "cstr (MSG1 @ [NUL]) 0 = MSG1" "cstr (MSG2 @ [NUL]) 0 = MSG2"
  by (simp_all add: MSG1_def MSG2_def cstr_def NUL_def)

lemma wp_verify_queues:
  assumes "mqs_made k (glob s) owner mode"
  shows "wp sysv_kernel verify_queues
    (\<lambda>c k' t. files k' = files k \<and> (c \<noteq> 0 \<longleftrightarrow> euid k = 0 \<or> euid k = owner \<or> False)) E k s"
proof -
  note m = assms [unfolded mqs_made_def]
  have d: "id2 (glob s) \<noteq> id1 (glob s)" using m by (simp add: both_made_def)
  show ?thesis
    unfolding verify_queues_def verify_one_def
    by (intro wp_rules append_intros)
      (use m d may_0600(1) [of k "glob s" owner] in \<open>auto simp: k_rcv_def cstr_msgs split: if_splits\<close>)
qed

lemma wp_create_mqs:
  assumes "keys k IPC_KEY = None"
  shows "wp sysv_kernel create_mqs
    (\<lambda>_ k' t. mqs_made k' (glob t) (euid k) mode \<and> euid k' = euid k \<and> files k' = files k) E k s"
proof -
  have m: "MODE_0600 mod 512 = MODE_0600" "(IPC_CREAT OR MODE_0600) mod 512 = MODE_0600" using mode_bits by auto
  have owner_writes: "MODE_0600 AND 128 = 128" by (simp add: MODE_0600_def)
  show ?thesis
    unfolding create_mqs_def mq_fail_def
    by (intro wp_rules append_intros)
      (use assms m owner_writes key_not_private in \<open>auto simp: k_get_def k_when_def both_made_def mqs_made_def Let_def
        may_write_def may_def split: if_splits\<close>)
qed

lemma wp_mq_dosetuid:
  "euid k = 0 \<Longrightarrow> wp sysv_kernel (mq_dosetuid u) (\<lambda>_ k' t. k' = k\<lparr>euid := u\<rparr> \<and> glob t = glob s) E k s"
  unfolding mq_dosetuid_def
  by (intro wp_rules append_intros) (auto simp: k_when_def split: if_splits)

lemma mqs_made_kept:
  "mqs_made (k\<lparr>euid := u\<rparr>) g owner mode = mqs_made k g owner mode"
  "mqs_made (k\<lparr>files := fs\<rparr>) g owner mode = mqs_made k g owner mode"
  by (simp_all add: mqs_made_def both_made_def)

interpretation mq: ipc_objects "\<lambda>_. create_mqs" verify_queues mq_dosetuid "\<lambda>f. docreat 27 f MODE_0600" mqs_made "\<lambda>_. False"
  by unfold_locales
    (rule wp_create_mqs wp_verify_queues wp_mq_dosetuid wp_docreat append_intros mqs_made_kept; assumption)+

text \<open>
  \<^bold>\<open>C36.\<close> Started as root in an ipc namespace without the key, and restored exactly by the restart,
  \<open>check-mq\<close> ends with status 0 whenever it ends, and has created \<open>msq-ok\<close> exactly if it kept its uid,
  became root again or changed its uid before it made the queues: the messages that were sent to
  the two queues are the ones received from them.
\<close>

theorem mq_ok_iff:
  assumes "euid k = 0" and "keys k IPC_KEY = None" and "MSQ_OK \<notin> set (files k)" and "early \<Longrightarrow> uid \<noteq> -1"
    and "run_kernel sysv_kernel k (since s (final (mq_test me uid early s))) = Some k'"
  shows "case mq_test me uid early s of
      Exited c t \<Rightarrow> c = 0 \<and> (MSQ_OK \<in> set (files k') \<longleftrightarrow> early \<or> uid = -1 \<or> uid = 0)
    | Blocked t \<Rightarrow> True | _ \<Rightarrow> False"
proof -
  have "MSQ_OK \<noteq> MQCREATED" by (simp add: MSQ_OK_def MQCREATED_def)
  then have "wp sysv_kernel (mq_test me uid early) (\<lambda>_ _ _. False)
      (mq.ok_iff MSQ_OK (early \<or> uid = -1 \<or> uid = 0 \<or> False)) k s"
    unfolding mq_test_def by (intro mq.wp_ipc_test assms appending_mq_usage)
  then show ?thesis using wp_ends assms(5) by simp
qed

text \<open>A run with \<open>-e -u 501\<close>.\<close>

definition mq_run :: "ipc_globals proc" where
  "mq_run = start [ok 0, ok 4096, ok 0, ok 32769, ok 0, ok 0, ok 3, ok 4096,
     \<lparr>rv = 9, er = 0, rdat = MSG1 @ [NUL], outs = []\<rparr>, \<lparr>rv = 9, er = 0, rdat = MSG2 @ [NUL], outs = []\<rparr>, ok 0]
     None \<lparr>id1 = 0, id2 = 0\<rparr>"

theorem mq_ok_iff_witness:
  "case run_kernel sysv_kernel no_objects (since mq_run (final (mq_test ''check-mq'' 501 True mq_run))) of
     None \<Rightarrow> False
   | Some k' \<Rightarrow> (case mq_test ''check-mq'' 501 True mq_run of
        Exited c t \<Rightarrow> c = 0 \<and> MSQ_OK \<in> set (files k') | _ \<Rightarrow> False)"
proof -
  let ?p = "mq_test ''check-mq'' 501 True"
  have "run_kernel sysv_kernel no_objects (since mq_run (final (?p mq_run))) \<noteq> None" by code_simp
  then obtain k' where k': "run_kernel sysv_kernel no_objects (since mq_run (final (?p mq_run))) = Some k'"
    by (cases "run_kernel sysv_kernel no_objects (since mq_run (final (?p mq_run)))") simp_all
  have "case ?p mq_run of
      Exited c t \<Rightarrow> c = 0 \<and> (MSQ_OK \<in> set (files k') \<longleftrightarrow> True \<or> (501 :: int) = -1 \<or> (501 :: int) = 0)
    | Blocked t \<Rightarrow> True | _ \<Rightarrow> False"
    by (rule mq_ok_iff [OF _ _ _ _ k']) (simp_all add: no_objects_def)
  moreover have "case ?p mq_run of Exited c t \<Rightarrow> True | _ \<Rightarrow> False" by code_simp
  ultimately show ?thesis by (simp add: k' split: outcome.splits)
qed

end
