(* ===== verification/Eclone.thy ===== *)
theory Eclone
  imports Kernel
begin

text \<open>
  eclone/eclone-1.c to eclone-5.c: five programs that call \<open>eclone\<close>, a clone that may be told the
  pids of the new process. \<open>eclone\<close> and the stacks it runs on come from the checkpoint tools, outside
  this repository, so their answers are the script's. The five files repeat one another; what
  they share is written once, with the lines of its messages as arguments.
\<close>

section \<open>eclone-tests.h\<close>

definition STACKSIZE :: int where "STACKSIZE = 8192"
definition CLONE_CHILD_SETTID :: int where "CLONE_CHILD_SETTID = 0x01000000"
definition CLONE_PARENT_SETTID :: int where "CLONE_PARENT_SETTID = 0x00100000"
definition CLONE_NEWPID :: int where "CLONE_NEWPID = 0x20000000"
definition CLONE_NEWNS :: int where "CLONE_NEWNS = 0x00020000"
definition WALL :: int where "WALL = 0x40000000"

text \<open>The two pointers in it are named by the variables they point to.\<close>

record clone_args =
  clone_flags_high :: u64
  child_stack :: u64
  child_stack_size :: u64
  parent_tid_ptr :: string
  child_tid_ptr :: string
  nr_pids :: u32
  reserved0 :: u32

definition eclone :: "string \<Rightarrow> int \<Rightarrow> int \<Rightarrow> clone_args \<Rightarrow> int list \<Rightarrow> call" where
  "eclone child_fn arg flags_low ca pids = Libc ''eclone''
     ([S child_fn, I arg, I flags_low, I (uint (clone_flags_high ca)), I (uint (child_stack ca)),
       I (uint (child_stack_size ca)), S (parent_tid_ptr ca), S (child_tid_ptr ca),
       I (uint (nr_pids ca)), I (uint (reserved0 ca))] @ map I pids)"

definition CHILD_TID1 :: int where "CHILD_TID1 = 377"
definition CHILD_TID2 :: int where "CHILD_TID2 = 399"
definition CHILD_ARG :: int where "CHILD_ARG = 0x979797"

text \<open>The one global that is read again: \<open>verbose\<close>.\<close>

type_synonym 'a eprog = "(int, 'a) prog"

text \<open>Messages with the ids of the process, and with its pid only.\<close>

definition print_ids :: "nat \<Rightarrow> arg list \<Rightarrow> unit eprog" where
  "print_ids n args = block [emit (Proc Getpid), emit (Proc Gettid), emit (Stdio (Printf n args))]"

definition print_pid :: "nat \<Rightarrow> arg list \<Rightarrow> unit eprog" where
  "print_pid n args = block [emit (Proc Getpid), emit (Stdio (Printf n args))]"

definition when_verbose :: "unit eprog \<Rightarrow> unit eprog" where
  "when_verbose p = with_glob id (\<lambda>v. if v \<noteq> 0 then p else return ())"

section \<open>What the five programs share\<close>

text \<open>
  \<open>do_eclone\<close> up to and with the message about the result. \<open>l\<close> is the line of the first message,
  \<open>l'\<close> and \<open>l''\<close> those of the two others, and \<open>extra\<close> what a program sets beside the common extra.
\<close>

definition do_eclone :: "nat \<Rightarrow> nat \<Rightarrow> nat \<Rightarrow> (clone_args \<Rightarrow> clone_args) \<Rightarrow> string \<Rightarrow> int \<Rightarrow> int \<Rightarrow> int \<Rightarrow> int list \<Rightarrow> int eprog" where
  "do_eclone l l' l'' extra child_fn child_arg flags_low nr pids =
     bind (sysv (Libc ''genstack_alloc'' [I STACKSIZE])) (\<lambda>stack.
     if stack = 0 then andthen (emit (Stdio (Printf l [I STACKSIZE]))) (exit_with 1)
     else bind (sysv (Libc ''genstack_sp'' [I stack])) (\<lambda>sp.
     let ca = extra \<lparr>clone_flags_high = 0, child_stack = word_of_int sp, child_stack_size = 0,
                parent_tid_ptr = ''parent_tid'', child_tid_ptr = ''child_tid'', nr_pids = word_of_int nr,
                reserved0 = 0\<rparr>
     in andthen (when_verbose (print_ids l' [I stack, S (parent_tid_ptr ca), S (child_tid_ptr ca)])) (
     bind (sysv (eclone child_fn child_arg flags_low ca pids)) (\<lambda>rc.
     bind (gets errno) (\<lambda>e.
     andthen (when_verbose (andthen (print_ids l'' [I rc, I e]) (emit (Stdio (Fflush 1))))) (
     return rc))))))"

definition print_status :: "nat \<Rightarrow> nat \<Rightarrow> u32 \<Rightarrow> unit eprog" where
  "print_status l l' status =
     (if WIFEXITED status then emit (Stdio (Printf l [I (uint (WEXITSTATUS status))]))
      else if WIFSIGNALED status then emit (Stdio (Printf l' [I (uint (WTERMSIG status))]))
      else return ())"

text \<open>
  The end of \<open>main\<close> in eclone-1.c, eclone-3.c and eclone-4.c. A failing \<open>waitpid\<close> leaves the status
  as it was, which is not used then.
\<close>

definition wait_child :: "nat \<Rightarrow> int \<Rightarrow> int eprog" where
  "wait_child off pid =
     andthen (when_verbose (print_ids (96 - off) [I pid])) (
     bind (sys (Proc (Waitpid pid WALL))) (\<lambda>r.
     andthen (if rv r < 0 then block [emit (Stdio (Printf (102 - off) [])), set_glob (\<lambda>_. 1)] else return ()) (
     andthen (when_verbose (andthen (print_pid (107 - off) [I (rv r), I (er r)])
       (if rv r \<ge> 0 then print_status (111 - off) (113 - off) (word_of_int (hd (outs r @ [0]))) else return ()))) (
     exit_with 0))))"

section \<open>The programs\<close>

definition do_child1 :: "int \<Rightarrow> int eprog" where
  "do_child1 arg =
     andthen (emit (Proc (Sleep 3))) (
     if arg \<noteq> CHILD_ARG then andthen (emit (Stdio (Printf 26 [I CHILD_ARG, I arg]))) (exit_with 1)
     else bind (sysv (Proc Gettid)) (\<lambda>tid.
     if tid \<noteq> CHILD_TID1 then andthen (print_pid 31 [I CHILD_TID1]) (exit_with 2)
     else andthen (emit (Stdio (Printf 35 [I CHILD_TID1]))) (exit_with 0)))"

definition do_eclone1 :: "string \<Rightarrow> int \<Rightarrow> int \<Rightarrow> int \<Rightarrow> int list \<Rightarrow> int eprog" where
  "do_eclone1 child_fn child_arg flags nr pids =
     bind (do_eclone 50 63 72 id child_fn child_arg flags nr pids) (\<lambda>rc.
     if rc < 0 then andthen (emit (Stdio (Printf 78 [I rc]))) (exit_with 1) else return rc)"

definition eclone1_main :: "int eprog" where
  "eclone1_main =
     bind (do_eclone1 ''do_child'' CHILD_ARG (SIGCHLD OR CLONE_PARENT_SETTID OR CLONE_CHILD_SETTID) 1 [CHILD_TID1])
       (wait_child 0)"

definition do_child2 :: "int \<Rightarrow> int eprog" where
  "do_child2 arg = exit_with 2"

definition do_eclone2 :: "string \<Rightarrow> int \<Rightarrow> int \<Rightarrow> int \<Rightarrow> int list \<Rightarrow> int eprog" where
  "do_eclone2 child_fn child_arg flags nr pids =
     bind (do_eclone 37 50 59 id child_fn child_arg flags nr pids) (\<lambda>rc.
     if rc < 0 then bind (gets errno) (\<lambda>e. return (- e)) else return rc)"

definition eclone2_main :: "int eprog" where
  "eclone2_main =
     bind (sysv (Proc Getpid)) (\<lambda>me.
     bind (do_eclone2 ''do_child'' CHILD_ARG SIGCHLD 1 [me, 0]) (\<lambda>pid.
     if pid = - EBUSY then andthen (emit (Stdio (Printf 88 []))) (exit_with 0)
     else if pid < 0 then andthen (emit (Stdio (Printf 92 [I pid]))) (exit_with 1)
     else andthen (block [emit (Stdio (Printf 95 [])), print_ids 97 [I pid]]) (
     bind (sys (Proc (Waitpid pid WALL))) (\<lambda>r.
     andthen (block
       [print_pid 101 [I (rv r), I (er r)],
        if rv r \<ge> 0 then print_status 106 108 (word_of_int (hd (outs r @ [0]))) else return ()]) (
     exit_with 1)))))"

text \<open>
  eclone-3.c and eclone-4.c differ in the field they set. Both leave from \<open>do_eclone\<close>, so the rest
  of their \<open>main\<close> is never reached.
\<close>

definition do_child3 :: "int \<Rightarrow> int eprog" where
  "do_child3 arg = andthen (print_ids 26 []) (exit_with 2)"

definition do_eclone3 :: "(clone_args \<Rightarrow> clone_args) \<Rightarrow> string \<Rightarrow> int \<Rightarrow> int \<Rightarrow> int \<Rightarrow> int list \<Rightarrow> int eprog" where
  "do_eclone3 extra child_fn child_arg flags nr pids =
     bind (do_eclone 42 56 66 extra child_fn child_arg flags nr pids) (\<lambda>rc.
     bind (gets errno) (\<lambda>e.
     if rc < 0 \<and> e = EINVAL then andthen (emit (Stdio (Printf 72 []))) (exit_with 0)
     else andthen (emit (Stdio (Printf 75 []))) (exit_with 1)))"

definition eclone3_main :: "int eprog" where
  "eclone3_main =
     bind (do_eclone3 (\<lambda>ca. ca\<lparr>reserved0 := 0xdeadbeef\<rparr>) ''do_child'' CHILD_ARG SIGCHLD 1 [CHILD_TID1]) (wait_child 3)"

definition eclone4_main :: "int eprog" where
  "eclone4_main =
     bind (do_eclone3 (\<lambda>ca. ca\<lparr>clone_flags_high := push_bit 33 1\<rparr>) ''do_child'' CHILD_ARG SIGCHLD 1 [CHILD_TID1])
       (wait_child 3)"

definition do_child5 :: "int \<Rightarrow> int eprog" where
  "do_child5 arg = andthen (when_verbose (print_ids 32 [])) (andthen (emit (Proc (Sleep 2))) (exit_with 0))"

text \<open>Here \<open>errno\<close> is cleared before the call, which sets it again.\<close>

definition do_eclone5 :: "string \<Rightarrow> int \<Rightarrow> int \<Rightarrow> int \<Rightarrow> int list \<Rightarrow> int eprog" where
  "do_eclone5 = do_eclone 48 61 72 id"

definition do_test :: "int \<Rightarrow> int eprog" where
  "do_test nested_ns =
     bind (do_eclone5 ''do_child'' CHILD_ARG (SIGCHLD OR CLONE_PARENT_SETTID OR CLONE_CHILD_SETTID) 2
       [CHILD_TID1, CHILD_TID2]) (\<lambda>pid.
     bind (gets errno) (\<lambda>en.
     let error = (if pid < 0 then en else 0) in
     andthen (if pid > 0 then bind (sys (Proc (Waitpid pid WALL))) (\<lambda>r.
         if rv r < 0 then block [print_pid 103 [I (rv r), I (er r)], set_glob (\<lambda>_. 1)] else return ())
       else return ()) (
     andthen (when_verbose (print_pid 110 [I nested_ns, I pid, I error])) (
     bind
       (if nested_ns = 0 \<and> pid < 0 \<and> error = EINVAL then andthen (print_pid 121 []) (return 0)
        else if nested_ns \<noteq> 0 \<and> pid > 0 then andthen (print_pid 124 [I pid]) (return 0)
        else andthen (print_pid 127 [I nested_ns, I pid, I error]) (return 1)) (\<lambda>rc.
     andthen (emit (Stdio (Fflush 1))) (return rc))))))"

definition eclone5_main :: "int eprog" where
  "eclone5_main =
     bind (do_test 0) (\<lambda>rc.
     if rc \<noteq> 0 then exit_with rc
     else bind (sysv (Proc (Malloc STACKSIZE))) (\<lambda>stack.
     if stack = 0 then andthen (emit (Stdio (Printf 152 [I STACKSIZE]))) (exit_with 1)
     else bind (sysv (Libc ''clone'' [S ''do_test'', I (stack + (STACKSIZE - 1)),
         I (SIGCHLD OR CLONE_NEWPID OR CLONE_NEWNS), I 1])) (\<lambda>pid.
     if pid < 0 then andthen (emit (Stdio (Printf 162 [I pid]))) (exit_with 1)
     else bind (sysv (Proc (Waitpid pid WALL))) (\<lambda>rc.
     if rc < 0 then andthen (block [emit (Stdio (Printf 169 [I rc])), emit (Stdio (Fflush 1))]) (exit_with 1)
     else exit_with 0))))"

section \<open>What the exit status says\<close>

text \<open>
  The last answer of \<open>eclone\<close> in a run, and the kernel that allows every answer and remembers this
  one. A theorem about it holds for every \<open>eclone\<close>.
\<close>

fun eclone_answer :: "event list \<Rightarrow> resp option \<Rightarrow> resp option" where
  "eclone_answer (Got (Libc n args) r # es) a = eclone_answer es (if n = ''eclone'' then Some r else a)"
| "eclone_answer (e # es) a = eclone_answer es a"
| "eclone_answer [] a = a"

definition any_eclone :: "resp option kernel" where
  "any_eclone = \<lparr>answers = (\<lambda>c r a. Some (case c of Libc n args \<Rightarrow> if n = ''eclone'' then Some r else a | _ \<Rightarrow> a)),
     effect = (\<lambda>c a. a)\<rparr>"

lemma any_eclone_sel [simp]:
  "answers any_eclone c r a = Some (case c of Libc n args \<Rightarrow> if n = ''eclone'' then Some r else a | _ \<Rightarrow> a)"
  "effect any_eclone c a = a"
  by (simp_all add: any_eclone_def)

lemma run_any_eclone: "run_kernel any_eclone a es = Some (eclone_answer es a)"
proof (induction es arbitrary: a)
  case (Cons e es)
  then show ?case
    by (cases "(e # es, a)" rule: eclone_answer.cases) (auto split: call.split)
qed simp

lemma ends_any:
  assumes "wp any_eclone p (\<lambda>_ _ _. False) E None s"
  shows "case p s of Exited c t \<Rightarrow> E c (eclone_answer (since s t) None) | Blocked t \<Rightarrow> True | _ \<Rightarrow> False"
  using wp_ends [OF assms run_any_eclone] by (simp split: outcome.splits)

definition refused :: "int \<Rightarrow> resp option \<Rightarrow> bool" where
  "refused e a \<longleftrightarrow> (case a of None \<Rightarrow> False | Some r \<Rightarrow> rv r < 0 \<and> er r = e)"

definition accepted :: "resp option \<Rightarrow> bool" where
  "accepted a \<longleftrightarrow> (case a of None \<Rightarrow> False | Some r \<Rightarrow> rv r \<ge> 0)"

lemma refused_simps [simp]: "\<not> refused e None" "refused e (Some r) \<longleftrightarrow> rv r < 0 \<and> er r = e"
  and accepted_simps [simp]: "\<not> accepted None" "accepted (Some r) \<longleftrightarrow> rv r \<ge> 0"
  by (simp_all add: refused_def accepted_def)

lemma appending_when_verbose [append_intros]: "appending p \<Longrightarrow> appending (when_verbose p)"
  unfolding when_verbose_def by (intro append_intros)

lemma appending_print_ids [append_intros]: "appending (print_ids n args)"
  unfolding print_ids_def by (intro append_intros)

lemma appending_print_pid [append_intros]: "appending (print_pid n args)"
  unfolding print_pid_def by (intro append_intros)

lemma appending_do_eclone [append_intros]: "appending (do_eclone l l' l'' extra fn arg fl nr ps)"
  unfolding do_eclone_def Let_def by (intro append_intros)

lemma appending_wait_child [append_intros]: "appending (wait_child off pid)"
  unfolding wait_child_def print_status_def by (intro append_intros)

text \<open>Messages change neither what the kernel remembers nor \<open>errno\<close>.\<close>

lemma wp_print_ids [wp_rules]:
  assumes "\<And>t. errno t = errno s \<Longrightarrow> wp any_eclone (f ()) Q E a t" and "appending (f ())"
  shows "wp any_eclone (bind (print_ids n args) f) Q E a s"
  unfolding print_ids_def by (intro wp_rules append_intros assms) (simp_all add: assms)

lemma wp_print_pid [wp_rules]:
  assumes "\<And>t. errno t = errno s \<Longrightarrow> wp any_eclone (f ()) Q E a t" and "appending (f ())"
  shows "wp any_eclone (bind (print_pid n args) f) Q E a s"
  unfolding print_pid_def by (intro wp_rules append_intros assms) (simp_all add: assms)

lemma wp_when_verbose [wp_rules]:
  "wp K (bind p f) Q E a s \<Longrightarrow> wp K (f ()) Q E a s \<Longrightarrow> wp K (bind (when_verbose p) f) Q E a s"
  unfolding when_verbose_def by (intro wp_rules) simp_all

lemma wp_print_status [wp_rules]:
  assumes "\<And>t. errno t = errno s \<Longrightarrow> wp any_eclone (f ()) Q E a t" and "appending (f ())"
  shows "wp any_eclone (bind (print_status l l' st) f) Q E a s"
  unfolding print_status_def by (intro wp_rules append_intros assms) (simp_all add: assms)

lemma wp_do_eclone [wp_rules]:
  assumes "\<And>r t. errno t = er r \<Longrightarrow> wp any_eclone (f (rv r)) Q E (Some r) t" and "E 1 a"
    and "\<And>x. appending (f x)"
  shows "wp any_eclone (bind (do_eclone l l' l'' extra fn arg fl nr ps) f) Q E a s"
  unfolding do_eclone_def Let_def
  by (intro wp_rules append_intros assms(3)) (auto simp: assms eclone_def)

lemma wp_wait_child:
  assumes "E 0 a"
  shows "wp any_eclone (wait_child off pid) Q E a s"
  unfolding wait_child_def
  by (intro wp_rules append_intros) (use assms in \<open>auto simp: print_status_def intro!: append_intros\<close>)

text \<open>
  \<open>zero_iff p P\<close>: \<open>p\<close> never crashes, and when it ends its exit status is 0 exactly if \<open>P\<close> holds of
  what \<open>eclone\<close> answered.
\<close>

definition zero_iff :: "int eprog \<Rightarrow> (resp option \<Rightarrow> bool) \<Rightarrow> int proc \<Rightarrow> bool" where
  "zero_iff p P s \<longleftrightarrow>
     (case p s of Exited c t \<Rightarrow> c = 0 \<longleftrightarrow> P (eclone_answer (since s t) None) | Blocked t \<Rightarrow> True | _ \<Rightarrow> False)"

lemma zero_iffI: "wp any_eclone p (\<lambda>_ _ _. False) (\<lambda>c a. c = 0 \<longleftrightarrow> P a) None s \<Longrightarrow> zero_iff p P s"
  unfolding zero_iff_def by (rule ends_any)

lemma zero_iff_do_eclone3: "zero_iff (bind (do_eclone3 extra fn arg fl nr ps) (wait_child off)) (refused EINVAL) s"
  unfolding do_eclone3_def by (intro zero_iffI wp_rules append_intros) auto

text \<open>
  \<^bold>\<open>C37.\<close> Whatever \<open>eclone\<close> answers, the programs that expect it to refuse a request end with status
  0 exactly if it refused it with the errno they ask for: \<open>EBUSY\<close> for a pid in use, \<open>EINVAL\<close> for a
  reserved field that is not 0 and for unknown high flags. The first program, whose child
  checks its own pid, ends with status 0 exactly if \<open>eclone\<close> made a child: neither the pid the
  child got nor the status it ended with counts.
\<close>

theorem eclone_tests_verdict:
  "zero_iff eclone1_main accepted s \<and> zero_iff eclone2_main (refused EBUSY) s \<and>
   zero_iff eclone3_main (refused EINVAL) s \<and> zero_iff eclone4_main (refused EINVAL) s"
proof (intro conjI)
  show "zero_iff eclone1_main accepted s"
    unfolding eclone1_main_def do_eclone1_def
    by (intro zero_iffI wp_rules wp_wait_child append_intros) auto
  show "zero_iff eclone2_main (refused EBUSY) s"
    unfolding eclone2_main_def do_eclone2_def
    by (intro zero_iffI wp_rules append_intros) (auto simp: errno_defs print_status_def intro!: append_intros)
qed (simp_all add: eclone3_main_def eclone4_main_def zero_iff_do_eclone3)

text \<open>The child of the first program tells a wrong pid by its exit status.\<close>

lemma do_child1_status:
  assumes "script s = [tid]"
  shows "\<exists>t. do_child1 arg s = Exited (if arg \<noteq> CHILD_ARG then 1 else if rv tid \<noteq> CHILD_TID1 then 2 else 0) t"
  using assms by (auto simp: do_child1_def print_pid_def prog_simps)

section \<open>eclone-5.c\<close>

lemma appending_do_test [append_intros]: "appending (do_test n)"
  unfolding do_test_def do_eclone5_def Let_def by (intro append_intros)

lemma wp_do_test:
  "wp any_eclone (do_test n)
     (\<lambda>rc a t. rc \<in> {0, 1} \<and> (rc = 0 \<longleftrightarrow> (if n = 0 then refused EINVAL a else accepted a \<and> rv (the a) \<noteq> 0)))
     (\<lambda>c a. c = 1 \<and> a = None) None s"
  unfolding do_test_def do_eclone5_def Let_def
  by (intro wp_rules append_intros) (auto simp: errno_defs)

text \<open>
  The test of eclone-5.c itself is right: asked for two pids, it reports success in the
  first namespace exactly if \<open>eclone\<close> refused with \<open>EINVAL\<close>, and in a nested one exactly if \<open>eclone\<close>
  made a child; but the program as a whole ends with status 0 as soon as the nested test has
  ended, whatever it reported.
\<close>

theorem nested_verdict_lost:
  "(case do_test n s of
      Done rc t \<Rightarrow> rc = 0 \<longleftrightarrow> (let a = eclone_answer (since s t) None in
        if n = 0 then refused EINVAL a else accepted a \<and> rv (the a) \<noteq> 0)
    | Exited c t \<Rightarrow> c = 1 | Blocked t \<Rightarrow> True | Crashed t \<Rightarrow> False) \<and>
   (\<exists>t. eclone5_main (start [ok 4096, ok 8192, failed EINVAL, ok 16384, ok pid, r] None 0) =
      Exited (if pid < 0 then 1 else if rv r < 0 then 1 else 0) t)"
proof
  show "case do_test n s of
      Done rc t \<Rightarrow> rc = 0 \<longleftrightarrow> (let a = eclone_answer (since s t) None in
        if n = 0 then refused EINVAL a else accepted a \<and> rv (the a) \<noteq> 0)
    | Exited c t \<Rightarrow> c = 1 | Blocked t \<Rightarrow> True | Crashed t \<Rightarrow> False"
    using wp_do_test [of n s] by (cases "do_test n s") (auto simp: wp_def run_any_eclone Let_def)
  show "\<exists>t. eclone5_main (start [ok 4096, ok 8192, failed EINVAL, ok 16384, ok pid, r] None 0) =
      Exited (if pid < 0 then 1 else if rv r < 0 then 1 else 0) t"
    by (auto simp: eclone5_main_def do_test_def do_eclone5_def do_eclone_def Let_def when_verbose_def
        print_pid_def prog_simps)
qed

end
