(* ===== verification/Userns.thy ===== *)
theory Userns
  imports Kernel Mounts Getopt
begin

text \<open>
  userns/: processes in nested user namespaces (userns_ckptme.c, userns_deep.c, and simple_deep.c,
  the same chain of processes without namespaces), a process with securebits (sbits.c) and one
  that has given up root (usertask.c). They tell the script that checkpoints them how far they
  are, and wait for it, by files.
\<close>

type_synonym 'a uprog = "(unit, 'a) prog"

definition CLONE_NEWUSER :: int where "CLONE_NEWUSER = 0x10000000"
definition MODE_0755 :: int where "MODE_0755 = 493"

text \<open>\<open>wait_on\<close>, and \<open>wait_on_checkpoint\<close> of sbits.c: the file is polled without a pause.\<close>

definition stat_ok :: "string \<Rightarrow> int uprog" where
  "stat_ok fnam = bind (sysv (Libc ''stat'' [S fnam])) (\<lambda>ret. return (if ret = 0 then 1 else 0))"

definition wait_on :: "string \<Rightarrow> unit uprog" where
  "wait_on fnam = poll (stat_ok fnam) (return ())"

interpretation st: poll_loop "stat_ok fnam" "return ()" for fnam
  by unfold_locales
    (auto simp: stat_ok_def intro!: consuming_bind consuming_sysv shrink_intros append_intros)

lemma appending_wait_on [append_intros]: "appending (wait_on fnam)"
  unfolding wait_on_def by (rule st.appending_poll)

text \<open>A kernel whose state does not change while the file is polled has the same state after it.\<close>

lemma wp_wait_on:
  assumes stat: "\<And>r k'. answers K (Libc ''stat'' [S fnam]) r k = Some k' \<Longrightarrow> k' = k"
    and rest: "\<And>t. wp K (f ()) Q E k t" and "appending (f ())"
  shows "wp K (bind (wait_on fnam) f) Q E k s"
proof (rule wp_seq [where R = "\<lambda>_ k' _. k' = k"])
  show "wp K (wait_on fnam) (\<lambda>_ k' _. k' = k) E k s"
    unfolding wait_on_def
  proof (rule st.wp_poll [where Inv = "\<lambda>k' _. k' = k"])
    fix k' s assume "k' = k"
    then show "wp K (stat_ok fnam) (\<lambda>d k' t. if d = 0 then wp K (return ()) (\<lambda>_ k' _. k' = k) E k' t else k' = k) E k' s"
      unfolding stat_ok_def by (intro wp_rules append_intros) (auto dest: stat intro: wp_rules)
  qed simp
qed (use assms in \<open>auto intro: append_intros\<close>)

section \<open>The chain of processes\<close>

definition write_status :: "nat \<Rightarrow> unit uprog" where
  "write_status l =
     bind (sysv (Stdio (Fopen ''sandbox/status'' ''w''))) (\<lambda>fout.
     if fout < 0 then return ()
     else bind (sysv (Proc Getpid)) (\<lambda>pid.
     bind (sysv (Libc ''getuid'' [])) (\<lambda>uid.
     block [emit (Stdio (FprintfTo fout l [I pid, I uid])), emit (Stdio (Fflush fout)), emit (Stdio (Fclose fout))])))"

text \<open>The process at the end of the chain; \<open>drop\<close> is whether it gives up its uid first.\<close>

definition last_child :: "nat \<Rightarrow> bool \<Rightarrow> int uprog" where
  "last_child l dr =
     andthen (block
       [if dr then block [emit (Libc ''setgid'' [I 500]), emit (Libc ''setuid'' [I 500])] else return (),
        emit (Unistd (Creat ''sandbox/started'' MODE_0755)),
        wait_on ''sandbox/go'', write_status l,
        emit (Unistd (Creat ''sandbox/written'' MODE_0755)),
        wait_on ''sandbox/die'']) (exit_with 1)"

text \<open>
  \<open>do_clone\<close>: \<open>clone\<close> starts \<open>do_child\<close> in a new process with the decremented depth. The stack is
  \<open>malloc\<close>ed and handed over by its upper end.
\<close>

definition do_clone :: "int \<Rightarrow> int \<Rightarrow> int uprog" where
  "do_clone flags depth =
     bind (sysv (Thread Getpagesize)) (\<lambda>ps.
     bind (sysv (Proc (Malloc (4 * ps)))) (\<lambda>stack.
     if stack = 0 then return (-1)
     else bind (sysv (Libc ''clone'' [S ''do_child'', I (stack + 4 * ps), I flags, I (depth - 1)])) (\<lambda>pid.
     if pid = -1 then return (-1)
     else andthen (wait_on ''sandbox/die'') (return 0))))"

text \<open>The function the new process runs; what it returns is its exit status.\<close>

definition do_child :: "nat \<Rightarrow> int \<Rightarrow> bool \<Rightarrow> int \<Rightarrow> int uprog" where
  "do_child l flags dr depth =
     (if depth \<noteq> 0 then bind (do_clone flags depth) exit_with else last_child l dr)"

definition enter_and_close :: "nat \<Rightarrow> arg list \<Rightarrow> string \<Rightarrow> int uprog \<Rightarrow> int uprog" where
  "enter_and_close l args freezer p =
     bind (sysv (Proc Getpid)) (\<lambda>pid.
     bind (move_to_cgroup ''freezer'' freezer pid) (\<lambda>m.
     if m = 0 then andthen (emit (Stdio (Printf l args))) (exit_with 1)
     else andthen (block (map (\<lambda>i. emit (Unistd (Close i))) [0, 1, 2, 3])) p))"

definition print_pid :: "nat \<Rightarrow> unit uprog" where
  "print_pid l = bind (sysv (Proc Getpid)) (\<lambda>pid.
     block [emit (Stdio (Printf l [I pid])), emit (Stdio (Fflush 1))])"

definition arg1 :: "string list \<Rightarrow> string" where
  "arg1 argv = (if length argv > 1 then argv ! 1 else ''1'')"

definition simple_deep_main :: "string list \<Rightarrow> int uprog" where
  "simple_deep_main argv = andthen (print_pid 88)
     (enter_and_close 91 [S (arg1 argv)] (arg1 argv) (bind (do_clone 0 30) exit_with))"

definition userns_deep_main :: "string list \<Rightarrow> int uprog" where
  "userns_deep_main argv = andthen (print_pid 88)
     (enter_and_close 94 [] (arg1 argv) (bind (do_clone CLONE_NEWUSER 30) exit_with))"

text \<open>userns_ckptme.c is a chain of one: its \<open>do_clone\<close> hands a null pointer to \<open>do_child\<close>.\<close>

definition ckptme_do_child :: "int uprog" where
  "ckptme_do_child = last_child 24 True"

definition ckptme_main :: "string list \<Rightarrow> int uprog" where
  "ckptme_main argv = andthen (print_pid 81)
     (enter_and_close 84 [S (arg1 argv)] (arg1 argv) (bind (do_clone CLONE_NEWUSER 1) exit_with))"

subsection \<open>How long the chain gets\<close>

text \<open>
  The argument of a \<open>clone\<close> that succeeded, and the processes that follow from one: each runs with
  its own answers. A process that has cloned another is followed by it.
\<close>

fun cloned :: "event list \<Rightarrow> int option" where
  "cloned (Got (Libc n [S f, I st, I fl, I d]) r # es) =
     (if n = ''clone'' \<and> rv r \<noteq> -1 then Some d else cloned es)"
| "cloned (e # es) = cloned es"
| "cloned [] = None"

fun chain :: "(int \<Rightarrow> int uprog) \<Rightarrow> int uprog \<Rightarrow> resp list list \<Rightarrow> (int, unit proc) outcome list" where
  "chain child p [] = []"
| "chain child p (sc # scs) =
     (let x = p (start sc None ()) in
      x # (case cloned (trace (final x)) of None \<Rightarrow> [] | Some d \<Rightarrow> chain child (child d) scs))"

definition says_started :: "(int, unit proc) outcome \<Rightarrow> bool" where
  "says_started x \<longleftrightarrow> Did (Unistd (Creat ''sandbox/started'' MODE_0755)) \<in> set (trace (final x))"

text \<open>The answers of a process whose \<open>malloc\<close> and \<open>clone\<close> succeed.\<close>

definition clones :: "resp list \<Rightarrow> bool" where
  "clones sc \<longleftrightarrow> length sc \<ge> 3 \<and> rv (sc ! 1) \<noteq> 0 \<and> rv (sc ! 2) \<noteq> -1"

lemma cloned_append: "cloned (es @ fs) = (case cloned es of None \<Rightarrow> cloned fs | Some d \<Rightarrow> Some d)"
  by (induction es rule: cloned.induct) auto

lemma only_wait_on [only_intros]:
  "(\<And>r. P (Got (Libc ''stat'' [S fnam]) r)) \<Longrightarrow> P (Pending (Libc ''stat'' [S fnam])) \<Longrightarrow> only P (wait_on fnam)"
  unfolding wait_on_def stat_ok_def
  by (intro st.only_poll [unfolded stat_ok_def] only_intros) simp_all

lemma do_child_simps:
  "do_child l flags dr 0 = last_child l dr"
  "d \<noteq> 0 \<Longrightarrow> do_child l flags dr d = bind (do_clone flags d) exit_with"
  by (simp_all add: do_child_def)

lemma says_startedI: "only (\<lambda>e. e \<noteq> Did (Unistd (Creat ''sandbox/started'' MODE_0755))) p \<Longrightarrow>
    \<not> says_started (p (start sc None ()))"
  using onlyD [of "\<lambda>e. e \<noteq> Did (Unistd (Creat ''sandbox/started'' MODE_0755))" p _ "start sc None ()"]
  by (auto simp: says_started_def since_def)

lemma not_started: "d \<noteq> 0 \<Longrightarrow> \<not> says_started (do_child l flags dr d (start sc None ()))"
  unfolding do_child_simps do_clone_def by (intro says_startedI only_intros) simp_all

lemma last_started: "says_started (do_child l flags dr 0 (start sc None ()))"
proof -
  let ?c = "Did (Unistd (Creat ''sandbox/started'' MODE_0755))"
  define rest where "rest = andthen (block [wait_on ''sandbox/go'', write_status l,
      emit (Unistd (Creat ''sandbox/written'' MODE_0755)), wait_on ''sandbox/die'']) (exit_with 1 :: int uprog)"
  have g: "grows t (final (rest t))" for t
    unfolding rest_def write_status_def by (rule appendingD) (intro append_intros)
  define es where "es = (if dr then [Did (Libc ''setgid'' [I 500]), Did (Libc ''setuid'' [I 500])] else [])"
  have "do_child l flags dr 0 (start sc None ()) = rest (adv (start sc None ()) (es @ [?c]) sc 0)"
    by (simp add: do_child_simps last_child_def rest_def es_def prog_simps)
  with g [of "adv (start sc None ()) (es @ [?c]) sc 0"] show ?thesis
    by (auto simp: says_started_def grows_def)
qed

text \<open>A process that is not the last one has cloned the next, the last one clones nothing.\<close>

lemma cloned_next:
  assumes "clones sc" and "d \<noteq> 0"
  shows "cloned (trace (final (do_child l flags dr d (start sc None ())))) = Some (d - 1)"
proof -
  obtain a b c rest where sc: "sc = a # b # c # rest" and ok: "rv b \<noteq> 0" "rv c \<noteq> -1"
    using assms(1) by (auto simp: clones_def Suc_le_length_iff numeral_3_eq_3)
  define done_when where "done_when = bind (wait_on ''sandbox/die'') (\<lambda>_. exit_with 0 :: int uprog)"
  have "grows t (final (done_when t))" for t
    unfolding done_when_def by (rule appendingD) (intro append_intros)
  then have "cloned (trace (final (done_when t))) = Some x" if "cloned (trace t) = Some x" for t x
    using that by (metis cloned_append grows_def option.simps(5))
  moreover have "exit_with 0 = (Exited 0 :: int uprog)" by (simp add: exit_with_def fun_eq_iff)
  then have "do_child l flags dr d (start sc None ()) = done_when
      (adv (start sc None ()) [Got (Thread Getpagesize) a, Got (Proc (Malloc (4 * rv a))) b,
        Got (Libc ''clone'' [S ''do_child'', I (rv b + 4 * rv a), I flags, I (d - 1)]) c] rest (er c))"
    using assms(2) ok by (simp add: do_child_simps do_clone_def done_when_def sc prog_simps bind_return_fun)
  ultimately show ?thesis using ok by simp
qed

lemma cloned_last: "cloned (trace (final (do_child l flags dr 0 (start sc None ())))) = None"
proof -
  let ?P = "\<lambda>e. case e of Got (Libc n _) r \<Rightarrow> n \<noteq> ''clone'' | _ \<Rightarrow> True"
  have none: "cloned es = None" if "\<forall>e\<in>set es. ?P e" for es
    using that by (induction es rule: cloned.induct) (auto split: event.splits call.splits)
  have "only ?P (do_child l flags dr 0)"
    unfolding do_child_simps last_child_def write_status_def by (intro only_intros) simp_all
  then show ?thesis using onlyD [of ?P _ _ "start sc None ()"] by (intro none) (auto simp: since_def)
qed

lemma chain_eq:
  "n < length scs \<Longrightarrow> list_all clones (take n scs) \<Longrightarrow>
   chain (do_child l flags dr) (do_child l flags dr (int n)) scs =
     map (\<lambda>i. do_child l flags dr (int n - int i) (start (scs ! i) None ())) [0..<Suc n]"
proof (induction n arbitrary: scs)
  case 0
  then show ?case by (cases scs) (simp_all add: cloned_last Let_def)
next
  case (Suc n)
  then obtain sc scs' where scs: "scs = sc # scs'" by (cases scs) auto
  with Suc have "chain (do_child l flags dr) (do_child l flags dr (int n)) scs' =
      map (\<lambda>i. do_child l flags dr (int n - int i) (start (scs' ! i) None ())) [0..<Suc n]" by simp
  moreover have "clones sc" using Suc scs by simp
  ultimately show ?case
    using scs cloned_next [of sc "int (Suc n)"] by (simp add: Let_def upt_conv_Cons map_Suc_upt [symmetric] diff_diff_eq add.commute del: upt_Suc)
qed

text \<open>
  \<^bold>\<open>C38.\<close> A chain of depth \<open>n\<close> in which every \<open>malloc\<close> and every \<open>clone\<close> succeeds has \<open>n + 1\<close>
  processes, and only the last of them creates the file that tells the script that the chain is
  complete.
\<close>

theorem chain_complete:
  assumes "n < length scs" and "list_all clones (take n scs)"
  shows "let ps = chain (do_child l flags dr) (do_child l flags dr (int n)) scs in
    length ps = n + 1 \<and> (\<forall>i\<le>n. says_started (ps ! i) \<longleftrightarrow> i = n)"
proof -
  have "says_started (do_child l flags dr (int n - int i) (start sc None ())) \<longleftrightarrow> i = n" if "i \<le> n" for i sc
    using not_started [of "int n - int i"] last_started that by auto
  then show ?thesis unfolding chain_eq [OF assms] by (simp add: Let_def less_Suc_eq_le del: upt_Suc)
qed

text \<open>The chain of userns_deep.c.\<close>

theorem chain_complete_witness:
  "let ps = chain (do_child 26 CLONE_NEWUSER True) (do_child 26 CLONE_NEWUSER True (int 30))
       (replicate 31 [ok 4096, ok 8192, ok 77]) in
    length ps = 31 \<and> says_started (ps ! 30) \<and> \<not> says_started (ps ! 0)"
  using chain_complete [where n = 30 and scs = "replicate 31 [ok 4096, ok 8192, ok 77]" and l = 26
      and flags = CLONE_NEWUSER and dr = True]
  by (auto simp: clones_def Let_def list_all_iff)

section \<open>sbits.c\<close>

definition PR_SET_KEEPCAPS :: int where "PR_SET_KEEPCAPS = 8"
definition PR_GET_SECUREBITS :: int where "PR_GET_SECUREBITS = 27"
definition PR_SET_SECUREBITS :: int where "PR_SET_SECUREBITS = 28"
definition NOROOT :: int where "NOROOT = 1 OR 4"
definition NOROOT_LOCK :: int where "NOROOT_LOCK = 2 OR 8"

definition sbits_usage :: "string \<Rightarrow> 'a uprog" where
  "sbits_usage me = andthen (block (map (\<lambda>(l, as). emit (Stdio (Printf l as)))
     [(38, [S me]), (39, []), (40, []), (41, []), (42, [])])) (exit_with 1)"

text \<open>The options: \<open>keepcaps\<close>, \<open>noroot\<close>, \<open>locked\<close>, \<open>freezer\<close>; \<open>None\<close> at an unknown one.\<close>

fun sbits_options :: "options \<Rightarrow> bool \<times> bool \<times> bool \<times> string \<Rightarrow> (bool \<times> bool \<times> bool \<times> string) option" where
  "sbits_options [] st = Some st"
| "sbits_options ((c, optarg) # os) (kc, nr, lk, fr) =
     (if c = CHR ''k'' then sbits_options os (True, nr, lk, fr)
      else if c = CHR ''r'' then sbits_options os (kc, True, lk, fr)
      else if c = CHR ''l'' then sbits_options os (kc, nr, True, fr)
      else if c = CHR ''f'' then sbits_options os (kc, nr, lk, the optarg)
      else None)"

text \<open>The three reports. \<open>fopen\<close> is not checked: printing to a null stream is undefined.\<close>

definition report_bits :: "nat \<Rightarrow> unit uprog" where
  "report_bits l =
     bind (sysv (Net (Prctl PR_GET_SECUREBITS 0))) (\<lambda>bits.
     bind (sysv (Stdio (Fopen ''outfile'' ''a''))) (\<lambda>fout.
     bind (sysv (Proc Getpid)) (\<lambda>pid.
     if fout < 0 then crash
     else block [emit (Stdio (FprintfTo fout l [I pid, I bits])), emit (Stdio (Fflush fout)), emit (Stdio (Fclose fout))])))"

definition prctl_or_usage :: "string \<Rightarrow> nat \<Rightarrow> int \<Rightarrow> int \<Rightarrow> unit uprog" where
  "prctl_or_usage me l opt v =
     bind (sysv (Net (Prctl opt v))) (\<lambda>r.
     if r = -1 then andthen (emit (Stdio (Perror l))) (sbits_usage me) else return ())"

definition sbits_test :: "string \<Rightarrow> bool \<Rightarrow> bool \<Rightarrow> bool \<Rightarrow> int uprog" where
  "sbits_test me keepcaps noroot locked =
     andthen (block
       [report_bits 89,
        if keepcaps then prctl_or_usage me 94 PR_SET_KEEPCAPS 1 else return (),
        if noroot then prctl_or_usage me 102 PR_SET_SECUREBITS (if locked then NOROOT OR NOROOT_LOCK else NOROOT)
        else return (),
        emit (Unistd (Close 0)), emit (Unistd (Close 1)), emit (Unistd (Close 2)), emit (Unistd (Close 3)),
        report_bits 114,
        emit (Unistd (Creat ''started'' MODE_0755)),
        wait_on ''checkpointed'',
        report_bits 124,
        emit (Unistd (Creat ''finished'' MODE_0755))]) (exit_with 0)"

definition sbits_main :: "string list \<Rightarrow> int uprog" where
  "sbits_main argv =
     (case sbits_options (fst (getopt ''krlf:'' (tl argv))) (False, False, False, ''1'') of
        None \<Rightarrow> sbits_usage (hd argv)
      | Some (keepcaps, noroot, locked, freezer) \<Rightarrow>
          bind (sysv (Proc Getpid)) (\<lambda>pid.
          bind (move_to_cgroup ''freezer'' freezer pid) (\<lambda>m.
          if m = 0 then andthen (emit (Stdio (Printf 83 []))) (exit_with 1)
          else sbits_test (hd argv) keepcaps noroot locked)))"

subsection \<open>Securebits\<close>

text \<open>
  The kernel's securebits of a privileged process, with none of them locked: the keepcaps flag is
  one of them (bit 4), setting the securebits replaces them all. \<open>reports\<close> are the values in
  the output file.
\<close>

record bits_state =
  bits :: int
  reports :: "int list"

definition bits_answers :: "call \<Rightarrow> resp \<Rightarrow> bits_state \<Rightarrow> bits_state option" where
  "bits_answers c r k =
     (case c of
        Net (Prctl opt v) \<Rightarrow>
          if opt = PR_GET_SECUREBITS then if rv r = bits k then Some k else None
          else if rv r \<noteq> 0 then None
          else if opt = PR_SET_KEEPCAPS then Some (k\<lparr>bits := bits k OR 16\<rparr>)
          else if opt = PR_SET_SECUREBITS then Some (k\<lparr>bits := v\<rparr>) else Some k
      | Stdio (Fopen p m) \<Rightarrow> if 0 \<le> rv r then Some k else None
      | _ \<Rightarrow> Some k)"

definition bits_effect :: "call \<Rightarrow> bits_state \<Rightarrow> bits_state" where
  "bits_effect c k = (case c of Stdio (FprintfTo f l [I p, I b]) \<Rightarrow> k\<lparr>reports := reports k @ [b]\<rparr> | _ \<Rightarrow> k)"

definition bits_kernel :: "bits_state kernel" where
  "bits_kernel = \<lparr>answers = bits_answers, effect = bits_effect\<rparr>"

lemma bits_kernel_sel [simp]: "answers bits_kernel = bits_answers" "effect bits_kernel = bits_effect"
  by (simp_all add: bits_kernel_def)

lemma appending_report_bits [append_intros]: "appending (report_bits l)"
  unfolding report_bits_def by (intro append_intros)

lemma appending_prctl_or_usage [append_intros]: "appending (prctl_or_usage me l opt v)"
  unfolding prctl_or_usage_def sbits_usage_def by (auto intro!: append_intros)

lemma wp_report_bits:
  assumes "\<And>t. wp bits_kernel (f ()) Q E (k\<lparr>reports := reports k @ [bits k]\<rparr>) t" and "appending (f ())"
  shows "wp bits_kernel (bind (report_bits l) f) Q E k s"
  unfolding report_bits_def
  by (intro wp_rules append_intros assms) (auto simp: bits_answers_def bits_effect_def assms split: if_splits)

lemma wp_prctl:
  assumes "\<And>t. opt = PR_SET_KEEPCAPS \<Longrightarrow> wp bits_kernel (f ()) Q E (k\<lparr>bits := bits k OR 16\<rparr>) t"
    and "\<And>t. opt = PR_SET_SECUREBITS \<Longrightarrow> wp bits_kernel (f ()) Q E (k\<lparr>bits := v\<rparr>) t"
    and "opt \<in> {PR_SET_KEEPCAPS, PR_SET_SECUREBITS}" and "appending (f ())"
  shows "wp bits_kernel (bind (prctl_or_usage me l opt v) f) Q E k s"
proof -
  have d: "PR_SET_KEEPCAPS \<noteq> PR_GET_SECUREBITS" "PR_SET_SECUREBITS \<noteq> PR_GET_SECUREBITS" "PR_SET_KEEPCAPS \<noteq> PR_SET_SECUREBITS"
    by (simp_all add: PR_SET_KEEPCAPS_def PR_GET_SECUREBITS_def PR_SET_SECUREBITS_def)
  show ?thesis
    unfolding prctl_or_usage_def
    by (intro wp_rules append_intros assms) (use assms d in \<open>auto simp: bits_answers_def sbits_usage_def intro!: append_intros split: if_splits\<close>)
qed

text \<open>
  Run with the privilege to set them and restored exactly, \<open>sbits\<close> ends with status 0 and
  reports three values: the securebits it started with, and twice those it has set, before and
  after the checkpoint. \<open>-r\<close> replaces all of them, so that \<open>-k\<close> has no effect beside it, and \<open>-l\<close>
  has none without it.
\<close>

theorem sbits_reports:
  assumes "reports k = []"
    and "run_kernel bits_kernel k (since s (final (sbits_test me keepcaps noroot locked s))) = Some k'"
  shows "case sbits_test me keepcaps noroot locked s of
      Exited c t \<Rightarrow> c = 0 \<and>
        (let b = (if noroot then if locked then 15 else 5 else if keepcaps then bits k OR 16 else bits k) in
         reports k' = [bits k, b, b])
    | Blocked t \<Rightarrow> True | _ \<Rightarrow> False"
proof -
  have b: "NOROOT = 5" "NOROOT_LOCK = 10" by (simp_all add: NOROOT_def NOROOT_LOCK_def)
  have "wp bits_kernel (sbits_test me keepcaps noroot locked) (\<lambda>_ _ _. False)
      (\<lambda>c k'. c = 0 \<and>
        (let b = (if noroot then if locked then 15 else 5 else if keepcaps then bits k OR 16 else bits k) in
         reports k' = [bits k, b, b])) k s"
    unfolding sbits_test_def
    by (intro wp_rules append_intros wp_report_bits wp_prctl wp_wait_on)
      (auto simp: assms(1) b bits_effect_def bits_answers_def PR_SET_KEEPCAPS_def PR_SET_SECUREBITS_def Let_def)
  from wp_ends [OF this assms(2)] show ?thesis .
qed

text \<open>A run with \<open>-k -r\<close>.\<close>

definition sbits_run :: "unit proc" where
  "sbits_run = start [ok 0, ok 3, ok 77, ok 0, ok 0, ok 5, ok 0, ok 77, failed ENOENT, ok 0, ok 5, ok 0, ok 77] None ()"

theorem sbits_reports_witness:
  "case run_kernel bits_kernel \<lparr>bits = 0, reports = []\<rparr>
     (since sbits_run (final (sbits_test ''sbits'' True True False sbits_run))) of
     None \<Rightarrow> False | Some k' \<Rightarrow> reports k' = [0, 5, 5]"
proof -
  let ?p = "sbits_test ''sbits'' True True False" and ?k = "\<lparr>bits = 0, reports = []\<rparr>"
  have "run_kernel bits_kernel ?k (since sbits_run (final (?p sbits_run))) \<noteq> None" by code_simp
  then obtain k' where k': "run_kernel bits_kernel ?k (since sbits_run (final (?p sbits_run))) = Some k'"
    by (cases "run_kernel bits_kernel ?k (since sbits_run (final (?p sbits_run)))") simp_all
  have "case ?p sbits_run of Exited c t \<Rightarrow> True | _ \<Rightarrow> False" by code_simp
  with sbits_reports [of ?k sbits_run "''sbits''" True True False k'] k' show ?thesis
    by (simp add: Let_def split: outcome.splits)
qed

section \<open>usertask.c\<close>

definition DIRNAME :: string where "DIRNAME = ''./sandbox''"
definition ERRFILE :: string where "ERRFILE = DIRNAME @ ''/error''"
definition OUTFILE :: string where "OUTFILE = DIRNAME @ ''/outfile''"

definition usertask_usage :: "string \<Rightarrow> 'a uprog" where
  "usertask_usage whoami = andthen (block (map (\<lambda>(l, as). emit (Stdio (Printf l as)))
     [(25, [S whoami]), (26, []), (27, []), (28, []), (29, []), (30, [])])) (exit_with 1)"

fun usertask_options :: "options \<Rightarrow> int \<times> int \<times> string \<Rightarrow> (int \<times> int \<times> string) option" where
  "usertask_options [] st = Some st"
| "usertask_options ((c, optarg) # os) (uid, gid, fr) =
     (if c = CHR ''f'' then usertask_options os (uid, gid, the optarg)
      else if c = CHR ''u'' then usertask_options os (atoi (the optarg), gid, fr)
      else if c = CHR ''g'' then usertask_options os (uid, atoi (the optarg), fr)
      else None)"

text \<open>
  The supplementary groups are read into a list of their number; an entry the kernel has not
  stored is undefined, as is a list that could not be allocated.
\<close>

definition print_groups :: "int \<Rightarrow> unit uprog" where
  "print_groups file =
     bind (sysv (Libc ''getgroups'' [I 0])) (\<lambda>ngrp.
     bind (sysv (Proc (Malloc (4 * ngrp)))) (\<lambda>grplist.
     bind (sys (Libc ''getgroups'' [I ngrp, I grplist])) (\<lambda>r.
     foreach (\<lambda>i. if grplist = 0 \<or> length (outs r) \<le> i then crash
       else emit (Stdio (FprintfTo file 118 [I (outs r ! i)]))) [0..<nat ngrp])))"

text \<open>\<open>main\<close> from the \<open>setgroups\<close> on, and its end from the second report on.\<close>

definition usertask_report :: "int \<Rightarrow> int uprog" where
  "usertask_report file =
     bind (sysv (Libc ''getuid'' [])) (\<lambda>u.
     bind (sysv (Libc ''getegid'' [])) (\<lambda>g.
     andthen (emit (Stdio (FprintfTo file 113 [I u, I g]))) (
     andthen (print_groups file) (
     bind (sysv (Dirent (Opendir ''/root''))) (\<lambda>d.
     andthen (if 0 \<le> d then block [emit (Unistd (Creat ERRFILE MODE_0755)), emit (Stdio (FprintfTo file 123 []))]
              else return ()) (
     andthen (block
       [emit (Stdio (Fflush file)), emit (Stdio (Fclose file)),
        emit (Unistd (Creat ''sandbox/readytodie'' MODE_0755)), wait_on ''sandbox/die'']) (exit_with 0)))))))"

definition usertask_test :: "int \<Rightarrow> int \<Rightarrow> int uprog" where
  "usertask_test uid gid =
     andthen (block
       [emit (Libc ''setgroups'' [I 0]), emit (Libc ''setgid'' [I gid]), emit (Libc ''setuid'' [I uid]),
        emit (Unistd (Unlink OUTFILE))]) (
     bind (sysv (Stdio (Fopen OUTFILE ''w+''))) (\<lambda>file.
     if file < 0 then andthen (emit (Stdio (Perror 100))) (exit_with 1)
     else bind (sysv (Unistd (Dup2 0 2))) (\<lambda>d.
     if d < 0 then andthen (emit (Stdio (Perror 105))) (exit_with 1)
     else andthen (block [emit (Unistd (Creat ''sandbox/started'' MODE_0755)), wait_on ''sandbox/go''])
       (usertask_report file))))"

definition usertask_main :: "string list \<Rightarrow> int uprog" where
  "usertask_main argv =
     bind (sysv (Libc ''getuid'' [])) (\<lambda>u.
     if u \<noteq> 0 then usertask_usage (hd argv)
     else andthen (block [emit (Unistd (Unlink ''ckpt.out'')), emit (Unistd (Unlink ''outfile''))]) (
     case usertask_options (fst (getopt ''f:u:g:'' (tl argv))) (501, 501, ''1'') of
       None \<Rightarrow> usertask_usage (hd argv)
     | Some (uid, gid, freezer) \<Rightarrow>
         bind (sysv (Proc Getpid)) (\<lambda>pid.
         bind (move_to_cgroup ''freezer'' freezer pid) (\<lambda>m.
         if m = 0 then andthen (emit (Stdio (Printf 85 [S freezer]))) (exit_with 1)
         else andthen (block [emit (Unistd (Close 0)), emit (Unistd (Close 1)), emit (Unistd (Close 2))])
           (usertask_test uid gid)))))"

subsection \<open>Credentials\<close>

text \<open>
  The credentials of the process: only root changes them, all ids at once and the groups to
  none, and only root opens \<open>/root\<close>. \<open>lines\<close> are the numbers of each line of the output file, \<open>made\<close>
  the files created. Memory is not short.
\<close>

record cred =
  uid :: int
  gid :: int
  groups :: "int list"
  lines :: "int list list"
  made :: "string list"

definition cred_answers :: "call \<Rightarrow> resp \<Rightarrow> cred \<Rightarrow> cred option" where
  "cred_answers c r k =
     (case c of
        Libc f args \<Rightarrow>
          if f = ''getuid'' then if rv r = uid k then Some k else None
          else if f = ''getegid'' then if rv r = gid k then Some k else None
          else if f = ''getgroups''
          then if rv r = int (length (groups k)) \<and> (length args = 2 \<longrightarrow> outs r = groups k) then Some k else None
          else Some k
      | Dirent (Opendir p) \<Rightarrow> if (0 \<le> rv r) = (uid k = 0) then Some k else None
      | Proc (Malloc n) \<Rightarrow> if rv r \<noteq> 0 then Some k else None
      | _ \<Rightarrow> Some k)"

definition cred_effect :: "call \<Rightarrow> cred \<Rightarrow> cred" where
  "cred_effect c k =
     (case c of
        Libc f [I v] \<Rightarrow>
          if uid k \<noteq> 0 then k
          else if f = ''setgroups'' then k\<lparr>groups := []\<rparr>
          else if f = ''setgid'' then k\<lparr>gid := v\<rparr>
          else if f = ''setuid'' then k\<lparr>uid := v\<rparr> else k
      | Unistd (Creat p m) \<Rightarrow> k\<lparr>made := made k @ [p]\<rparr>
      | Stdio (FprintfTo f l args) \<Rightarrow> k\<lparr>lines := lines k @ [concat (map (\<lambda>a. case a of I v \<Rightarrow> [v] | _ \<Rightarrow> []) args)]\<rparr>
      | _ \<Rightarrow> k)"

definition cred_kernel :: "cred kernel" where
  "cred_kernel = \<lparr>answers = cred_answers, effect = cred_effect\<rparr>"

lemma cred_kernel_sel [simp]: "answers cred_kernel = cred_answers" "effect cred_kernel = cred_effect"
  by (simp_all add: cred_kernel_def)

lemma appending_print_groups [append_intros]: "appending (print_groups file)"
  unfolding print_groups_def by (intro append_intros)

lemma wp_print_groups:
  assumes "groups k = []" and "\<And>t. wp cred_kernel (f ()) Q E k t" and "appending (f ())"
  shows "wp cred_kernel (bind (print_groups file) f) Q E k s"
  unfolding print_groups_def
  by (intro wp_rules append_intros assms) (use assms in \<open>auto simp: cred_answers_def bind_return_fun split: if_splits\<close>)

text \<open>
  Started as root and restored exactly, \<open>usertask\<close> reports the uid and the gid it was asked
  for and no supplementary group, and creates the error file exactly if it was asked to stay root;
  its status is 0 when it gets as far as the report.
\<close>

theorem usertask_reports:
  assumes "uid k = 0" and "lines k = []" and "made k = []"
    and "run_kernel cred_kernel k (since s (final (usertask_test u g s))) = Some k'"
  shows "case usertask_test u g s of
      Exited c t \<Rightarrow> c = 1 \<and> lines k' = [] \<or>
        c = 0 \<and> lines k' = [u, g] # (if u = 0 then [[]] else []) \<and> (ERRFILE \<in> set (made k') \<longleftrightarrow> u = 0) \<and> groups k' = []
    | Blocked t \<Rightarrow> True | _ \<Rightarrow> False"
proof -
  have e: "ERRFILE \<noteq> ''sandbox/started''" "ERRFILE \<noteq> ''sandbox/readytodie''"
    by (simp_all add: ERRFILE_def DIRNAME_def)
  have "wp cred_kernel (usertask_test u g) (\<lambda>_ _ _. False)
      (\<lambda>c k'. c = 1 \<and> lines k' = [] \<or>
        c = 0 \<and> lines k' = [u, g] # (if u = 0 then [[]] else []) \<and> (ERRFILE \<in> set (made k') \<longleftrightarrow> u = 0) \<and> groups k' = []) k s"
    unfolding usertask_test_def usertask_report_def
    by (intro wp_rules append_intros wp_print_groups wp_wait_on)
      (auto simp: assms(1-3) e cred_effect_def cred_answers_def split: if_splits)
  from wp_ends [OF this assms(4)] show ?thesis .
qed

text \<open>A run with the default ids.\<close>

definition usertask_run :: "unit proc" where
  "usertask_run = start [ok 0, ok 2, failed ENOENT, ok 0, ok 501, ok 501, ok 0, ok 64, ok 0, failed EACCES, ok 0] None ()"

definition as_root :: cred where
  "as_root = \<lparr>uid = 0, gid = 0, groups = [0, 10], lines = [], made = []\<rparr>"

theorem usertask_reports_witness:
  "case run_kernel cred_kernel as_root (since usertask_run (final (usertask_test 501 501 usertask_run))) of
     None \<Rightarrow> False | Some k' \<Rightarrow> lines k' = [[501, 501]] \<and> ERRFILE \<notin> set (made k')"
proof -
  let ?p = "usertask_test 501 501"
  have "run_kernel cred_kernel as_root (since usertask_run (final (?p usertask_run))) \<noteq> None" by code_simp
  then obtain k' where k': "run_kernel cred_kernel as_root (since usertask_run (final (?p usertask_run))) = Some k'"
    by (cases "run_kernel cred_kernel as_root (since usertask_run (final (?p usertask_run)))") simp_all
  have "case ?p usertask_run of Exited c t \<Rightarrow> c = 0 | _ \<Rightarrow> False" by code_simp
  with usertask_reports [of as_root usertask_run 501 501 k'] k' show ?thesis
    by (simp add: as_root_def split: outcome.splits)
qed

end
