(* ===== verification/Makeprocs.thy ===== *)
theory Makeprocs
  imports Kernel Getopt
begin

text \<open>
  makeprocs/mp.c: a process with any number of children, each with some memory, all waiting for
  the file \<open>checkpoint-done\<close>.
\<close>

text \<open>The one global is \<open>do_dirty\<close>.\<close>

type_synonym 'a mprog = "(int, 'a) prog"

definition MAP_FAILED :: int where "MAP_FAILED = -1"
definition S_IRUSR :: int where "S_IRUSR = 256"

text \<open>Compiled without \<open>USE_MALLOC\<close>, which no makefile sets. Storing at \<open>MAP_FAILED\<close> is undefined.\<close>

definition growmem :: "int \<Rightarrow> int mprog" where
  "growmem sz =
     bind (sysv (Libc ''mmap'' [I sz])) (\<lambda>m.
     with_glob id (\<lambda>do_dirty.
     if do_dirty \<noteq> 0 \<and> m = MAP_FAILED then crash
     else andthen (if do_dirty \<noteq> 0 then emit (Libc ''memset'' [I m, S ''*'', I sz]) else return ()) (return m)))"

definition usage :: "string \<Rightarrow> 'a mprog" where
  "usage me =
     andthen (block [emit (Stdio (Printf 29 [S me])), emit (Stdio (Printf 30 [])), emit (Stdio (Printf 31 []))])
       (exit_with 1)"

definition exist_file :: "string \<Rightarrow> int mprog" where
  "exist_file fnam =
     bind (sysv (Libc ''stat'' [S fnam])) (\<lambda>ret.
     bind (gets errno) (\<lambda>e.
     if ret = 0 then return 1
     else if e \<noteq> ENOENT then andthen (emit (Stdio (Perror 44))) (exit_with 1)
     else return 0))"

definition await_checkpoint :: "unit mprog" where
  "await_checkpoint = poll (exist_file ''checkpoint-done'') (emit (Proc (Sleep 1)))"

definition do_child :: "int \<Rightarrow> int \<Rightarrow> 'a mprog" where
  "do_child n mem =
     bind (if mem \<noteq> 0
           then bind (growmem mem) (\<lambda>v.
             if v = 0 then andthen (emit (Stdio (Printf 56 [I n]))) (exit_with 1) else return v)
           else return 0) (\<lambda>v.
     andthen await_checkpoint (
     andthen (if v \<noteq> 0 then emit (Libc ''munmap'' [I v, I mem]) else return ()) (exit_with 0)))"

text \<open>The options: \<open>numprocs\<close>, \<open>memsz\<close> and \<open>do_dirty\<close>; \<open>None\<close> when the usage is printed.\<close>

fun mp_options :: "options \<Rightarrow> int \<times> int \<times> int \<Rightarrow> (int \<times> int \<times> int) option" where
  "mp_options [] st = Some st"
| "mp_options ((c, optarg) # os) (n, m, d) =
     (if c = CHR ''n'' then mp_options os (atoi (the optarg), m, d)
      else if c = CHR ''m'' then mp_options os (n, atoi (the optarg), d)
      else if c = CHR ''d'' then mp_options os (n, atoi (the optarg), 1)
      else None)"

definition start_child :: "int \<Rightarrow> nat \<Rightarrow> unit mprog" where
  "start_child memsz i =
     bind (sysv (Proc Fork)) (\<lambda>pid.
     if pid < 0 then andthen (emit (Stdio (Perror 108))) (exit_with 1)
     else if pid = 0 then do_child (int i) memsz
     else return ())"

text \<open>\<open>main\<close> from the first message on.\<close>

definition makeprocs :: "int \<Rightarrow> int \<Rightarrow> int mprog" where
  "makeprocs numprocs memsz =
     andthen (block
       [emit (Stdio (Printf 99 [I numprocs, I memsz])),
        emit (Unistd (Close 0)), emit (Unistd (Close 1)), emit (Unistd (Close 2)), emit (Unistd (Close 3)),
        foreach (start_child memsz) [0..<nat numprocs],
        emit (Unistd (Creat ''ready'' S_IRUSR)),
        await_checkpoint,
        foreach (\<lambda>i. bind (sysv (Libc ''wait'' [])) (\<lambda>_. return ())) [0..<nat numprocs],
        emit (Unistd (Creat ''done'' S_IRUSR))]) (exit_with 0)"

definition mp_main :: "string list \<Rightarrow> int mprog" where
  "mp_main argv =
     (if length argv < 2 then usage (if argv = [] then ''(null)'' else hd argv)
      else andthen (block
        [emit (Unistd (Unlink ''checkpoint-done'')), emit (Unistd (Unlink ''ready'')), emit (Unistd (Unlink ''done''))]) (
      case mp_options (fst (getopt ''hn:m:d:'' (tl argv))) (1, 0, 0) of
        None \<Rightarrow> usage (hd argv)
      | Some (numprocs, memsz, dirty) \<Rightarrow> andthen (set_glob (\<lambda>_. dirty)) (makeprocs numprocs memsz)))"

section \<open>The parent and its children\<close>

text \<open>
  The parent's view of its children: \<open>fork\<close> starts one (what the children do is another run, with
  the answer 0), \<open>wait\<close> collects one that has ended and fails without children; children do
  not go away in any other way. \<open>made\<close> are the files created, each with the children there were then.
\<close>

record family =
  alive :: nat
  born :: nat
  made :: "(string \<times> nat) list"

definition family_answers :: "call \<Rightarrow> resp \<Rightarrow> family \<Rightarrow> family option" where
  "family_answers c r k =
     (case c of
        Proc Fork \<Rightarrow> if rv r = 0 then None else if rv r < 0 then Some k else Some (k\<lparr>alive := alive k + 1, born := born k + 1\<rparr>)
      | Libc n args \<Rightarrow>
          if n = ''wait''
          then if alive k = 0 then if rv r = -1 then Some k else None
               else if rv r > 0 then Some (k\<lparr>alive := alive k - 1\<rparr>) else None
          else Some k
      | _ \<Rightarrow> Some k)"

definition family_effect :: "call \<Rightarrow> family \<Rightarrow> family" where
  "family_effect c k = (case c of Unistd (Creat p m) \<Rightarrow> k\<lparr>made := made k @ [(p, alive k)]\<rparr> | _ \<Rightarrow> k)"

definition family_kernel :: "family kernel" where
  "family_kernel = \<lparr>answers = family_answers, effect = family_effect\<rparr>"

lemma family_kernel_sel [simp]: "answers family_kernel = family_answers" "effect family_kernel = family_effect"
  by (simp_all add: family_kernel_def)

interpretation ef: poll_loop "exist_file fnam" "emit (Proc (Sleep 1))" for fnam
  by unfold_locales
    (auto simp: exist_file_def intro!: consuming_bind consuming_sysv shrink_intros append_intros)

lemma appending_await_checkpoint [append_intros]: "appending await_checkpoint"
  unfolding await_checkpoint_def by (rule ef.appending_poll)

lemma appending_do_child [append_intros]: "appending (do_child n m)"
  unfolding do_child_def growmem_def by (intro append_intros)

lemma appending_start_child [append_intros]: "appending (start_child m i)"
  unfolding start_child_def by (intro append_intros)

lemma wp_await_checkpoint:
  assumes "E 1 k"
  shows "wp family_kernel await_checkpoint (\<lambda>_ k' _. k' = k) E k s"
  unfolding await_checkpoint_def
proof (rule ef.wp_poll [where Inv = "\<lambda>k' _. k' = k"])
  fix k' s assume "k' = k"
  then show "wp family_kernel (exist_file ''checkpoint-done'')
      (\<lambda>d k' t. if d = 0 then wp family_kernel (emit (Proc (Sleep 1))) (\<lambda>_ k' _. k' = k) E k' t else k' = k) E k' s"
    unfolding exist_file_def
    by (intro wp_rules append_intros) (use assms in \<open>auto simp: family_answers_def family_effect_def intro!: wp_rules append_intros\<close>)
qed simp

lemma wp_start_children:
  assumes "alive k = 0" and "born k = 0" and "made k = []" and "\<And>k'. made k' = [] \<Longrightarrow> E 1 k'"
  shows "wp family_kernel (foreach (start_child m) is)
    (\<lambda>_ k' _. alive k' = length is \<and> born k' = length is \<and> made k' = []) E k s"
  by (rule wp_foreach [where Inv = "\<lambda>ys k' _. alive k' = length ys \<and> born k' = length ys \<and> made k' = []"])
    (use assms in \<open>auto simp: start_child_def family_answers_def family_effect_def intro!: wp_rules append_intros split: if_splits\<close>)

lemma wp_wait_children:
  assumes "alive k = length is"
  shows "wp family_kernel (foreach (\<lambda>i. bind (sysv (Libc ''wait'' [])) (\<lambda>_. return ())) is)
    (\<lambda>_ k' _. k' = k\<lparr>alive := 0\<rparr>) E k s"
proof -
  have "wp family_kernel (foreach (\<lambda>i. bind (sysv (Libc ''wait'' [])) (\<lambda>_. return ())) is)
      (\<lambda>_ k'' _. k'' = k\<lparr>alive := 0\<rparr>) E k' s" if "k' = k\<lparr>alive := length is\<rparr>" for k' s
    using that
  proof (induction "is" arbitrary: k' s)
    case (Cons i "is")
    then show ?case
      by (auto simp: family_answers_def intro!: wp_rules append_intros split: if_splits)
  qed (auto intro: wp_return)
  moreover have "k = k\<lparr>alive := length is\<rparr>" using assms by (cases k) simp
  ultimately show ?thesis by blast
qed

text \<open>
  \<^bold>\<open>C39.\<close> When \<open>mp\<close> ends with status 0 it has started as many children as it was asked for, created
  \<open>ready\<close> while all of them were there, and \<open>done\<close> after the last of them had been waited for; with any
  other status it has not created \<open>done\<close>.
\<close>

theorem makeprocs_waits_for_all:
  assumes "k = \<lparr>alive = 0, born = 0, made = []\<rparr>"
    and "run_kernel family_kernel k (since s (final (makeprocs numprocs memsz s))) = Some k'"
  shows "case makeprocs numprocs memsz s of
      Exited c t \<Rightarrow>
        c = 0 \<and> born k' = nat numprocs \<and> made k' = [(''ready'', nat numprocs), (''done'', 0)] \<or>
        c = 1 \<and> ''done'' \<notin> fst ` set (made k')
    | Blocked t \<Rightarrow> True | _ \<Rightarrow> False"
proof -
  let ?E = "\<lambda>c k'. c = 0 \<and> born k' = nat numprocs \<and> made k' = [(''ready'', nat numprocs), (''done'', 0)] \<or>
        c = 1 \<and> ''done'' \<notin> fst ` set (made k')"
  have waits: "wp family_kernel (bind (foreach (\<lambda>i. bind (sysv (Libc ''wait'' [])) (\<lambda>_. return ())) [0..<nat numprocs])
      (\<lambda>_. bind (block [emit (Unistd (Creat ''done'' S_IRUSR))]) (\<lambda>_. exit_with 0 :: int mprog))) (\<lambda>_ _ _. False) ?E k t"
    if "k = \<lparr>alive = nat numprocs, born = nat numprocs, made = [(''ready'', nat numprocs)]\<rparr>" for k t
    using that
    by (intro wp_seq [OF wp_wait_children] wp_rules append_intros) (auto simp: family_effect_def)
  have "wp family_kernel (makeprocs numprocs memsz) (\<lambda>_ _ _. False) ?E k s"
    unfolding makeprocs_def
    by (intro wp_rules append_intros wp_seq [OF wp_start_children] wp_seq [OF wp_await_checkpoint] waits)
      (auto simp: assms(1) family_effect_def)
  from wp_ends [OF this assms(2)] show ?thesis .
qed

text \<open>A run with two children.\<close>

definition mp_run :: "int proc" where
  "mp_run = start [ok 5, ok 6, failed ENOENT, ok 0, ok 6, ok 5] None 0"

theorem makeprocs_waits_for_all_witness:
  "case run_kernel family_kernel \<lparr>alive = 0, born = 0, made = []\<rparr> (since mp_run (final (makeprocs 2 4096 mp_run))) of
     None \<Rightarrow> False | Some k' \<Rightarrow> made k' = [(''ready'', 2), (''done'', 0)]"
proof -
  let ?k = "\<lparr>alive = 0, born = 0, made = []\<rparr>" and ?p = "makeprocs 2 4096"
  have "run_kernel family_kernel ?k (since mp_run (final (?p mp_run))) \<noteq> None" by code_simp
  then obtain k' where k': "run_kernel family_kernel ?k (since mp_run (final (?p mp_run))) = Some k'"
    by (cases "run_kernel family_kernel ?k (since mp_run (final (?p mp_run)))") simp_all
  have "case ?p mp_run of Exited c t \<Rightarrow> c = 0 | _ \<Rightarrow> False" by code_simp
  with makeprocs_waits_for_all [OF refl k'] k' show ?thesis by (simp split: outcome.splits)
qed

section \<open>Memory that could not be mapped\<close>

text \<open>
  \<open>mmap\<close> reports failure as \<open>MAP_FAILED\<close> and not as a null pointer, so the check in \<open>do_child\<close> does not
  see it: without \<open>-d\<close> the child goes on as if it had its memory, with \<open>-d\<close> it stores through the
  pointer.
\<close>

lemma failed_mmap_unnoticed:
  assumes "script s = failed e # rest" and "mem \<noteq> 0"
  shows "do_child n mem s =
    (if glob s \<noteq> 0 then Crashed (adv s [Got (Libc ''mmap'' [I mem]) (failed e)] rest e)
     else bind await_checkpoint (\<lambda>_. bind (emit (Libc ''munmap'' [I MAP_FAILED, I mem])) (\<lambda>_. exit_with 0))
       (adv s [Got (Libc ''mmap'' [I mem]) (failed e)] rest e))"
  using assms by (simp add: do_child_def growmem_def MAP_FAILED_def prog_simps)

end
