(* ===== verification/Pidns.thy ===== *)
theory Pidns
  imports Kernel
begin

text \<open>
  pidns/pidns.c: a small tree of processes in a pid namespace of its own; the one at the bottom
  writes down its pid before and after the checkpoint.
\<close>

type_synonym 'a nprog = "(unit, 'a) prog"

definition CLONE_NEWPID :: int where "CLONE_NEWPID = 0x20000000"

text \<open>The stream is not checked: printing to a null stream is undefined.\<close>

definition write_my_pid :: "nat \<Rightarrow> unit nprog" where
  "write_my_pid which =
     bind (sysv (Stdio (Fopen (''./mypid.'' @ dec_nat which) ''w''))) (\<lambda>f.
     bind (sysv (Proc Gettid)) (\<lambda>tid.
     if f < 0 then crash
     else block [emit (Stdio (FprintfTo f 27 [I tid])), emit (Stdio (Fclose f))]))"

definition restarted :: "int nprog" where
  "restarted = bind (sysv (Libc ''stat'' [S ''./checkpoint-done''])) (\<lambda>ret. return (if ret < 0 then 0 else 1))"

definition wait_on_restart :: "unit nprog" where
  "wait_on_restart =
     andthen (write_my_pid 1) (
     bind (sysv (Unistd (Creat ''./checkpoint-ready'' 384))) (\<lambda>fd.
     andthen (emit (Unistd (Close fd))) (
     andthen (poll restarted (emit (Proc (Sleep 1)))) (
     write_my_pid 2))))"

definition waitkids_body :: "unit \<Rightarrow> (unit + unit) nprog" where
  "waitkids_body _ = bind (sysv (Libc ''wait'' [])) (\<lambda>r. return (if r \<noteq> -1 then Inl () else Inr ()))"

definition waitkids :: "unit nprog" where
  "waitkids = loop waitkids_body ()"

text \<open>
  \<open>child\<close> in the process that \<open>clone\<close> starts and in every process that comes from a \<open>fork\<close> in it: the
  answers of \<open>fork\<close> say which process it is. Returning from \<open>child\<close> ends the process.
\<close>

definition child :: "int nprog" where
  "child =
     bind (sysv (Proc Fork)) (\<lambda>pid.
     if pid = 0 then
       bind (sysv (Proc Fork)) (\<lambda>pid.
       if pid = 0 then exit_with 0
       else bind (sysv (Proc Fork)) (\<lambda>pid.
       if pid = 0 then
         bind (sysv (Proc Fork)) (\<lambda>pid.
         if pid = 0 then andthen (emit (Proc (Sleep 1))) (andthen wait_on_restart (exit_with 0))
         else bind (sysv (Proc (Waitpid pid 0))) (\<lambda>_. exit_with 0))
       else bind (sysv (Proc (Waitpid pid 0))) (\<lambda>_. exit_with 0)))
     else andthen waitkids (exit_with 0))"

definition main :: "int nprog" where
  "main =
     bind (sysv (Thread Getpagesize)) (\<lambda>ps.
     bind (sysv (Proc (Malloc (4 * ps)))) (\<lambda>stack.
     if stack = 0 then exit_with (-1)
     else andthen (block (map (\<lambda>i. emit (Unistd (Close i))) [0, 1, 2, 3])) (
     bind (sysv (Libc ''clone'' [S ''child'', I (stack + 4 * ps), I (CLONE_NEWPID OR SIGCHLD), I 1])) (\<lambda>pid.
     bind (sysv (Proc (Waitpid pid 0))) (\<lambda>_. exit_with 0)))))"

section \<open>Who waits for the restart\<close>

text \<open>
  What a process sees: its thread id, which the checkpoint keeps, and streams that can be opened.
  \<open>forks\<close> are the answers of \<open>fork\<close> so far, \<open>pids\<close> the ids written down, \<open>ready\<close> whether the process
  has asked for the checkpoint.
\<close>

record view =
  tid :: int
  forks :: "int list"
  pids :: "int list"
  ready :: bool

definition view_answers :: "call \<Rightarrow> resp \<Rightarrow> view \<Rightarrow> view option" where
  "view_answers c r k =
     (case c of
        Proc Fork \<Rightarrow> Some (k\<lparr>forks := forks k @ [rv r]\<rparr>)
      | Proc Gettid \<Rightarrow> if rv r = tid k then Some k else None
      | Stdio (Fopen p m) \<Rightarrow> if 0 \<le> rv r then Some k else None
      | Unistd (Creat p m) \<Rightarrow> Some (k\<lparr>ready := True\<rparr>)
      | _ \<Rightarrow> Some k)"

definition view_effect :: "call \<Rightarrow> view \<Rightarrow> view" where
  "view_effect c k = (case c of Stdio (FprintfTo f l [I p]) \<Rightarrow> k\<lparr>pids := pids k @ [p]\<rparr> | _ \<Rightarrow> k)"

definition view_kernel :: "view kernel" where
  "view_kernel = \<lparr>answers = view_answers, effect = view_effect\<rparr>"

lemma view_kernel_sel [simp]: "answers view_kernel = view_answers" "effect view_kernel = view_effect"
  by (simp_all add: view_kernel_def)

interpretation rs: poll_loop restarted "emit (Proc (Sleep 1))"
  by unfold_locales (auto simp: restarted_def intro!: consuming_bind consuming_sysv shrink_intros append_intros)

interpretation wk: script_loop waitkids_body
  by (rule script_loopI) (auto simp: waitkids_body_def intro!: consuming_bind consuming_sysv shrink_intros)

lemma appending_waitkids [append_intros]: "appending waitkids"
  unfolding waitkids_def by (rule wk.appending_loop) (simp add: waitkids_body_def append_intros)

lemma appending_write_my_pid [append_intros]: "appending (write_my_pid n)"
  unfolding write_my_pid_def by (intro append_intros)

lemma appending_await_restart [append_intros]: "appending (poll restarted (emit (Proc (Sleep 1))))"
  by (rule rs.appending_poll)

lemma appending_wait_on_restart [append_intros]: "appending wait_on_restart"
  unfolding wait_on_restart_def by (intro append_intros)

lemma wp_write_my_pid:
  assumes "\<And>t. wp view_kernel (f ()) Q E (k\<lparr>pids := pids k @ [tid k]\<rparr>) t" and "appending (f ())"
  shows "wp view_kernel (bind (write_my_pid n) f) Q E k s"
  unfolding write_my_pid_def
  by (intro wp_rules append_intros assms) (auto simp: view_answers_def view_effect_def assms split: if_splits)

lemma wp_waitkids: "wp view_kernel waitkids (\<lambda>_ k' _. k' = k) E k s"
  unfolding waitkids_def
  by (rule wk.wp_loop [where Inv = "\<lambda>_ k' _. k' = k"])
    (auto simp: waitkids_body_def view_answers_def intro!: wp_rules append_intros)

lemma wp_await_restart: "wp view_kernel (poll restarted (emit (Proc (Sleep 1)))) (\<lambda>_ k' _. k' = k) E k s"
  by (rule rs.wp_poll [where Inv = "\<lambda>k' _. k' = k"])
    (auto simp: restarted_def view_answers_def view_effect_def intro!: wp_rules append_intros)

text \<open>
  Every process of the tree ends with status 0. The only one that asks for the checkpoint is
  the child of the first process's child's second child, and when it ends it has written down
  the same pid twice.
\<close>

theorem one_process_checkpoints:
  assumes "forks k = []" and "pids k = []" and "\<not> ready k"
    and "run_kernel view_kernel k (since s (final (child s))) = Some k'"
  shows "case child s of
      Exited c t \<Rightarrow> c = 0 \<and> (ready k' \<longleftrightarrow> (\<exists>a. a \<noteq> 0 \<and> forks k' = [0, a, 0, 0])) \<and>
        (if ready k' then pids k' = [tid k, tid k] else pids k' = [])
    | Blocked t \<Rightarrow> True | _ \<Rightarrow> False"
proof -
  have "wp view_kernel child (\<lambda>_ _ _. False)
      (\<lambda>c k'. c = 0 \<and> (ready k' \<longleftrightarrow> (\<exists>a. a \<noteq> 0 \<and> forks k' = [0, a, 0, 0])) \<and>
        (if ready k' then pids k' = [tid k, tid k] else pids k' = [])) k s"
    unfolding child_def wait_on_restart_def
    by (intro wp_rules append_intros wp_write_my_pid wp_seq [OF wp_waitkids] wp_seq [OF wp_await_restart])
      (auto simp: assms(1-3) view_answers_def view_effect_def)
  from wp_ends [OF this assms(4)] show ?thesis .
qed

text \<open>The process that asks for the checkpoint.\<close>

definition bottom_run :: "unit proc" where
  "bottom_run = start [ok 0, ok 3, ok 0, ok 0, ok 0, ok 5, ok 1, failed ENOENT, ok 0, ok 0, ok 5] None ()"

definition bottom_view :: view where
  "bottom_view = \<lparr>tid = 5, forks = [], pids = [], ready = False\<rparr>"

theorem one_process_checkpoints_witness:
  "case run_kernel view_kernel bottom_view (since bottom_run (final (child bottom_run))) of
     None \<Rightarrow> False | Some k' \<Rightarrow> forks k' = [0, 3, 0, 0] \<and> ready k' \<and> pids k' = [5, 5]"
proof -
  have "case run_kernel view_kernel bottom_view (since bottom_run (final (child bottom_run))) of
      None \<Rightarrow> False | Some k' \<Rightarrow> forks k' = [0, 3, 0, 0]" by code_simp
  then obtain k' where k': "run_kernel view_kernel bottom_view (since bottom_run (final (child bottom_run))) = Some k'"
    and f: "forks k' = [0, 3, 0, 0]" by (auto split: option.splits)
  have "case child bottom_run of Exited c t \<Rightarrow> c = 0 | _ \<Rightarrow> False" by code_simp
  with one_process_checkpoints [OF _ _ _ k'] k' f show ?thesis
    by (simp add: bottom_view_def split: outcome.splits)
qed

end
