(* ===== verification/Selfckpt.thy ===== *)
theory Selfckpt
  imports Kernel
begin

text \<open>
  Three programs that checkpoint themselves: simple/ckpt.c, selinux/ckpt.c and smack/ckpt.c. They
  rearrange their descriptors first, so that the image, the log and the messages end in the right
  files; the last two then write down their security context.
\<close>

type_synonym 'a cprog = "(unit, 'a) prog"

definition CHECKPOINT_SUBTREE :: int where "CHECKPOINT_SUBTREE = 1"
definition O_RDWR_CREAT :: int where "O_RDWR_CREAT = 66"
definition O_WRONLY_CREAT :: int where "O_WRONLY_CREAT = 65"

text \<open>The system call, as \<open>syscall\<close> makes it.\<close>

definition checkpoint :: "int \<Rightarrow> int \<Rightarrow> int \<Rightarrow> call" where
  "checkpoint pid fd logfd = Libc ''checkpoint'' [I pid, I fd, I CHECKPOINT_SUBTREE, I logfd]"

section \<open>simple/ckpt.c\<close>

definition in_dir :: "string \<Rightarrow> string \<Rightarrow> string" where
  "in_dir dir name = snprintf 400 (dir @ ''/'' @ name)"

text \<open>From the \<open>close\<close> on, with the three files open.\<close>

definition invoke :: "int \<Rightarrow> int \<Rightarrow> int \<Rightarrow> int \<Rightarrow> int cprog" where
  "invoke pid logfd file ckptfd =
     andthen (block
       [emit (Unistd (Close 0)), emit (Unistd (Dup2 file 1)), emit (Unistd (Dup2 file 2)),
        emit (Stdio (FprintfTo file 68 [])), emit (Stdio (Fflush file))]) (
     bind (sysv (checkpoint pid ckptfd logfd)) (\<lambda>ret.
     if ret < 0 then andthen (block [emit (Stdio (FprintfTo file 73 [])), emit (Stdio (Perror 74))]) (exit_with 2)
     else andthen (block
       [emit (Stdio (FprintfTo file 78 [I ret])), emit (Stdio (Fflush file)), emit (Unistd (Close logfd))]) (exit_with 0)))"

definition open_failed :: "nat \<Rightarrow> string \<Rightarrow> 'a cprog" where
  "open_failed l buf =
     andthen (block [emit (Stdio (Perror l)), emit (Stdio (Printf (l + 1) [S buf]))]) (exit_with 1)"

definition simple_main :: "string list \<Rightarrow> int cprog" where
  "simple_main argv =
     (let dir = (if length argv < 2 then ''/tmp'' else argv ! 1) in
      bind (sysv (Proc Getpid)) (\<lambda>pid.
      andthen (emit (Unistd (Unlink (in_dir dir ''log'')))) (
      bind (sysv (Unistd (Open (in_dir dir ''log'') O_RDWR_CREAT 384))) (\<lambda>logfd.
      if logfd < 0 then open_failed 40 (in_dir dir ''log'')
      else andthen (emit (Unistd (Unlink (in_dir dir ''cr-test.out'')))) (
      bind (sysv (Stdio (Fopen (in_dir dir ''cr-test.out'') ''w+''))) (\<lambda>file.
      if file < 0 then open_failed 49 (in_dir dir ''cr-test.out'')
      else andthen (emit (Unistd (Unlink (in_dir dir ''out'')))) (
      bind (sysv (Unistd (Open (in_dir dir ''out'') O_WRONLY_CREAT 420))) (\<lambda>ckptfd.
      if ckptfd < 0 then open_failed 57 (in_dir dir ''out'')
      else invoke pid logfd file ckptfd))))))))"

section \<open>selinux/ckpt.c and smack/ckpt.c\<close>

definition OUTFILE :: string where "OUTFILE = ''./cr-test.out''"

text \<open>From the second \<open>fopen\<close> on; \<open>c\<close> and \<open>c'\<close> are the statuses for a file that cannot be opened.\<close>

definition save_context :: "int \<Rightarrow> int \<Rightarrow> int cprog" where
  "save_context c c' =
     bind (sysv (Stdio (Fopen ''/proc/self/attr/current'' ''r''))) (\<lambda>file.
     if file < 0 then exit_with c
     else bind (sys (Stdio (Fread file 200))) (\<lambda>r.
     andthen (emit (Stdio (Fclose file))) (
     bind (sysv (Stdio (Fopen ''./context'' ''w''))) (\<lambda>file.
     if file < 0 then exit_with c'
     else andthen (block [emit (Stdio (Fwrite file (take (nat (rv r)) (rdat r)))), emit (Stdio (Fclose file))])
       (exit_with 0)))))"

text \<open>The checkpoint to standard output, from the \<open>dup2\<close> to standard error on; \<open>l\<close> and \<open>l'\<close> are the lines of the \<open>perror\<close>s.\<close>

definition checkpoint_stdout :: "nat \<Rightarrow> nat \<Rightarrow> int \<Rightarrow> int \<Rightarrow> int cprog \<Rightarrow> int cprog" where
  "checkpoint_stdout l l' pid file rest =
     bind (sysv (Unistd (Dup2 0 2))) (\<lambda>d.
     if d < 0 then andthen (emit (Stdio (Perror l))) (exit_with 1)
     else andthen (block [emit (Stdio (FprintfTo file (l + 4) [])), emit (Stdio (Fflush file))]) (
     bind (sysv (checkpoint pid 1 (-1))) (\<lambda>ret.
     if ret < 0 then andthen (emit (Stdio (Perror l'))) (exit_with 2)
     else andthen (block
       [emit (Stdio (FprintfTo file (l' + 4) [])), emit (Stdio (FprintfTo file (l' + 5) [I ret])), emit (Stdio (Fflush file))])
       rest)))"

definition selinux_main :: "int cprog" where
  "selinux_main =
     bind (sysv (Proc Getpid)) (\<lambda>pid.
     bind (sysv (Unistd (Open ''out'' O_RDWR_CREAT 420))) (\<lambda>fd.
     if fd < 0 then andthen (emit (Stdio (Perror 29))) (exit_with 1)
     else andthen (block [emit (Unistd (Close 0)), emit (Unistd (Close 2)), emit (Unistd (Unlink OUTFILE))]) (
     bind (sysv (Stdio (Fopen OUTFILE ''w+''))) (\<lambda>file.
     if file < 0 then andthen (emit (Stdio (Perror 39))) (exit_with 1)
     else andthen (block [emit (Unistd (Close 1)), emit (Unistd (Dup2 fd 1))])
       (checkpoint_stdout 47 56 pid file (save_context 3 4))))))"

definition smack_main :: "int cprog" where
  "smack_main =
     bind (sysv (Proc Getpid)) (\<lambda>pid.
     andthen (block [emit (Unistd (Close 0)), emit (Unistd (Close 2)), emit (Unistd (Unlink OUTFILE))]) (
     bind (sysv (Stdio (Fopen OUTFILE ''w+''))) (\<lambda>file.
     if file < 0 then andthen (emit (Stdio (Perror 33))) (exit_with 1)
     else checkpoint_stdout 38 48 pid file (save_context 1 1))))"

section \<open>Descriptors\<close>

text \<open>
  The descriptor table: \<open>open\<close> and \<open>fopen\<close> fail or use the lowest free descriptor, a stream is
  named by its descriptor, \<open>dup2\<close> needs an open one. \<open>image\<close> and \<open>log\<close> are the files a successful
  checkpoint wrote to, \<open>label\<close> the security context of the process, \<open>saved\<close> what it wrote to
  \<open>./context\<close>.
\<close>

record descriptors =
  table :: "int \<Rightarrow> string option"
  image :: "string option"
  ckpt_log :: "string option"
  label :: string
  saved :: "string option"

definition k_lowest :: "string \<Rightarrow> resp \<Rightarrow> descriptors \<Rightarrow> descriptors option" where
  "k_lowest p r k =
     (if rv r = -1 then Some k
      else if 0 \<le> rv r \<and> table k (rv r) = None \<and> list_all (\<lambda>i. table k i \<noteq> None) [0..rv r - 1]
      then Some (k\<lparr>table := (table k)(rv r := Some p)\<rparr>) else None)"

definition fd_answers :: "call \<Rightarrow> resp \<Rightarrow> descriptors \<Rightarrow> descriptors option" where
  "fd_answers c r k =
     (case c of
        Unistd (Open p f m) \<Rightarrow> k_lowest p r k
      | Stdio (Fopen p m) \<Rightarrow> k_lowest p r k
      | Unistd (Dup2 a b) \<Rightarrow>
          if table k a = None then if rv r = -1 then Some k else None
          else if rv r = b then Some (k\<lparr>table := (table k)(b := table k a)\<rparr>) else None
      | Stdio (Fread f n) \<Rightarrow> if rdat r = take n (label k) \<and> rv r = int (length (rdat r)) then Some k else None
      | Libc n [I pid, I fd, I fl, I lg] \<Rightarrow>
          if n = ''checkpoint'' \<and> 0 \<le> rv r then Some (k\<lparr>image := table k fd, ckpt_log := table k lg\<rparr>) else Some k
      | _ \<Rightarrow> Some k)"

definition fd_effect :: "call \<Rightarrow> descriptors \<Rightarrow> descriptors" where
  "fd_effect c k =
     (case c of
        Unistd (Close i) \<Rightarrow> k\<lparr>table := (table k)(i := None)\<rparr>
      | Stdio (Fclose i) \<Rightarrow> k\<lparr>table := (table k)(i := None)\<rparr>
      | Unistd (Dup2 a b) \<Rightarrow> if table k a = None then k else k\<lparr>table := (table k)(b := table k a)\<rparr>
      | Stdio (Fwrite f txt) \<Rightarrow> if table k f = Some ''./context'' then k\<lparr>saved := Some txt\<rparr> else k
      | _ \<Rightarrow> k)"

definition fd_kernel :: "descriptors kernel" where
  "fd_kernel = \<lparr>answers = fd_answers, effect = fd_effect\<rparr>"

lemma fd_kernel_sel [simp]: "answers fd_kernel = fd_answers" "effect fd_kernel = fd_effect"
  by (simp_all add: fd_kernel_def)

lemma appending_checkpoint_stdout [append_intros]:
  "appending rest \<Longrightarrow> appending (checkpoint_stdout l l' pid file rest)"
  unfolding checkpoint_stdout_def by (intro append_intros)

lemma appending_save_context [append_intros]: "appending (save_context c c')"
  unfolding save_context_def by (intro append_intros)

lemma appending_open_failed [append_intros]: "appending (open_failed l buf)"
  unfolding open_failed_def by (intro append_intros)

lemma appending_invoke [append_intros]: "appending (invoke pid logfd file ckptfd)"
  unfolding invoke_def by (intro append_intros)

text \<open>The context is saved whole when it fits the buffer.\<close>

lemma wp_save_context:
  assumes "E c k" and "\<And>tb. E c' (k\<lparr>table := tb\<rparr>)"
    and "\<And>tb. E 0 (k\<lparr>saved := Some (take 200 (label k)), table := tb\<rparr>)"
  shows "wp fd_kernel (save_context c c') Q E k s"
proof -
  have "take (min (length (label k)) 200) (label k) = take 200 (label k)" by (simp add: min_def)
  with assms show ?thesis
    unfolding save_context_def
    by (intro wp_rules append_intros) (auto simp: fd_answers_def fd_effect_def k_lowest_def split: if_splits)
qed

lemma wp_checkpoint_stdout:
  assumes "table k 0 = Some f" and "E 2 (k\<lparr>table := (table k)(2 := Some f)\<rparr>)"
    and "\<And>t. wp fd_kernel rest Q E (k\<lparr>table := (table k)(2 := Some f), image := table k 1, ckpt_log := table k (-1)\<rparr>) t"
    and "appending rest"
  shows "wp fd_kernel (checkpoint_stdout l l' pid file rest) Q E k s"
  unfolding checkpoint_stdout_def checkpoint_def
  by (intro wp_rules append_intros assms(4))
    (use assms in \<open>auto simp: fd_answers_def fd_effect_def split: if_splits\<close>)

text \<open>
  Started with the three standard descriptors open, \<open>ckpt\<close> of selinux/ ends with status 0
  only after a checkpoint whose image went to the file \<open>out\<close>, with its messages going to
  \<open>cr-test.out\<close>, and has then saved the first 200 bytes of its security context; a failing checkpoint
  gives status 2 and a file that cannot be opened 1, 3 or 4.
\<close>

theorem selinux_saves_context:
  assumes "table k 0 \<noteq> None" and "table k 1 \<noteq> None" and "table k 2 \<noteq> None" and "image k = None" and "saved k = None"
    and "run_kernel fd_kernel k (since s (final (selinux_main s))) = Some k'"
  shows "case selinux_main s of
      Exited c t \<Rightarrow> c \<in> {0, 1, 2, 3, 4} \<and> (c \<in> {0, 3, 4} \<longleftrightarrow> image k' = Some ''out'') \<and>
        (c = 0 \<longleftrightarrow> saved k' = Some (take 200 (label k)))
    | Blocked t \<Rightarrow> True | _ \<Rightarrow> False"
proof -
  have "wp fd_kernel selinux_main (\<lambda>_ _ _. False)
      (\<lambda>c k'. c \<in> {0, 1, 2, 3, 4} \<and> (c \<in> {0, 3, 4} \<longleftrightarrow> image k' = Some ''out'') \<and>
        (c = 0 \<longleftrightarrow> saved k' = Some (take 200 (label k)))) k s"
    unfolding selinux_main_def
    by (intro wp_rules append_intros wp_checkpoint_stdout wp_save_context)
      (use assms(1-5) in \<open>auto simp: fd_answers_def fd_effect_def k_lowest_def list_all_iff split: if_splits
        dest: bspec [where x = 0]\<close>)
  from wp_ends [OF this assms(6)] show ?thesis .
qed

text \<open>A run of it.\<close>

definition standard_fds :: descriptors where
  "standard_fds = \<lparr>table = (\<lambda>i. if i \<in> {0, 1, 2} then Some ''tty'' else None), image = None, ckpt_log = None,
     label = ''ckpt_test_1_t'', saved = None\<rparr>"

definition selinux_run :: "unit proc" where
  "selinux_run = start [ok 77, ok 3, ok 0, ok 2, ok 1, ok 4, \<lparr>rv = 13, er = 0, rdat = ''ckpt_test_1_t'', outs = []\<rparr>, ok 4] None ()"

theorem selinux_saves_context_witness:
  "case run_kernel fd_kernel standard_fds (since selinux_run (final (selinux_main selinux_run))) of
     None \<Rightarrow> False | Some k' \<Rightarrow> image k' = Some ''out'' \<and> saved k' = Some ''ckpt_test_1_t''"
proof -
  have "run_kernel fd_kernel standard_fds (since selinux_run (final (selinux_main selinux_run))) \<noteq> None" by code_simp
  then obtain k' where k': "run_kernel fd_kernel standard_fds (since selinux_run (final (selinux_main selinux_run))) = Some k'"
    by (cases "run_kernel fd_kernel standard_fds (since selinux_run (final (selinux_main selinux_run)))") simp_all
  have "case selinux_main selinux_run of Exited c t \<Rightarrow> c = 0 | _ \<Rightarrow> False" by code_simp
  with selinux_saves_context [OF _ _ _ _ _ k'] k' show ?thesis
    by (simp add: standard_fds_def split: outcome.splits)
qed

text \<open>
  smack/ckpt.c leaves standard output as it is: the image goes where the script has redirected it.
\<close>

lemma smack_saves_context:
  assumes "table k 1 = Some f" and "saved k = None"
  shows "wp fd_kernel smack_main (\<lambda>_ _ _. False)
    (\<lambda>c k'. c = 0 \<longrightarrow> image k' = Some f \<and> saved k' = Some (take 200 (label k))) k s"
  unfolding smack_main_def
  by (intro wp_rules append_intros wp_checkpoint_stdout wp_save_context)
    (use assms in \<open>auto simp: fd_answers_def fd_effect_def k_lowest_def list_all_iff split: if_splits
      dest: bspec [where x = 0]\<close>)

section \<open>The three files of simple/ckpt.c\<close>

text \<open>The names share a buffer of 400 bytes; a longer directory cuts them down to the same name.\<close>

lemma in_dir_eq:
  assumes "a \<noteq> []" and "b \<noteq> []" and "hd a \<noteq> hd b"
  shows "in_dir dir a = in_dir dir b \<longleftrightarrow> 397 < length dir"
proof (cases "397 < length dir")
  case True
  then have "399 - length dir = 0 \<or> 399 - length dir = 1" by arith
  with True show ?thesis by (auto simp: in_dir_def snprintf_def)
next
  case False
  then have "399 - length dir = Suc (Suc (397 - length dir))" by arith
  with False assms show ?thesis by (cases a; cases b) (simp_all add: in_dir_def snprintf_def)
qed

lemma names_distinct: "distinct [in_dir dir ''log'', in_dir dir ''cr-test.out'', in_dir dir ''out''] \<longleftrightarrow> length dir \<le> 397"
  by (auto simp: in_dir_eq)

text \<open>Opening a file keeps every descriptor that was open.\<close>

lemma k_lowest_cases:
  assumes "k_lowest p r k = Some k'"
  shows "rv r < 0 \<and> k' = k \<or> 0 \<le> rv r \<and> table k (rv r) = None \<and> k' = k\<lparr>table := (table k)(rv r := Some p)\<rparr>"
  using assms by (auto simp: k_lowest_def split: if_splits)

lemma wp_open:
  assumes "c \<in> {Unistd (Open p f m), Stdio (Fopen p md)}" and "\<And>t. wp fd_kernel q Q E k t"
    and "\<And>fd t. 0 \<le> fd \<Longrightarrow> table k fd = None \<Longrightarrow> wp fd_kernel (g fd) Q E (k\<lparr>table := (table k)(fd := Some p)\<rparr>) t"
    and "appending q" and "\<And>fd. appending (g fd)"
  shows "wp fd_kernel (bind (sysv c) (\<lambda>fd. if fd < 0 then q else g fd)) Q E k s"
  by (intro wp_rules append_intros assms(4,5))
    (use assms(1-3) in \<open>auto simp: fd_answers_def dest!: k_lowest_cases\<close>)

lemma wp_invoke:
  assumes "table k logfd = Some lg" and "table k ckptfd = Some im" and "logfd \<notin> {0, 1, 2}" and "ckptfd \<notin> {0, 1, 2}"
    and "\<And>tb. E 2 (k\<lparr>table := tb\<rparr>)" and "\<And>tb. E 0 (k\<lparr>image := Some im, ckpt_log := Some lg, table := tb\<rparr>)"
  shows "wp fd_kernel (invoke pid logfd file ckptfd) Q E k s"
  unfolding invoke_def checkpoint_def
  by (intro wp_rules append_intros) (use assms in \<open>auto simp: fd_answers_def fd_effect_def split: if_splits\<close>)

lemma wp_open_failed: "E 1 k \<Longrightarrow> wp fd_kernel (open_failed l buf) Q E k s"
  unfolding open_failed_def by (intro wp_rules append_intros) (simp add: fd_effect_def)

text \<open>
  Started with the three standard descriptors open, \<open>ckpt\<close> of simple/ ends with status 0
  exactly if its checkpoint succeeded; image and log then went to the files \<open>out\<close> and \<open>log\<close> of
  the directory, which are two files exactly if its name has at most 397 characters.
\<close>

theorem simple_verdict:
  assumes "table k 0 \<noteq> None" and "table k 1 \<noteq> None" and "table k 2 \<noteq> None" and "image k = None"
    and "dir = (if length argv < 2 then ''/tmp'' else argv ! 1)"
    and "run_kernel fd_kernel k (since s (final (simple_main argv s))) = Some k'"
  shows "case simple_main argv s of
      Exited c t \<Rightarrow> c \<in> {0, 1, 2} \<and> (c = 0 \<longleftrightarrow> image k' \<noteq> None) \<and>
        (c = 0 \<longrightarrow> image k' = Some (in_dir dir ''out'') \<and> ckpt_log k' = Some (in_dir dir ''log'') \<and>
          (image k' = ckpt_log k' \<longleftrightarrow> 397 < length dir))
    | Blocked t \<Rightarrow> True | _ \<Rightarrow> False"
proof -
  have "wp fd_kernel (simple_main argv) (\<lambda>_ _ _. False)
      (\<lambda>c k'. c \<in> {0, 1, 2} \<and> (c = 0 \<longleftrightarrow> image k' \<noteq> None) \<and>
        (c = 0 \<longrightarrow> image k' = Some (in_dir dir ''out'') \<and> ckpt_log k' = Some (in_dir dir ''log'') \<and>
          (image k' = ckpt_log k' \<longleftrightarrow> 397 < length dir))) k s"
    unfolding simple_main_def Let_def assms(5) [symmetric]
    by (rule wp_sysv; intro wp_andthen wp_emit wp_open wp_open_failed append_intros
        wp_invoke [where lg = "in_dir dir ''log''" and im = "in_dir dir ''out''"])
      (use assms(1-4) in \<open>auto simp: fd_answers_def fd_effect_def in_dir_eq split: if_splits\<close>)
  from wp_ends [OF this assms(6)] show ?thesis .
qed

text \<open>A run in \<open>/tmp\<close>.\<close>

definition simple_run :: "unit proc" where
  "simple_run = start [ok 77, ok 3, ok 4, ok 5, ok 1] None ()"

theorem simple_verdict_witness:
  "case run_kernel fd_kernel standard_fds (since simple_run (final (simple_main [''ckpt''] simple_run))) of
     None \<Rightarrow> False | Some k' \<Rightarrow> image k' = Some (in_dir ''/tmp'' ''out'') \<and> image k' \<noteq> ckpt_log k'"
proof -
  let ?p = "simple_main [''ckpt'']"
  have "run_kernel fd_kernel standard_fds (since simple_run (final (?p simple_run))) \<noteq> None" by code_simp
  then obtain k' where k': "run_kernel fd_kernel standard_fds (since simple_run (final (?p simple_run))) = Some k'"
    by (cases "run_kernel fd_kernel standard_fds (since simple_run (final (?p simple_run)))") simp_all
  have "case ?p simple_run of Exited c t \<Rightarrow> c = 0 | _ \<Rightarrow> False" by code_simp
  with simple_verdict [OF _ _ _ _ refl k'] k' show ?thesis
    by (auto simp: standard_fds_def split: outcome.splits)
qed

end
