(* ===== verification/Endless.thy ===== *)
theory Endless
  imports Mounts
begin

text \<open>
  Programs that run until they are killed: counterloop/crcounter.c, which counts in a file, and
  pty/ptyloop.c, whose two processes talk over a pseudo terminal. Each turn of their loops
  takes an answer, so what they have done after any number of answers is what can be said of them.
\<close>

type_synonym 'a lprog = "(unit, 'a) prog"

section \<open>counterloop/crcounter.c\<close>

definition FNAM :: string where "FNAM = ''counter_out''"
definition INT_MAX :: int where "INT_MAX = 2147483647"

definition counter_name :: "string list \<Rightarrow> string" where
  "counter_name argv = (if length argv > 1 then snprintf 200 (argv ! 1 @ ''/'' @ FNAM) else snprintf 200 FNAM)"

text \<open>\<open>fprintf(f, "%d", ++cnt); fclose(f)\<close>: counting past the largest int is undefined.\<close>

definition put_next :: "nat \<Rightarrow> int \<Rightarrow> int \<Rightarrow> (int \<Rightarrow> 'a lprog) \<Rightarrow> 'a lprog" where
  "put_next l f cnt k =
     (if cnt = INT_MAX then crash
      else andthen (block [emit (Stdio (FprintfTo f l [I (cnt + 1)])), emit (Stdio (Fclose f))]) (k (cnt + 1)))"

definition count_body :: "string \<Rightarrow> int \<Rightarrow> (int + int) lprog" where
  "count_body fnam cnt =
     andthen (emit (Proc (Sleep 3))) (
     bind (sysv (Stdio (Fopen fnam ''w''))) (\<lambda>f.
     if f < 0 then return (Inr 1) else put_next 44 f cnt (\<lambda>c. return (Inl c))))"

text \<open>Before the loop: the number to go on from. \<open>fscanf\<close> leaves \<open>cnt\<close> as it is when there is no number.\<close>

definition first_count :: "string \<Rightarrow> int lprog" where
  "first_count fnam =
     bind (sysv (Stdio (Fopen fnam ''r''))) (\<lambda>f.
     if f < 0
     then bind (sysv (Stdio (Fopen fnam ''w''))) (\<lambda>f. if f < 0 then exit_with 1 else put_next 33 f 1 return)
     else bind (sys (Libc ''fscanf'' [I f, S ''%d''])) (\<lambda>r.
       andthen (emit (Stdio (Fclose f))) (return (case sscanf_d (rdat r) of None \<Rightarrow> 0 | Some v \<Rightarrow> v))))"

definition crcounter_main :: "string list \<Rightarrow> int lprog" where
  "crcounter_main argv =
     andthen (foreach (\<lambda>i. emit (Unistd (Close (int i)))) [0..<100]) (
     bind (first_count (counter_name argv)) (\<lambda>cnt.
     bind (loop (count_body (counter_name argv)) cnt) exit_with))"

interpretation cb: script_loop "count_body fnam" for fnam
  by (rule script_loopI, unfold count_body_def put_next_def andthen_def, rule consuming_bind2)
    (auto intro!: consuming_bind consuming_sysv shrink_intros)

text \<open>The numbers a run has put into the file, one after the other.\<close>

fun numbers :: "event list \<Rightarrow> int list" where
  "numbers (Did (Stdio (FprintfTo f l [I v])) # es) = v # numbers es"
| "numbers (e # es) = numbers es"
| "numbers [] = []"

lemma numbers_append [simp]: "numbers (es @ fs) = numbers es @ numbers fs"
  by (induction es rule: numbers.induct) auto

lemma numbers_closes [simp]: "numbers (map (\<lambda>i. Did (Unistd (Close (int i)))) is) = []"
  by (induction "is") simp_all

lemma count_loop:
  assumes "script s = map ok fs" and "\<forall>f\<in>set fs. 0 \<le> f" and "c + int (length fs) \<le> INT_MAX"
  shows "\<exists>t. loop (count_body fnam) c s = Blocked t \<and> grows s t \<and>
    numbers (since s t) = map (\<lambda>i. c + int i) [1..<Suc (length fs)]"
  using assms
proof (induction fs arbitrary: c s)
  case Nil
  then show ?case by (subst cb.unfold) (simp add: count_body_def prog_simps grows_def)
next
  case (Cons f fs)
  let ?es = "[Did (Proc (Sleep 3)), Got (Stdio (Fopen fnam ''w'')) (ok f),
      Did (Stdio (FprintfTo f 44 [I (c + 1)])), Did (Stdio (Fclose f))]"
  let ?u = "adv s ?es (map ok fs) 0"
  have "loop (count_body fnam) c s = loop (count_body fnam) (c + 1) ?u"
    using Cons.prems by (subst cb.unfold) (simp add: count_body_def put_next_def prog_simps)
  moreover obtain t where t: "loop (count_body fnam) (c + 1) ?u = Blocked t" "grows ?u t"
      "numbers (since ?u t) = map (\<lambda>i. c + 1 + int i) [1..<Suc (length fs)]"
    using Cons.IH [of ?u "c + 1"] Cons.prems by auto
  moreover have "grows s ?u" by (simp add: grows_def)
  then have "grows s t" and "since s t = ?es @ since ?u t"
    using t(2) since_trans [of s ?u t] by (auto intro: grows_trans)
  moreover have "map (\<lambda>i. c + 1 + int i) [1..<Suc (length fs)] = map (\<lambda>i. c + int i) [2..<Suc (Suc (length fs))]"
    by (simp add: map_Suc_upt [symmetric] numeral_2_eq_2 add.assoc del: upt_Suc)
  ultimately show ?case by (simp add: upt_conv_Cons numeral_2_eq_2 del: upt_Suc)
qed

text \<open>A counter that finds \<open>c\<close> in its file, or no file, and then opens it for writing \<open>length fs\<close> times.\<close>

lemma run_closes:
  "bind (foreach (\<lambda>i. emit (Unistd (Close (int i)))) is) k s =
     k () (adv s (map (\<lambda>i. Did (Unistd (Close (int i)))) is) (script s) (errno s))"
  by (induction "is" arbitrary: s) (simp_all add: prog_simps)

lemma counter_from:
  assumes "\<And>u. script u = script s \<Longrightarrow> \<exists>v. first_count fnam u = Done c v \<and> grows u v \<and>
      numbers (since u v) = ns \<and> script v = map ok fs"
    and "\<forall>f\<in>set fs. 0 \<le> f" and "c + int (length fs) \<le> INT_MAX" and "fnam = counter_name argv"
  shows "\<exists>t. crcounter_main argv s = Blocked t \<and>
    numbers (since s t) = ns @ map (\<lambda>i. c + int i) [1..<Suc (length fs)]"
proof -
  let ?u = "adv s (map (\<lambda>i. Did (Unistd (Close (int i)))) [0..<100]) (script s) (errno s)"
  obtain v where v: "first_count fnam ?u = Done c v" "grows ?u v" "numbers (since ?u v) = ns" "script v = map ok fs"
    using assms(1) [of ?u] by auto
  obtain t where t: "loop (count_body fnam) c v = Blocked t" "grows v t"
      "numbers (since v t) = map (\<lambda>i. c + int i) [1..<Suc (length fs)]"
    using count_loop [OF v(4) assms(2,3)] by blast
  have "crcounter_main argv s = Blocked t"
    using v(1) t(1) unfolding crcounter_main_def andthen_def run_closes assms(4) [symmetric]
    by (simp add: bind_def)
  moreover have "since s t = since s ?u @ since ?u v @ since v t"
    using v(2) t(2) since_trans [of s ?u t] since_trans [of ?u v t] grows_trans [of ?u v t] by (simp add: grows_def)
  ultimately show ?thesis using v(3) t(3) by (simp del: upt_Suc)
qed



section \<open>pty/ptyloop.c\<close>

definition O_RDWR :: int where "O_RDWR = 2"
definition MODE_0600 :: int where "MODE_0600 = 384"

definition posix_openpt :: "int \<Rightarrow> int lprog" where
  "posix_openpt flags = sysv (Unistd (Open ''/dev/ptmx'' flags 0))"

definition write_body :: "int \<Rightarrow> unit \<Rightarrow> (unit + unit) lprog" where
  "write_body fd2 _ = bind (sysv (Unistd (Write fd2 (''hi'' @ [NUL])))) (\<lambda>_.
     andthen (emit (Proc (Sleep 1))) (return (Inl ())))"

definition pty_child :: "int \<Rightarrow> int lprog" where
  "pty_child fd =
     bind (sys (Libc ''ptsname'' [I fd])) (\<lambda>name.
     bind (sysv (Unistd (Open (rdat name) O_RDWR 0))) (\<lambda>fd2.
     if fd2 < 0 then andthen (emit (Stdio (Perror 54))) (exit_with 1)
     else andthen (block
       [emit (Unistd (Close 0)), emit (Unistd (Close 1)), emit (Unistd (Close 2)),
        emit (Unistd (Dup2 fd2 0)), emit (Unistd (Dup2 fd2 1)), emit (Unistd (Dup2 fd2 2))]) (
     andthen (loop (write_body fd2) ()) (exit_with 0))))"

definition read_body :: "int \<Rightarrow> unit \<Rightarrow> (unit + unit) lprog" where
  "read_body fd _ =
     bind (sysv (Unistd (Read fd 3))) (\<lambda>ret.
     bind (sysv (Unistd (Creat (if ret = 3 then ''./read-ok'' else ''./read-bad'') MODE_0600))) (\<lambda>f.
     andthen (emit (Unistd (Close f))) (return (Inl ()))))"

definition pty_parent :: "int \<Rightarrow> int lprog" where
  "pty_parent fd =
     andthen (block [emit (Unistd (Close 0)), emit (Unistd (Close 1)), emit (Unistd (Close 2))]) (
     andthen (loop (read_body fd) ()) (exit_with 0))"

definition ptyloop_main :: "int lprog" where
  "ptyloop_main =
     bind (sysv (Proc Getpid)) (\<lambda>me.
     bind (move_to_cgroup ''freezer'' ''1'' me) (\<lambda>m.
     if m = 0 then andthen (emit (Stdio (Printf 39 []))) (exit_with 1)
     else bind (posix_openpt O_RDWR) (\<lambda>fd.
     bind (sys (Libc ''ptsname'' [I fd])) (\<lambda>name.
     andthen (emit (Stdio (Printf 43 [I fd, S (rdat name)]))) (
     if fd < 0 then andthen (emit (Stdio (Perror 45))) (exit_with 1)
     else andthen (emit (Libc ''unlockpt'' [I fd])) (
     bind (sysv (Proc Fork)) (\<lambda>pid.
     andthen (emit (Stdio (Printf 50 [I pid]))) (
     if pid = 0 then pty_child fd
     else if pid < 0 then andthen (emit (Stdio (Perror 69))) (exit_with 1)
     else pty_parent fd))))))))"

interpretation rb: script_loop "read_body fd" for fd
  by (rule script_loopI) (auto simp: read_body_def intro!: consuming_bind consuming_sysv shrink_intros)

interpretation wb: script_loop "write_body fd" for fd
  by (rule script_loopI) (auto simp: write_body_def intro!: consuming_bind consuming_sysv shrink_intros)

text \<open>The files a run has created.\<close>

fun created :: "event list \<Rightarrow> string list" where
  "created (Got (Unistd (Creat p m)) r # es) = p # created es"
| "created (e # es) = created es"
| "created [] = []"

lemma created_append [simp]: "created (es @ fs) = created es @ created fs"
  by (induction es rule: created.induct) auto

text \<open>
  The reader never ends, and tells a complete message from an incomplete one: every read of three
  bytes, the length of \<open>hi\<close> with its null byte, and no other, creates \<open>read-ok\<close>.
\<close>

lemma reader_reports:
  assumes "script s = concat (map (\<lambda>(r, f). [r, f]) rs)"
  shows "\<exists>t. loop (read_body fd) () s = Blocked t \<and> grows s t \<and>
    created (since s t) = map (\<lambda>(r, f). if rv r = 3 then ''./read-ok'' else ''./read-bad'') rs"
  using assms
proof (induction rs arbitrary: s)
  case Nil
  then show ?case by (subst rb.unfold) (simp add: read_body_def prog_simps grows_def)
next
  case (Cons x rs)
  obtain r f where x: "x = (r, f)" by (cases x)
  let ?es = "[Got (Unistd (Read fd 3)) r,
      Got (Unistd (Creat (if rv r = 3 then ''./read-ok'' else ''./read-bad'') MODE_0600)) f, Did (Unistd (Close (rv f)))]"
  let ?u = "adv s ?es (concat (map (\<lambda>(r, f). [r, f]) rs)) (er f)"
  have "loop (read_body fd) () s = loop (read_body fd) () ?u"
    using Cons.prems x by (subst rb.unfold) (simp add: read_body_def prog_simps)
  moreover obtain t where t: "loop (read_body fd) () ?u = Blocked t" "grows ?u t"
      "created (since ?u t) = map (\<lambda>(r, f). if rv r = 3 then ''./read-ok'' else ''./read-bad'') rs"
    using Cons.IH [of ?u] by auto
  moreover have "grows s ?u" by (simp add: grows_def)
  then have "grows s t" and "since s t = ?es @ since ?u t"
    using t(2) since_trans [of s ?u t] by (auto intro: grows_trans)
  ultimately show ?case using x by simp
qed

text \<open>Neither process ends by itself once its loop has begun.\<close>

lemma writer_never_ends: "\<exists>t. loop (write_body fd) u s = Blocked t"
proof (induction u s rule: wb.induct [where fd = fd])
  case (turn a s)
  show ?case
  proof (cases "script s")
    case Nil
    then show ?thesis by (subst wb.unfold) (simp add: write_body_def prog_simps)
  next
    case (Cons r rs)
    then obtain u where "write_body fd a s = Done (Inl ()) u" by (simp add: write_body_def prog_simps)
    with turn [of "()" u] show ?thesis by (subst wb.unfold) (auto simp: bind_def)
  qed
qed

end
