(* ===== verification/Launchers.thy ===== *)
theory Launchers
  imports Mounts
begin

text \<open>
  The small programs: mysu.c and selinux/wrap.c start another program, sleep/sleeptest.c,
  taskfs/cwdsleep.c and taskfs/chrootsleep.c enter a freezer group and sleep.
\<close>

type_synonym 'a sprog = "(unit, 'a) prog"

section \<open>mysu.c\<close>

text \<open>
  A call of the exec family that succeeds does not return: the process waits in it, and the program
  it has started is another run. \<open>getpwnam\<close> stores the uid of the entry.
\<close>

definition execvp :: "string \<Rightarrow> string list \<Rightarrow> call" where
  "execvp file argv = Libc ''execvp'' (S file # map S argv)"

definition mysu_main :: "string list \<Rightarrow> int sprog" where
  "mysu_main argv =
     (if length argv < 3 then andthen (emit (Stdio (Printf 13 [S (if argv = [] then ''(null)'' else hd argv)]))) (exit_with 1)
      else bind (sys (Libc ''getpwnam'' [S (argv ! 1)])) (\<lambda>pe.
      if rv pe = 0 then andthen (emit (Stdio (Perror 18))) (exit_with 1)
      else let newuid = hd (outs pe @ [0]) in
      bind (sysv (Libc ''setuid'' [I newuid])) (\<lambda>ret.
      if ret \<noteq> 0 then andthen (emit (Stdio (Perror 24))) (exit_with 1)
      else bind (sysv (Libc ''getuid'' [])) (\<lambda>uid.
      if uid \<noteq> newuid then andthen (emit (Stdio (Printf 28 [I newuid]))) (exit_with 1)
      else bind (sysv (execvp (argv ! 2) (drop 2 argv))) exit_with))))"

fun started :: "event list \<Rightarrow> arg list option" where
  "started (Pending (Libc n args) # es) = (if n = ''execvp'' then Some args else started es)"
| "started (e # es) = started es"
| "started [] = None"

text \<open>
  \<open>mysu\<close> starts a program exactly if the user exists, \<open>setuid\<close> succeeded and \<open>getuid\<close> then
  confirmed the new uid; it is the named program with the arguments from its own name on.
\<close>

theorem mysu_starts_iff:
  "started (since s (final (mysu_main argv s))) =
     (case script s of
        [pe, ret, uid] \<Rightarrow>
          if length argv \<ge> 3 \<and> rv pe \<noteq> 0 \<and> rv ret = 0 \<and> rv uid = hd (outs pe @ [0])
          then Some (S (argv ! 2) # map S (drop 2 argv)) else None
      | _ \<Rightarrow> None)"
  by (auto simp: mysu_main_def execvp_def Let_def prog_simps split: list.splits)

section \<open>selinux/wrap.c\<close>

definition wrap_main :: "string list \<Rightarrow> int sprog" where
  "wrap_main argv =
     (if argv = [] then crash
      else let newargv = tl argv; newcmd = hd argv in
      bind (sysv (Libc ''execv'' (S newcmd # map S newargv))) exit_with)"

text \<open>
  \<open>argv[0]\<close> is the name of \<open>wrap\<close> itself: it first starts itself again, with the command in the place
  of its name, and only then the command, which is given its arguments without its name.
\<close>

lemma wrap_twice:
  assumes "script s = []"
  shows "since s (final (wrap_main (w # c # args) s)) = [Pending (Libc ''execv'' (S w # map S (c # args)))]"
    and "since s (final (wrap_main (c # args) s)) = [Pending (Libc ''execv'' (S c # map S args))]"
  using assms by (simp_all add: wrap_main_def Let_def prog_simps)

section \<open>sleep/ and taskfs/\<close>

definition close_fds :: "int list \<Rightarrow> unit sprog" where
  "close_fds is = block (map (\<lambda>i. emit (Unistd (Close i))) is)"

definition sleeptest_main :: "string list \<Rightarrow> int sprog" where
  "sleeptest_main argv =
     (let freezerdir = (if length argv > 1 then argv ! 1 else ''1'') in
      bind (sysv (Proc Getpid)) (\<lambda>pid.
      andthen (emit (Stdio (Printf 17 [I pid]))) (
      bind (sysv (Proc Getpid)) (\<lambda>pid.
      bind (move_to_cgroup ''freezer'' freezerdir pid) (\<lambda>m.
      if m = 0 then andthen (emit (Stdio (Printf 19 [S freezerdir]))) (do_exit 1)
      else andthen (close_fds [0, 1, 2, 3, 4]) (
      andthen (block [emit (Proc (Sleep 3)), emit (Proc (Sleep 3))]) (exit_with 0)))))))"

text \<open>Both programs of taskfs/ announce themselves by a file and sleep.\<close>

definition ready_and_sleep :: "int sprog" where
  "ready_and_sleep =
     bind (sysv (Unistd (Creat ''./ready'' 493))) (\<lambda>ret.
     if ret < 0 then return 1
     else andthen (block [emit (Unistd (Close ret)), emit (Proc (Sleep 300))]) (return 0))"

definition cwdsleep_main :: "string list \<Rightarrow> int sprog" where
  "cwdsleep_main argv =
     bind (if length argv > 1
           then bind (sysv (Proc Getpid)) (\<lambda>pid. bind (move_to_cgroup ''freezer'' (argv ! 1) pid) (\<lambda>m.
             if m = 0 then andthen (emit (Stdio (Printf 27 [S (argv ! 1)]))) (exit_with 1) else return ()))
           else return ()) (\<lambda>_.
     andthen (close_fds [0, 1, 2, 3]) (bind ready_and_sleep exit_with))"

definition chroot_child :: "int sprog" where
  "chroot_child = bind (sysv (Libc ''chroot'' [S ''.''])) (\<lambda>ret. if ret < 0 then return 1 else ready_and_sleep)"

text \<open>What \<open>child\<close> returns is dropped, and the child goes on behind it like its parent.\<close>

definition fork_and_wait :: "int sprog" where
  "fork_and_wait =
     bind (sysv (Proc Fork)) (\<lambda>pid.
     if pid < 0 then exit_with pid
     else andthen (if pid = 0 then bind chroot_child (\<lambda>_. return ()) else return ()) (
     bind (sysv (Proc (Waitpid pid 0))) exit_with))"

definition chrootsleep_main :: "string list \<Rightarrow> int sprog" where
  "chrootsleep_main argv =
     (let freezer = (if length argv > 1 then argv ! 1 else ''1'') in
      bind (sysv (Proc Getpid)) (\<lambda>pid.
      bind (move_to_cgroup ''freezer'' freezer pid) (\<lambda>m.
      if m = 0 then andthen (emit (Stdio (Printf 41 [S freezer]))) (exit_with 1)
      else andthen (close_fds [0, 1, 2, 3]) fork_and_wait)))"

text \<open>
  The status of the parent is the pid of its child, never 0 when all went well, and the child's own
  is what \<open>waitpid\<close> answers a process without children, whether it could sleep or not.
\<close>

lemma chrootsleep_status:
  assumes "script s = [ok pid, ok pid]" and "0 < pid"
  shows "\<exists>t. fork_and_wait s = Exited pid t"
  using assms by (simp add: fork_and_wait_def prog_simps)

lemma chrootsleep_child_status:
  assumes "script s = [ok 0, c, f, failed ECHILD]" and "0 \<le> rv c"
  shows "\<exists>t. fork_and_wait s = Exited (-1) t"
  using assms by (simp add: fork_and_wait_def chroot_child_def ready_and_sleep_def prog_simps)

end
