(* ===== verification/Spec2Isabelle.thy ===== *)
theory Spec2Isabelle
  imports Mounts Streams Fileio1 FileLock1 FileLock2 FileLease1 FileLease2 FSetOwn
    Epoll_Empty Epoll_Scm Epoll_Cycle Epoll_Sk10k Eventfd_RW Ptree1 Pthread1 Pthread2 Pthread3 Pthread4
    Log_Lock Futex_Plain Futex_Robust Futex_Pi
    Fs_Fifo Fs_Dir Dnotify Sysv_Shm Sysv_Mq Eclone Userns Makeprocs Pidns Selfckpt Endless Launchers
begin

text \<open>
  \<^bold>\<open>cr-tests\<close> is a collection of C programs that test checkpoint and restart of Linux processes.
  Each program sets up some kernel state (locks, leases, descriptors, threads, futexes, queues,
  namespaces), lets itself be checkpointed and restarted at a known place, and then decides whether
  the state is still there. This development models the programs and proves what their verdicts
  mean. It does not model the checkpoint itself: what a restart brings back is part of the
  environment.

  \<^bold>\<open>How a program is modelled\<close> (\<open>CR_Prelude\<close>, \<open>Process\<close>, \<open>Getopt\<close>)

  A program is a function from the state of a process to an outcome: it returned, it ended with a
  status, it is still inside a call, or it ran into undefined behaviour. The kernel and the C library
  are a parameter: the state holds a \<^emph>\<open>script\<close>, the list of answers to come, and every call whose
  result the source uses takes the next one; a call whose result is dropped is only recorded. The
  trace of a process has every call with its answer, and every message with the line of the
  source that prints it. A theorem without a hypothesis about the script holds for every
  environment. A loop whose number of turns only the environment bounds is \<open>loop\<close>; each turn takes
  an answer, so the length of the script is enough fuel, and the locale \<open>script_loop\<close> turns this
  obligation into an unfolding equation, an induction rule and an invariant rule; \<open>poll_loop\<close> is its
  extension for polling. Signal handlers run only inside a call that waits, which is where the
  programs expect them; the answer of that call says that a signal arrived.

  \<^bold>\<open>Three ways to say more about the environment\<close>

  \<^item> \<open>Kernel\<close>: a \<open>kernel\<close> has a state, says which answers a call can get in it, and how calls change
    it. \<open>wp\<close> is the weakest precondition of a program with respect to a kernel; its rules follow the
    program text. Each part of the kernel that a group of programs uses is a small one of its own,
    beside the programs: streams with their modes, positions and unwritten bytes (\<open>Streams\<close>), inodes
    and descriptors (\<open>Fs_Kernel\<close>), files, directories and their watches (\<open>Dnotify\<close>), control messages
    and status words (\<open>Epoll_Scm\<close>),
    System V objects (\<open>Sysv_Ipc\<close>), securebits and credentials (\<open>Userns\<close>), parents and children
    (\<open>Makeprocs\<close>), thread ids (\<open>Pidns\<close>), descriptor tables (\<open>Selfckpt\<close>), and the kernel that allows
    everything and remembers one answer (\<open>Eclone\<close>). The theorems then say: for every run whose
    answers such a kernel can give.
  \<^item> \<open>Interleave\<close>: threads and processes that share locks, barriers or condition variables. With the
    laws of \<open>Answers\<close> a thread is known by its list of answers, and a step of the system gives one
    answer to one thread; invariants are proved by induction over the reachable states.
  \<^item> \<open>Libfutex\<close>: the same for words in shared memory and futexes, with a step relation of its own.

  \<^bold>\<open>The library of the programs\<close> (libcrtest/)

  \<open>Libcrtest\<close> has the handshake with the script that takes the checkpoint (\<open>do_ckpt\<close>: announce,
  wait, go on) and \<open>do_wait\<close>; \<open>Notification\<close> the eventfd counter by which children tell their
  parent that they are ready; \<open>Mounts\<close> the parser of /proc/mounts and \<open>move_to_cgroup\<close>;
  \<open>Libcrtest_Files\<close> descriptors and files of records, \<open>Streams\<close> what its \<open>copy_data\<close> does on streams that
  behave as documented; \<open>Labels\<close> the labels at which the epoll, eventfd and fs programs can be told
  to checkpoint, and \<open>eflags\<close>, whose static buffer is part of the process state; \<open>Handshake\<close> the
  rules for labels and kernels together (locale \<open>handshake\<close>).

  \<^bold>\<open>The programs\<close>, one theory for a source file or a small group, named after it:

  \<^item> fileio/: \<open>Fileio1\<close>, \<open>FileLock1\<close> and \<open>FileLock2\<close> (over \<open>RecordLocks\<close>), \<open>FileLease1\<close>, \<open>FileLease2\<close>, \<open>FSetOwn\<close>
  \<^item> epoll/ and eventfd/: \<open>Epoll_Pipe\<close>, \<open>Epoll_Empty\<close>, \<open>Epoll_Scm\<close>, \<open>Epoll_Cycle\<close>, \<open>Epoll_Sk10k\<close>, \<open>Eventfd_RW\<close>
  \<^item> process-tree/: \<open>Ptree1\<close>, \<open>Pthread1\<close> to \<open>Pthread4\<close> (over \<open>Threads\<close>)
  \<^item> futex/: \<open>Libfutex\<close> with \<open>Log_Lock\<close>, \<open>Futex_Plain\<close>, \<open>Futex_Robust\<close>, \<open>Futex_Pi\<close>
  \<^item> fs/: \<open>Fs_File\<close>, \<open>Fs_Fifo\<close>, \<open>Fs_Dir\<close>, \<open>Dnotify\<close>
  \<^item> ipc/: \<open>Sysv_Ipc\<close> (create-sem.c and what the three programs share), \<open>Sysv_Shm\<close>, \<open>Sysv_Mq\<close>; the
    locale \<open>ipc_objects\<close> is interpreted once for each of them
  \<^item> eclone/: \<open>Eclone\<close>; userns/: \<open>Userns\<close>; makeprocs/: \<open>Makeprocs\<close>; pidns/: \<open>Pidns\<close>
  \<^item> simple/, selinux/, smack/: \<open>Selfckpt\<close>; counterloop/ and pty/: \<open>Endless\<close>
  \<^item> mysu.c, selinux/wrap.c, sleep/, taskfs/: \<open>Launchers\<close>

  The state of a program is the record of its globals (the last field of the process state); a
  function of the source is a definition of the same name, with a suffix or the program's name where
  several programs have it; a long \<open>main\<close> is cut into a few definitions at its labels or loops.

  \<^bold>\<open>What is proved\<close>

  \<^item> The handshake: \<open>do_ckpt\<close> returns only after the checkpoint was seen, and does return; the eventfd
    barrier holds in every interleaving; \<open>move_to_cgroup\<close> reports success only after the stream of the
    tasks file accepted the pid, and whatever became of it when the stream was flushed and closed.
  \<^item> The data: parsing of mount lines in place, comparing and copying files, records, decimal
    numbers and priorities that are written and read back, messages that come back from their queue.
    \<open>copy_data\<close> copies, and then fails on the mode of its destination; \<open>data_compare\<close> can take files for
    equal that differ in zero bytes at the end of an incomplete record.
  \<^item> The verdicts: when each test ends with status 0, over every environment or over a kernel that
    follows its documentation. Some cannot fail, some cannot pass: \<open>file\<close> reads from a descriptor
    it may only write, the child of \<open>scm\<close> never gets its descriptors, having no room for them, and
    nobody notices, the parents
    of eclone-1.c and eclone-5.c ignore what their children found.
  \<^item> Concurrency: record locks of two processes, the mutex of pthread4, the condition variable of
    pthread1 (whose wakeup can be lost), futex wakeups, mutual exclusion of the log, the robust list as
    a refinement of an abstract list of held futexes (the link of the entry lies in the page that all
    processes share, so setting it is an event of the trace and not a global of the process).
  \<^item> Bounds and termination: retries of futex calls, a release of a pi futex that counts its retries
    in a pointer (an address of 64 bits here, which the code counts down in steps of an \<open>int\<close>), the
    length of the chain of processes of userns/, names cut to their buffer.

  \<^bold>\<open>Not modelled\<close>: the shell and Python scripts that start, freeze, checkpoint and restart the
  programs; cr.h and clone.h, which have only numbers of system calls and flags; the arrays of labels
  that the build collects from the programs, of which each theory has the one of its program; the
  checkpoint tools (\<open>eclone\<close>, \<open>genstack\<close>, \<open>checkpoint\<close>), which are not in this repository and answer
  from the script. Output is not formatted: a message is its line and its arguments. Stacks,
  memory mappings and the memory that \<open>clone\<close> shares are not modelled beyond the words
  of futexes and the globals that the threads use.
\<close>

end
